theory Spec2Isabelle
  imports Main "HOL-Library.Char_ord" "HOL-Library.List_Lexorder" "HOL-Library.Sublist"
begin

section \<open>Strings\<close>

text \<open>
  Go strings are byte sequences; they are modelled as \<^typ>\<open>string\<close>.
  The three helpers of package \<^verbatim>\<open>strings\<close> that the bundler calls are written
  the way the Go library defines them:
  \<^verbatim>\<open>HasPrefix(s, p) = len(s) >= len(p) && s[:len(p)] == p\<close>,
  \<^verbatim>\<open>HasSuffix(s, x) = len(s) >= len(x) && s[len(s)-len(x):] == x\<close>,
  \<^verbatim>\<open>Contains(s, x) = Index(s, x) >= 0\<close>.
\<close>

definition hasPrefix :: "string \<Rightarrow> string \<Rightarrow> bool" where
  "hasPrefix s p = (length p \<le> length s \<and> take (length p) s = p)"

definition hasSuffix :: "string \<Rightarrow> string \<Rightarrow> bool" where
  "hasSuffix s x = (length x \<le> length s \<and> drop (length s - length x) s = x)"

fun containsStr :: "string \<Rightarrow> string \<Rightarrow> bool" where
  "containsStr [] x = (x = [])"
| "containsStr (c # s) x = (hasPrefix (c # s) x \<or> containsStr s x)"

section \<open>Platform resolver\<close>

text \<open>
  \<^verbatim>\<open>getPlatformSpecificMCPURL\<close> and \<^verbatim>\<open>getPlatformSpecificServerURL\<close> read
  \<^verbatim>\<open>runtime.GOOS\<close> and \<^verbatim>\<open>runtime.GOARCH\<close>; the model takes both as arguments.
\<close>

definition mcpBaseURL :: string where
  "mcpBaseURL = ''https://github.com/jonudell/xmlui-mcp/releases/download/v1.0.0/''"

definition serverBaseURL :: string where
  "serverBaseURL = ''https://github.com/JonUdell/xmlui-test-server/releases/download/v1.0.0/''"

definition getPlatformSpecificMCPURL :: "string \<Rightarrow> string \<Rightarrow> string" where
  "getPlatformSpecificMCPURL goos arch =
     (if goos = ''darwin'' then
        (if arch = ''arm64'' then mcpBaseURL @ ''xmlui-mcp-mac-arm.tar.gz''
         else mcpBaseURL @ ''xmlui-mcp-mac-amd.tar.gz'')
      else if goos = ''linux'' then mcpBaseURL @ ''xmlui-mcp-linux-amd64.zip''
      else if goos = ''windows'' then mcpBaseURL @ ''xmlui-mcp-windows-amd64.zip''
      else mcpBaseURL @ ''xmlui-mcp-mac-arm.tar.gz'')"

definition getPlatformSpecificServerURL :: "string \<Rightarrow> string \<Rightarrow> string" where
  "getPlatformSpecificServerURL goos arch =
     (if goos = ''darwin'' then
        (if arch = ''arm64'' then serverBaseURL @ ''xmlui-test-server-mac-arm.tar.gz''
         else serverBaseURL @ ''xmlui-test-server-mac-amd.tar.gz'')
      else if goos = ''linux'' then serverBaseURL @ ''xmlui-test-server-linux-amd64.tar.gz''
      else if goos = ''windows'' then serverBaseURL @ ''xmlui-test-server-windows-amd64.zip''
      else serverBaseURL @ ''xmlui-test-server-mac-arm.tar.gz'')"


section \<open>Errors\<close>

text \<open>
  A Go \<^verbatim>\<open>error\<close> value is modelled by the datatype \<open>error\<close>. The two errors the
  bundler builds itself with \<^verbatim>\<open>fmt.Errorf\<close> in \<^verbatim>\<open>downloadWithProgress\<close>, and the one
  of \<^verbatim>\<open>moveIntoPlace\<close>, have constructors of their own; \<open>PathError\<close> and
  \<open>LinkError\<close> are the errors of package \<^verbatim>\<open>os\<close>; \<open>LibError\<close> stands for an
  error returned from inside \<^verbatim>\<open>net/http\<close>, \<^verbatim>\<open>archive/zip\<close>, \<^verbatim>\<open>archive/tar\<close>,
  \<^verbatim>\<open>compress/gzip\<close> or \<^verbatim>\<open>io\<close>, identified by its message.
\<close>

datatype errno = ENOENT | ENOTDIR | EISDIR | EEXIST | EINVAL

datatype error =
    PathError string string errno
  | LinkError string string string errno
  | LibError string
  | AuthenticationFailed string string
  | RequestFailed string string
  | RepoDirNotFound

fun errnoString :: "errno \<Rightarrow> string" where
  "errnoString ENOENT = ''no such file or directory''"
| "errnoString ENOTDIR = ''not a directory''"
| "errnoString EISDIR = ''is a directory''"
| "errnoString EEXIST = ''file exists''"
| "errnoString EINVAL = ''invalid argument''"

text \<open>The text of \<^verbatim>\<open>err.Error()\<close>, which \<^verbatim>\<open>%v\<close> and \<^verbatim>\<open>Println\<close> print.\<close>

fun errorString :: "error \<Rightarrow> string" where
  "errorString (PathError opn p e) = opn @ '' '' @ p @ '': '' @ errnoString e"
| "errorString (LinkError opn old new e) =
     opn @ '' '' @ old @ '' '' @ new @ '': '' @ errnoString e"
| "errorString (LibError m) = m"
| "errorString (AuthenticationFailed url status) =
     ''authentication failed for private repository: '' @ url @
     '' (status: '' @ status @ '') - check PAT_TOKEN''"
| "errorString (RequestFailed status url) =
     ''request failed: '' @ status @ '' for URL: '' @ url"
| "errorString RepoDirNotFound = ''repo dir not found''"

section \<open>Paths\<close>

text \<open>
  The bundler builds every path with \<^verbatim>\<open>filepath.Join\<close> from the absolute working
  directory. An absolute, cleaned path is modelled by the list of its components below
  the root; \<open>[]\<close> is the root. \<open>joinPath\<close> is \<^verbatim>\<open>filepath.Join(dir, name)\<close> for
  such a \<open>dir\<close> with the POSIX separator: the components of \<open>name\<close> are appended,
  \<^verbatim>\<open>filepath.Clean\<close> dropping empty and \<^verbatim>\<open>.\<close> components and letting \<^verbatim>\<open>..\<close> remove the
  component before it (at the root it is dropped). \<open>render\<close> gives the string form.
\<close>

type_synonym path = "string list"

fun splitSlash :: "string \<Rightarrow> string \<Rightarrow> string list" where
  "splitSlash acc [] = [acc]"
| "splitSlash acc (c # cs) =
     (if c = CHR ''/'' then acc # splitSlash [] cs else splitSlash (acc @ [c]) cs)"

definition cleanStep :: "path \<Rightarrow> string \<Rightarrow> path" where
  "cleanStep p c =
     (if c = [] \<or> c = ''.'' then p else if c = ''..'' then butlast p else p @ [c])"

definition joinPath :: "path \<Rightarrow> string \<Rightarrow> path" where
  "joinPath dir name = foldl cleanStep dir (splitSlash [] name)"

definition render :: "path \<Rightarrow> string" where
  "render p = (if p = [] then ''/'' else concat (map (\<lambda>c. CHR ''/'' # c) p))"

definition pathDir :: "path \<Rightarrow> path" where
  "pathDir p = butlast p"

definition pathBase :: "path \<Rightarrow> string" where
  "pathBase p = (if p = [] then ''/'' else last p)"

text \<open>
  A file name is a path component: not empty, not \<^verbatim>\<open>.\<close> or \<^verbatim>\<open>..\<close>, and without a
  slash. Joining a directory and a file name appends the name.
\<close>

definition validName :: "string \<Rightarrow> bool" where
  "validName n = (n \<noteq> [] \<and> n \<noteq> ''.'' \<and> n \<noteq> ''..'' \<and> CHR ''/'' \<notin> set n)"

section \<open>The file system\<close>

text \<open>
  The part of the operating system the bundler acts on is a tree of directories and
  regular files; a file has its bytes and one permission bit, whether it is executable.
  The tree is stored as an association list from paths to nodes, the root being a
  directory that is always there. The operations below are those of package \<^verbatim>\<open>os\<close>
  that the bundler calls, with the behaviour the package documents on a POSIX system.
  Each returns the error it would return (\<open>None\<close> for \<^verbatim>\<open>nil\<close>) and the new tree.
  Permission checks other than the executable bit, symbolic links and I/O failures of
  the device are outside the model.
\<close>

type_synonym bytes = string

datatype node = File bytes bool | Dir

type_synonym fs = "(path \<times> node) list"

text \<open>On a file system every component of every path is a file name.\<close>

definition wfNames :: "fs \<Rightarrow> bool" where
  "wfNames f = list_all (\<lambda>e. list_all validName (fst e)) f"

definition nodeAt :: "fs \<Rightarrow> path \<Rightarrow> node option" where
  "nodeAt f p = (if p = [] then Some Dir else map_of f p)"

definition isDir :: "fs \<Rightarrow> path \<Rightarrow> bool" where
  "isDir f p = (nodeAt f p = Some Dir)"

definition isFile :: "fs \<Rightarrow> path \<Rightarrow> bool" where
  "isFile f p = (case nodeAt f p of Some (File c x) \<Rightarrow> True | _ \<Rightarrow> False)"

definition isExec :: "fs \<Rightarrow> path \<Rightarrow> bool" where
  "isExec f p = (case nodeAt f p of Some (File c x) \<Rightarrow> x | _ \<Rightarrow> False)"

definition put :: "path \<Rightarrow> node \<Rightarrow> fs \<Rightarrow> fs" where
  "put p n f = (p, n) # filter (\<lambda>e. fst e \<noteq> p) f"

text \<open>
  The error of resolving the directory part of a path: none when the parent is a
  directory, \<open>ENOTDIR\<close> when a regular file stands on the way, \<open>ENOENT\<close> otherwise.
\<close>

definition parentErr :: "fs \<Rightarrow> path \<Rightarrow> errno option" where
  "parentErr f p =
     (if isDir f (butlast p) then None
      else if list_ex (isFile f) (prefixes (butlast p)) then Some ENOTDIR
      else Some ENOENT)"

text \<open>\<^verbatim>\<open>os.Stat\<close> / \<^verbatim>\<open>os.Lstat\<close>: the error, if any.\<close>

definition statErr :: "fs \<Rightarrow> path \<Rightarrow> errno option" where
  "statErr f p =
     (case parentErr f p of
        Some e \<Rightarrow> Some e
      | None \<Rightarrow> (if nodeAt f p = None then Some ENOENT else None))"

text \<open>
  \<^verbatim>\<open>os.MkdirAll(p, perm)\<close>: fails, creating nothing, when \<open>p\<close> or one of its ancestors is
  a regular file; otherwise every missing directory on the way to \<open>p\<close> is created.
\<close>

definition mkdirAll :: "path \<Rightarrow> fs \<Rightarrow> error option \<times> fs" where
  "mkdirAll p f =
     (case find (isFile f) (prefixes p) of
        Some q \<Rightarrow> (Some (PathError ''mkdir'' (render q) ENOTDIR), f)
      | None \<Rightarrow>
          (None, map (\<lambda>q. (q, Dir)) (filter (\<lambda>q. nodeAt f q = None) (prefixes p)) @ f))"

text \<open>
  \<^verbatim>\<open>os.Create(p)\<close> opens with \<^verbatim>\<open>O_RDWR|O_CREATE|O_TRUNC\<close> and mode \<^verbatim>\<open>0666\<close>: a new file is
  empty and not executable, an existing file is truncated and keeps its mode.
\<close>

definition createFile :: "path \<Rightarrow> fs \<Rightarrow> error option \<times> fs" where
  "createFile p f =
     (case parentErr f p of
        Some e \<Rightarrow> (Some (PathError ''open'' (render p) e), f)
      | None \<Rightarrow>
          (case nodeAt f p of
             Some Dir \<Rightarrow> (Some (PathError ''open'' (render p) EISDIR), f)
           | Some (File c x) \<Rightarrow> (None, put p (File [] x) f)
           | None \<Rightarrow> (None, put p (File [] False) f)))"

text \<open>Writing \<open>d\<close> to the file opened at \<open>p\<close> (\<^verbatim>\<open>io.Copy(out, ...)\<close>).\<close>

definition writeTo :: "path \<Rightarrow> bytes \<Rightarrow> fs \<Rightarrow> fs" where
  "writeTo p d f =
     (case nodeAt f p of Some (File c x) \<Rightarrow> put p (File (c @ d) x) f | _ \<Rightarrow> f)"

text \<open>\<^verbatim>\<open>os.Chmod(p, 0755)\<close>.\<close>

definition chmodExec :: "path \<Rightarrow> fs \<Rightarrow> error option \<times> fs" where
  "chmodExec p f =
     (case statErr f p of
        Some e \<Rightarrow> (Some (PathError ''chmod'' (render p) e), f)
      | None \<Rightarrow>
          (case nodeAt f p of
             Some (File c x) \<Rightarrow> (None, put p (File c True) f)
           | _ \<Rightarrow> (None, f)))"

text \<open>
  \<^verbatim>\<open>os.WriteFile(p, d, perm)\<close>: \<open>x\<close> says whether \<open>perm\<close> has the executable bits
  (\<^verbatim>\<open>0755\<close>) or not (\<^verbatim>\<open>0644\<close>); the mode applies to a file that is created.
\<close>

definition writeFile :: "path \<Rightarrow> bytes \<Rightarrow> bool \<Rightarrow> fs \<Rightarrow> error option \<times> fs" where
  "writeFile p d x f =
     (case parentErr f p of
        Some e \<Rightarrow> (Some (PathError ''open'' (render p) e), f)
      | None \<Rightarrow>
          (case nodeAt f p of
             Some Dir \<Rightarrow> (Some (PathError ''open'' (render p) EISDIR), f)
           | Some (File c x') \<Rightarrow> (None, put p (File d x') f)
           | None \<Rightarrow> (None, put p (File d x) f)))"

text \<open>\<^verbatim>\<open>os.ReadFile(p)\<close>.\<close>

definition readFile :: "path \<Rightarrow> fs \<Rightarrow> error + bytes" where
  "readFile p f =
     (case statErr f p of
        Some e \<Rightarrow> Inl (PathError ''open'' (render p) e)
      | None \<Rightarrow>
          (case nodeAt f p of
             Some (File c x) \<Rightarrow> Inr c
           | _ \<Rightarrow> Inl (PathError ''read'' (render p) EISDIR)))"

text \<open>
  \<^verbatim>\<open>os.ReadDir(p)\<close>: the entries of the directory, sorted by file name, each with its
  \<^verbatim>\<open>IsDir()\<close>.
\<close>

definition childNames :: "fs \<Rightarrow> path \<Rightarrow> string list" where
  "childNames f p =
     sort (remdups (map (\<lambda>e. last (fst e))
       (filter (\<lambda>e. fst e \<noteq> [] \<and> butlast (fst e) = p) f)))"

definition readDir :: "path \<Rightarrow> fs \<Rightarrow> error + (string \<times> bool) list" where
  "readDir p f =
     (case statErr f p of
        Some e \<Rightarrow> Inl (PathError ''open'' (render p) e)
      | None \<Rightarrow>
          (if isDir f p then Inr (map (\<lambda>n. (n, isDir f (p @ [n]))) (childNames f p))
           else Inl (PathError ''readdirent'' (render p) ENOTDIR)))"

text \<open>
  \<^verbatim>\<open>os.RemoveAll(p)\<close> removes \<open>p\<close> and everything below it, and returns \<^verbatim>\<open>nil\<close> also when
  \<open>p\<close> does not exist.
\<close>

definition removeAll :: "path \<Rightarrow> fs \<Rightarrow> error option \<times> fs" where
  "removeAll p f = (None, filter (\<lambda>e. \<not> prefix p (fst e)) f)"

text \<open>
  \<^verbatim>\<open>os.Rename(old, new)\<close>. The package documents: ``If newpath already exists and is not
  a directory, Rename replaces it.'' On a POSIX system its implementation first looks at
  \<open>new\<close>: when that is an existing directory the call fails, with the error of
  \<^verbatim>\<open>Lstat(old)\<close> if \<open>old\<close> cannot be resolved and with \<open>EEXIST\<close> otherwise. Else it is
  \<^verbatim>\<open>rename(2)\<close>: \<open>old\<close> must exist and the parent of \<open>new\<close> must be a directory, a
  directory can replace neither a regular file nor move below itself, and the subtree at
  \<open>old\<close> moves to \<open>new\<close>, replacing a regular file there.
\<close>

definition rekey :: "path \<Rightarrow> path \<Rightarrow> path \<Rightarrow> path" where
  "rekey old new k = (if prefix old k then new @ drop (length old) k else k)"

definition moveTree :: "path \<Rightarrow> path \<Rightarrow> fs \<Rightarrow> fs" where
  "moveTree old new f =
     map (\<lambda>e. (rekey old new (fst e), snd e)) (filter (\<lambda>e. \<not> prefix new (fst e)) f)"

definition rename :: "path \<Rightarrow> path \<Rightarrow> fs \<Rightarrow> error option \<times> fs" where
  "rename old new f =
     (if statErr f new = None \<and> isDir f new then
        (case statErr f old of
           Some e \<Rightarrow> (Some (LinkError ''rename'' (render old) (render new) e), f)
         | None \<Rightarrow> (Some (LinkError ''rename'' (render old) (render new) EEXIST), f))
      else
        (case statErr f old of
           Some e \<Rightarrow> (Some (LinkError ''rename'' (render old) (render new) e), f)
         | None \<Rightarrow>
             (case parentErr f new of
                Some e \<Rightarrow> (Some (LinkError ''rename'' (render old) (render new) e), f)
              | None \<Rightarrow>
                  if old = new then (None, f)
                  else if isDir f old \<and> prefix old new then
                    (Some (LinkError ''rename'' (render old) (render new) EINVAL), f)
                  else if isDir f old \<and> isFile f new then
                    (Some (LinkError ''rename'' (render old) (render new) ENOTDIR), f)
                  else (None, moveTree old new f))))"


section \<open>The environment and the program state\<close>

text \<open>
  What the bundler reads from its environment is collected in the record \<open>world\<close>:
  \<^verbatim>\<open>runtime.GOOS\<close> and \<^verbatim>\<open>runtime.GOARCH\<close>, the working directory (\<^verbatim>\<open>os.Getwd\<close>),
  \<^verbatim>\<open>os.Args[0]\<close>, the environment variable \<^verbatim>\<open>GITHUB_TOKEN\<close> (empty when unset), the
  network (\<^verbatim>\<open>http.NewRequest\<close> and \<^verbatim>\<open>client.Do\<close>, the latter given the URL and the
  basic-auth pair on the request, if any) and the archive decoders: what
  \<^verbatim>\<open>zip.NewReader\<close> finds in a byte buffer, and what \<^verbatim>\<open>gzip.NewReader\<close> followed by
  \<^verbatim>\<open>tar.NewReader\<close> finds.

  A zip entry has its name, its \<^verbatim>\<open>FileInfo().IsDir()\<close>, and the outcome of \<^verbatim>\<open>Open()\<close>:
  an error, or the bytes that \<^verbatim>\<open>io.Copy\<close> transfers together with the error, if any,
  that \<^verbatim>\<open>io.Copy\<close> ends with. A tar stream is the list of entries that
  \<^verbatim>\<open>tarReader.Next()\<close> yields one after the other, each with the bytes and the final error
  of \<^verbatim>\<open>io.Copy\<close>, and then how \<^verbatim>\<open>Next()\<close> ends: \<open>None\<close> for \<^verbatim>\<open>io.EOF\<close>, or an error.

  The state the bundler changes is the file system and its standard output, kept as the
  list of the chunks printed, one per call of \<^verbatim>\<open>Println\<close> or \<^verbatim>\<open>Printf\<close>.
\<close>

datatype zipFile = ZipFile (zfName: string) (zfIsDir: bool) (zfOpen: "error + bytes \<times> error option")

datatype tarEntry =
  TarEntry (teName: string) (teIsDir: bool) (teData: bytes) (teCopyErr: "error option")

type_synonym tarStream = "tarEntry list \<times> error option"

record httpResponse =
  statusCode :: nat
  status :: string
  body :: "error + bytes"

record world =
  GOOS :: string
  GOARCH :: string
  cwd :: path
  arg0 :: string
  githubToken :: string
  httpNewRequest :: "string \<Rightarrow> error option"
  httpDo :: "string \<Rightarrow> (string \<times> string) option \<Rightarrow> error + httpResponse"
  zipNewReader :: "bytes \<Rightarrow> error + zipFile list"
  gzipTarReader :: "bytes \<Rightarrow> error + tarStream"

record state =
  files :: fs
  stdout :: "string list"

definition nl :: string where
  "nl = [CHR 0x0A]"

definition printf :: "string \<Rightarrow> state \<Rightarrow> state" where
  "printf str s = s\<lparr>stdout := stdout s @ [str]\<rparr>"

definition println :: "string \<Rightarrow> state \<Rightarrow> state" where
  "println str s = printf (str @ nl) s"

function showNat :: "nat \<Rightarrow> string" where
  "showNat n =
     (if n < 10 then [char_of (48 + n)]
      else showNat (n div 10) @ [char_of (48 + n mod 10)])"
  by pat_completeness auto
termination
  by (relation "measure id") auto

section \<open>Fetcher\<close>

definition privateRepo :: string where
  "privateRepo = ''codeload.github.com/xmlui-com/xmlui''"

text \<open>The basic-auth pair that \<^verbatim>\<open>downloadWithProgress\<close> puts on the request, if any.\<close>

definition requestAuth :: "world \<Rightarrow> string \<Rightarrow> (string \<times> string) option" where
  "requestAuth w url =
     (if containsStr url privateRepo \<and> githubToken w \<noteq> []
      then Some (githubToken w, ''x-oauth-basic'') else None)"

definition downloadWithProgress ::
  "world \<Rightarrow> string \<Rightarrow> string \<Rightarrow> state \<Rightarrow> state \<times> (error + bytes)" where
  "downloadWithProgress w url filename s =
     (let s1 = printf (''Downloading '' @ filename @ ''...'' @ nl) s;
          s2 = printf (''  From: '' @ url @ nl) s1
      in case httpNewRequest w url of
           Some e \<Rightarrow> (s2, Inl e)
         | None \<Rightarrow>
             let s3 =
               (if containsStr url privateRepo then
                  (if githubToken w \<noteq> []
                   then println ''  Using authentication token for private repository'' s2
                   else println ''  Warning: No authentication token found for private repository'' s2)
                else s2)
             in case httpDo w url (requestAuth w url) of
                  Inl e \<Rightarrow> (s3, Inl e)
                | Inr resp \<Rightarrow>
                    if statusCode resp \<noteq> 200 then
                      (if containsStr url privateRepo \<and> statusCode resp = 401
                       then (s3, Inl (AuthenticationFailed url (status resp)))
                       else (s3, Inl (RequestFailed (status resp) url)))
                    else
                      (case body resp of
                         Inl e \<Rightarrow> (s3, Inl e)
                       | Inr data \<Rightarrow>
                           (printf (''  Downloaded: '' @ showNat (length data) @ '' bytes'' @ nl) s3,
                            Inr data)))"

section \<open>Archive extractor\<close>

text \<open>
  One pass of the loop of \<^verbatim>\<open>unzipTo\<close>. The results of \<^verbatim>\<open>os.MkdirAll\<close>, \<^verbatim>\<open>io.Copy\<close>
  and both \<^verbatim>\<open>Close\<close> calls are dropped by the source, so only the file system they leave
  goes on. \<open>Some e\<close> is \<^verbatim>\<open>return err\<close>.
\<close>

definition unzipEntry :: "path \<Rightarrow> zipFile \<Rightarrow> fs \<Rightarrow> error option \<times> fs" where
  "unzipEntry dest z f =
     (let fpath = joinPath dest (zfName z)
      in if zfIsDir z then (None, snd (mkdirAll fpath f))
         else
           let f1 = snd (mkdirAll (pathDir fpath) f)
           in case zfOpen z of
                Inl e \<Rightarrow> (Some e, f1)
              | Inr (d, ce) \<Rightarrow>
                  (case createFile fpath f1 of
                     (Some e, f2) \<Rightarrow> (Some e, f2)
                   | (None, f2) \<Rightarrow> (None, writeTo fpath d f2)))"

fun unzipLoop :: "path \<Rightarrow> zipFile list \<Rightarrow> fs \<Rightarrow> error option \<times> fs" where
  "unzipLoop dest [] f = (None, f)"
| "unzipLoop dest (z # zs) f =
     (case unzipEntry dest z f of
        (Some e, f') \<Rightarrow> (Some e, f')
      | (None, f') \<Rightarrow> unzipLoop dest zs f')"

definition unzipTo :: "world \<Rightarrow> bytes \<Rightarrow> path \<Rightarrow> fs \<Rightarrow> error option \<times> fs" where
  "unzipTo w data dest f =
     (case zipNewReader w data of
        Inl e \<Rightarrow> (Some e, f)
      | Inr zs \<Rightarrow> unzipLoop dest zs f)"

text \<open>The test of \<^verbatim>\<open>untarGzTo\<close> for setting the executable bit.\<close>

definition execName :: "path \<Rightarrow> bool" where
  "execName fpath =
     (hasSuffix (render fpath) ''.sh'' \<or> pathBase fpath = ''xmlui-mcp'' \<or>
      pathBase fpath = ''xmlui-mcp-client'' \<or> pathBase fpath = ''xmlui-test-server'')"

text \<open>One pass of the loop of \<^verbatim>\<open>untarGzTo\<close>, for a header that \<^verbatim>\<open>Next()\<close> returned.\<close>

definition untarEntry :: "path \<Rightarrow> tarEntry \<Rightarrow> fs \<Rightarrow> error option \<times> fs" where
  "untarEntry dest t f =
     (let fpath = joinPath dest (teName t)
      in if teIsDir t then (None, snd (mkdirAll fpath f))
         else
           let f1 = snd (mkdirAll (pathDir fpath) f)
           in case createFile fpath f1 of
                (Some e, f2) \<Rightarrow> (Some e, f2)
              | (None, f2) \<Rightarrow>
                  let f3 = writeTo fpath (teData t) f2
                  in case teCopyErr t of
                       Some e \<Rightarrow> (Some e, f3)
                     | None \<Rightarrow>
                         (None, if execName fpath then snd (chmodExec fpath f3) else f3))"

fun untarLoop :: "path \<Rightarrow> tarEntry list \<Rightarrow> error option \<Rightarrow> fs \<Rightarrow> error option \<times> fs" where
  "untarLoop dest [] fin f = (fin, f)"
| "untarLoop dest (t # ts) fin f =
     (case untarEntry dest t f of
        (Some e, f') \<Rightarrow> (Some e, f')
      | (None, f') \<Rightarrow> untarLoop dest ts fin f')"

definition untarGzTo :: "world \<Rightarrow> bytes \<Rightarrow> path \<Rightarrow> fs \<Rightarrow> error option \<times> fs" where
  "untarGzTo w data dest f =
     (case gzipTarReader w data of
        Inl e \<Rightarrow> (Some e, f)
      | Inr (ts, fin) \<Rightarrow> untarLoop dest ts fin f)"

section \<open>Layout assembler\<close>

text \<open>
  \<^verbatim>\<open>moveIntoPlace\<close> returns \<^verbatim>\<open>("", err)\<close> or \<^verbatim>\<open>(final, nil)\<close>: a sum in the model.
\<close>

fun moveLoop ::
  "path \<Rightarrow> string \<Rightarrow> path \<Rightarrow> (string \<times> bool) list \<Rightarrow> fs \<Rightarrow> fs \<times> (error + path)" where
  "moveLoop srcParent repo installDir [] f = (f, Inl RepoDirNotFound)"
| "moveLoop srcParent repo installDir (e # es) f =
     (if hasPrefix (fst e) (repo @ ''-'') then
        (let tmp = joinPath srcParent (fst e);
             final = joinPath installDir repo
         in case rename tmp final f of
              (Some err, f') \<Rightarrow> (f', Inl err)
            | (None, f') \<Rightarrow> (f', Inr final))
      else moveLoop srcParent repo installDir es f)"

definition moveIntoPlace :: "path \<Rightarrow> string \<Rightarrow> path \<Rightarrow> fs \<Rightarrow> fs \<times> (error + path)" where
  "moveIntoPlace srcParent repo installDir f =
     (case readDir srcParent f of
        Inl e \<Rightarrow> (f, Inl e)
      | Inr es \<Rightarrow> moveLoop srcParent repo installDir es f)"

text \<open>
  \<^verbatim>\<open>copyFiles\<close> calls itself for every subdirectory, and nothing bounds the depth when
  the destination lies inside the source; the model counts the depth down from a bound
  and returns \<open>None\<close> when the bound is reached.
\<close>

fun copyFiles :: "nat \<Rightarrow> path \<Rightarrow> path \<Rightarrow> fs \<Rightarrow> (error option \<times> fs) option"
  and copyEntries ::
    "nat \<Rightarrow> path \<Rightarrow> path \<Rightarrow> (string \<times> bool) list \<Rightarrow> fs \<Rightarrow> (error option \<times> fs) option" where
  "copyFiles 0 src dst f = None"
| "copyFiles (Suc n) src dst f =
     (case readDir src f of
        Inl e \<Rightarrow> Some (Some e, f)
      | Inr es \<Rightarrow> copyEntries n src dst es f)"
| "copyEntries n src dst [] f = Some (None, f)"
| "copyEntries n src dst (e # es) f =
     (let srcPath = joinPath src (fst e);
          dstPath = joinPath dst (fst e)
      in if snd e then
           (case copyFiles n srcPath dstPath (snd (mkdirAll dstPath f)) of
              None \<Rightarrow> None
            | Some (Some err, f') \<Rightarrow> Some (Some err, f')
            | Some (None, f') \<Rightarrow> copyEntries n src dst es f')
         else
           (case readFile srcPath f of
              Inl err \<Rightarrow> Some (Some err, f)
            | Inr data \<Rightarrow>
                (case writeFile dstPath data False f of
                   (Some err, f') \<Rightarrow> Some (Some err, f')
                 | (None, f') \<Rightarrow> copyEntries n src dst es f')))"


section \<open>Orchestrator\<close>

text \<open>
  \<^verbatim>\<open>main\<close> is modelled step by step. A step returns \<open>Inl s\<close> when the source calls
  \<^verbatim>\<open>os.Exit(1)\<close> in state \<open>s\<close>, and \<open>Inr\<close> of what it hands on otherwise. The paths
  \<^verbatim>\<open>tmpDir\<close>, \<^verbatim>\<open>mcpDir\<close>, \<^verbatim>\<open>docsDir\<close>, \<^verbatim>\<open>srcDir\<close> and \<^verbatim>\<open>tmpMCP\<close> of the source are
  functions of the install directory.
\<close>

definition repoName :: string where
  "repoName = ''xmlui-invoice''"

definition branchName :: string where
  "branchName = ''main''"

definition appZipURL :: string where
  "appZipURL = ''https://codeload.github.com/jonudell/'' @ repoName @ ''/zip/refs/heads/'' @ branchName"

definition xmluiRepoZip :: string where
  "xmluiRepoZip = ''https://codeload.github.com/xmlui-com/xmlui/zip/refs/heads/main''"

definition tmpDirOf :: "path \<Rightarrow> path" where
  "tmpDirOf installDir = joinPath installDir ''xmlui-source''"

definition mcpDirOf :: "path \<Rightarrow> path" where
  "mcpDirOf installDir = joinPath installDir ''mcp''"

definition docsDirOf :: "path \<Rightarrow> path" where
  "docsDirOf installDir = joinPath (mcpDirOf installDir) ''docs''"

definition srcDirOf :: "path \<Rightarrow> path" where
  "srcDirOf installDir = joinPath (mcpDirOf installDir) ''src''"

definition tmpMCPOf :: "path \<Rightarrow> path" where
  "tmpMCPOf installDir = joinPath installDir ''mcpTmp''"

text \<open>\<^verbatim>\<open>fmt.Println(msg, err); os.Exit(1)\<close>\<close>

definition failWith :: "string \<Rightarrow> error \<Rightarrow> state \<Rightarrow> state" where
  "failWith msg err s = println (msg @ '' '' @ errorString err) s"

text \<open>Choosing the extractor from the extension of the URL, as steps 3 and 4 do.\<close>

definition extractByURL :: "world \<Rightarrow> string \<Rightarrow> bytes \<Rightarrow> path \<Rightarrow> fs \<Rightarrow> error option \<times> fs" where
  "extractByURL w url data dest f =
     (if hasSuffix url ''.zip'' then unzipTo w data dest f else untarGzTo w data dest f)"

definition step1 :: "world \<Rightarrow> state \<Rightarrow> state + path \<times> state" where
  "step1 w s =
     (let installDir = cwd w;
          s0 = println ''Step 1/5: Downloading XMLUI invoice app...'' s
      in case downloadWithProgress w appZipURL ''XMLUI invoice app'' s0 of
           (s1, Inl e) \<Rightarrow> Inl (failWith ''Failed to download app:'' e s1)
         | (s1, Inr appZip) \<Rightarrow>
             (case unzipTo w appZip installDir (files s1) of
                (Some e, f) \<Rightarrow> Inl (failWith ''Failed to extract app:'' e (s1\<lparr>files := f\<rparr>))
              | (None, f) \<Rightarrow>
                  (case moveIntoPlace installDir repoName installDir f of
                     (f', Inl e) \<Rightarrow>
                       Inl (failWith ''Failed to organize app directory:'' e (s1\<lparr>files := f'\<rparr>))
                   | (f', Inr appDir) \<Rightarrow> Inr (appDir, s1\<lparr>files := f'\<rparr>))))"

text \<open>
  The loop that looks for the root of the extracted component library: the first
  directory entry whose name starts with \<^verbatim>\<open>xmlui-\<close>; \<open>None\<close> is the empty string of
  the source.
\<close>

fun findSourceRoot :: "path \<Rightarrow> (string \<times> bool) list \<Rightarrow> path option" where
  "findSourceRoot tmpDir [] = None"
| "findSourceRoot tmpDir (e # es) =
     (if snd e \<and> hasPrefix (fst e) ''xmlui-'' then Some (joinPath tmpDir (fst e))
      else findSourceRoot tmpDir es)"

definition checkMark :: string where
  "checkMark = [CHR 0xE2, CHR 0x9C, CHR 0x93]"

text \<open>
  Copying the components; the source drops what \<^verbatim>\<open>copyFiles\<close> returns, so only the file
  system it leaves goes on.
\<close>

definition copyComponents :: "nat \<Rightarrow> path \<Rightarrow> path \<Rightarrow> path \<Rightarrow> state \<Rightarrow> state option" where
  "copyComponents fuel sourceRoot docsDir srcDir s =
     (let docsComponents = joinPath (joinPath docsDir ''pages'') ''components'';
          srcComponents = joinPath srcDir ''components'';
          f1 = snd (mkdirAll docsComponents (files s));
          f2 = snd (mkdirAll srcComponents f1)
      in case copyFiles fuel
                (joinPath (joinPath (joinPath sourceRoot ''docs'') ''pages'') ''components'')
                docsComponents f2 of
           None \<Rightarrow> None
         | Some (r1, f3) \<Rightarrow>
             (case copyFiles fuel
                     (joinPath (joinPath (joinPath sourceRoot ''xmlui'') ''src'') ''components'')
                     srcComponents f3 of
                None \<Rightarrow> None
              | Some (r2, f4) \<Rightarrow>
                  Some (println (checkMark @ '' Extracted components'') (s\<lparr>files := f4\<rparr>))))"

text \<open>Step 2 up to, and without, the removal of the staging directory.\<close>

definition step2Body :: "nat \<Rightarrow> world \<Rightarrow> state \<Rightarrow> (state + state) option" where
  "step2Body fuel w s =
     (let installDir = cwd w;
          s0 = println ''Step 2/5: Downloading XMLUI components...'' s
      in case downloadWithProgress w xmluiRepoZip ''XMLUI repo'' s0 of
           (s1, Inl e) \<Rightarrow> Some (Inl (failWith ''Failed to download XMLUI source:'' e s1))
         | (s1, Inr xmluiZip) \<Rightarrow>
             let tmpDir = tmpDirOf installDir;
                 f1 = snd (mkdirAll tmpDir (files s1))
             in case unzipTo w xmluiZip tmpDir f1 of
                  (Some e, f2) \<Rightarrow>
                    Some (Inl (failWith ''Failed to extract XMLUI source:'' e (s1\<lparr>files := f2\<rparr>)))
                | (None, f2) \<Rightarrow>
                    let entries = (case readDir tmpDir f2 of Inl e \<Rightarrow> [] | Inr es \<Rightarrow> es);
                        sourceRoot = findSourceRoot tmpDir entries;
                        mcpDir = mcpDirOf installDir;
                        f3 = snd (mkdirAll mcpDir f2);
                        docsDir = docsDirOf installDir;
                        srcDir = srcDirOf installDir;
                        f4 = snd (mkdirAll docsDir f3);
                        f5 = snd (mkdirAll srcDir f4);
                        s2 = s1\<lparr>files := f5\<rparr>
                    in case sourceRoot of
                         None \<Rightarrow> Some (Inr s2)
                       | Some root \<Rightarrow>
                           (case copyComponents fuel root docsDir srcDir s2 of
                              None \<Rightarrow> None
                            | Some s3 \<Rightarrow> Some (Inr s3)))"

text \<open>\<^verbatim>\<open>_ = os.RemoveAll(dir)\<close>\<close>

definition cleanUp :: "path \<Rightarrow> state \<Rightarrow> state" where
  "cleanUp dir s = s\<lparr>files := snd (removeAll dir (files s))\<rparr>"

definition step2 :: "nat \<Rightarrow> world \<Rightarrow> state \<Rightarrow> (state + state) option" where
  "step2 fuel w s =
     (case step2Body fuel w s of
        None \<Rightarrow> None
      | Some (Inl s') \<Rightarrow> Some (Inl s')
      | Some (Inr s') \<Rightarrow> Some (Inr (cleanUp (tmpDirOf (cwd w)) s')))"

definition expectedFiles :: "string \<Rightarrow> string list" where
  "expectedFiles os =
     (if os = ''windows'' then [''xmlui-mcp.exe'', ''xmlui-mcp-client.exe'', ''run-mcp-client.bat'']
      else [''xmlui-mcp'', ''xmlui-mcp-client'', ''prepare-binaries.sh'', ''run-mcp-client.sh''])"

text \<open>
  One pass of the loop over \<^verbatim>\<open>expectedFiles\<close>, and the loop. \<open>chmodWanted\<close> is the
  condition under which the moved file is made executable; \<open>skipMessage\<close> and
  \<open>movedMessage\<close> are what the two \<^verbatim>\<open>Printf\<close> calls print.
\<close>

definition chmodWanted :: "string \<Rightarrow> string \<Rightarrow> bool" where
  "chmodWanted os name =
     (os \<noteq> ''windows'' \<and> (hasSuffix name ''.sh'' \<or> \<not> containsStr name ''.''))"

definition skipMessage :: "string \<Rightarrow> error \<Rightarrow> string" where
  "skipMessage name err = ''  Skipping '' @ name @ '' (not found?): '' @ errorString err @ nl"

definition movedMessage :: "string \<Rightarrow> path \<Rightarrow> string" where
  "movedMessage name dst = ''  Moved '' @ name @ '' to '' @ render dst @ nl"

definition relocateFile :: "string \<Rightarrow> path \<Rightarrow> path \<Rightarrow> string \<Rightarrow> state \<Rightarrow> state" where
  "relocateFile os tmpMCP mcpDir name s =
     (let src = joinPath tmpMCP name;
          dst = joinPath mcpDir name
      in case rename src dst (files s) of
           (Some err, f) \<Rightarrow> printf (skipMessage name err) (s\<lparr>files := f\<rparr>)
         | (None, f) \<Rightarrow>
             let s1 = printf (movedMessage name dst) (s\<lparr>files := f\<rparr>)
             in if chmodWanted os name
                then s1\<lparr>files := snd (chmodExec dst (files s1))\<rparr> else s1)"

fun relocate :: "string \<Rightarrow> path \<Rightarrow> path \<Rightarrow> string list \<Rightarrow> state \<Rightarrow> state" where
  "relocate os tmpMCP mcpDir [] s = s"
| "relocate os tmpMCP mcpDir (name # names) s =
     relocate os tmpMCP mcpDir names (relocateFile os tmpMCP mcpDir name s)"

text \<open>Step 3 up to, and without, the removal of the staging directory.\<close>

definition step3Body :: "world \<Rightarrow> state \<Rightarrow> state + state" where
  "step3Body w s =
     (let installDir = cwd w;
          s0 = println ''Step 3/5: Downloading MCP tools...'' s;
          mcpUrl = getPlatformSpecificMCPURL (GOOS w) (GOARCH w)
      in case downloadWithProgress w mcpUrl ''MCP tools'' s0 of
           (s1, Inl e) \<Rightarrow> Inl (failWith ''Failed to download MCP tools:'' e s1)
         | (s1, Inr mcpArchive) \<Rightarrow>
             let tmpMCP = tmpMCPOf installDir;
                 f1 = snd (mkdirAll tmpMCP (files s1))
             in case extractByURL w mcpUrl mcpArchive tmpMCP f1 of
                  (Some e, f2) \<Rightarrow> Inl (failWith ''Failed to extract MCP tools:'' e (s1\<lparr>files := f2\<rparr>))
                | (None, f2) \<Rightarrow>
                    Inr (relocate (GOOS w) tmpMCP (mcpDirOf installDir) (expectedFiles (GOOS w))
                           (s1\<lparr>files := f2\<rparr>)))"

definition step3 :: "world \<Rightarrow> state \<Rightarrow> state + state" where
  "step3 w s =
     (case step3Body w s of
        Inl s' \<Rightarrow> Inl s'
      | Inr s' \<Rightarrow> Inr (cleanUp (tmpMCPOf (cwd w)) s'))"

text \<open>
  Moving a root-level \<^verbatim>\<open>docs\<close> or \<^verbatim>\<open>src\<close> under \<^verbatim>\<open>mcp\<close>: one of the two
  \<^verbatim>\<open>if _, err := os.Stat(...); err == nil\<close> blocks, and both.
\<close>

definition moveStrayDir :: "path \<Rightarrow> string \<Rightarrow> path \<Rightarrow> state \<Rightarrow> state" where
  "moveStrayDir installDir name target s =
     (if statErr (files s) (joinPath installDir name) = None then
        (case rename (joinPath installDir name) target (files s) of
           (Some err, f) \<Rightarrow>
             printf (''Warning: Could not move '' @ name @ '' directory: '' @ errorString err @ nl)
               (s\<lparr>files := f\<rparr>)
         | (None, f) \<Rightarrow> s\<lparr>files := f\<rparr>)
      else s)"

definition moveStray :: "path \<Rightarrow> state \<Rightarrow> state" where
  "moveStray installDir s =
     moveStrayDir installDir ''src'' (srcDirOf installDir)
       (moveStrayDir installDir ''docs'' (docsDirOf installDir) s)"

definition step4 :: "world \<Rightarrow> path \<Rightarrow> state \<Rightarrow> state + state" where
  "step4 w appDir s =
     (let s0 = println ''Step 4/5: Downloading XMLUI test server...'' s;
          serverURL = getPlatformSpecificServerURL (GOOS w) (GOARCH w)
      in case downloadWithProgress w serverURL ''test server'' s0 of
           (s1, Inl e) \<Rightarrow> Inl (failWith ''Failed to download server:'' e s1)
         | (s1, Inr serverArchive) \<Rightarrow>
             (case extractByURL w serverURL serverArchive appDir (files s1) of
                (Some e, f) \<Rightarrow> Inl (failWith ''Failed to extract server:'' e (s1\<lparr>files := f\<rparr>))
              | (None, f) \<Rightarrow>
                  let startScriptPath = joinPath appDir ''start.sh''
                  in Inr (s1\<lparr>files := (if GOOS w \<noteq> ''windows''
                                         then snd (chmodExec startScriptPath f) else f)\<rparr>)))"

text \<open>\<^verbatim>\<open>filepath.Base\<close> of a string, for \<^verbatim>\<open>os.Args[0]\<close>.\<close>

definition baseName :: "string \<Rightarrow> string" where
  "baseName s =
     (if s = [] then ''.''
      else let t = rev (dropWhile (\<lambda>c. c = CHR ''/'') (rev s))
           in if t = [] then ''/'' else rev (takeWhile (\<lambda>c. c \<noteq> CHR ''/'') (rev t)))"

definition quoted :: "string \<Rightarrow> string" where
  "quoted s = [CHR 0x22] @ s @ [CHR 0x22]"

definition crlf :: string where
  "crlf = [CHR 0x0D, CHR 0x0A]"

definition writeCleanupScript :: "world \<Rightarrow> state \<Rightarrow> state" where
  "writeCleanupScript w s =
     (let installDir = cwd w; exe = baseName (arg0 w)
      in if GOOS w = ''windows'' then
           (let cleanupScript =
                  ''@echo off'' @ crlf @
                  ''echo Cleaning up temporary files...'' @ crlf @
                  ''if exist '' @ quoted exe @ '' del '' @ quoted exe @ crlf @
                  ''if exist *.zip del *.zip'' @ crlf @
                  ''del cleanup.bat'' @ crlf;
                f = snd (writeFile (joinPath installDir ''cleanup.bat'') cleanupScript True (files s))
            in println ''Note: Run cleanup.bat to remove the bundler executable and temporary files''
                 (s\<lparr>files := f\<rparr>))
         else
           (let cleanupScript =
                  ''#!/bin/sh'' @ nl @
                  ''echo Cleaning up temporary files...'' @ nl @
                  ''rm -f '' @ quoted exe @ nl @
                  ''rm -f *.zip'' @ nl @
                  ''rm -f *.tar.gz'' @ nl @
                  ''rm -f cleanup.sh'' @ nl;
                f1 = snd (writeFile (joinPath installDir ''cleanup.sh'') cleanupScript True (files s));
                f2 = snd (chmodExec (joinPath installDir ''cleanup.sh'') f1)
            in println ''Note: Run ./cleanup.sh to remove the bundler executable and temporary files''
                 (s\<lparr>files := f2\<rparr>)))"

definition finish :: "world \<Rightarrow> state \<Rightarrow> state" where
  "finish w s =
     printf (nl @ ''Install location: '' @ render (cwd w) @ nl)
       (println (checkMark @ '' Organized layout complete'') (writeCleanupScript w s))"

text \<open>
  The whole run: the final state and the exit status, or \<open>None\<close> when the depth bound
  of \<open>copyFiles\<close> was reached.
\<close>

definition main :: "nat \<Rightarrow> world \<Rightarrow> state \<Rightarrow> (state \<times> nat) option" where
  "main fuel w s =
     (let installDir = cwd w;
          s0 = s\<lparr>files := snd (mkdirAll installDir (files s))\<rparr>
      in case step1 w s0 of
           Inl s' \<Rightarrow> Some (s', 1)
         | Inr (appDir, s1) \<Rightarrow>
             (case step2 fuel w s1 of
                None \<Rightarrow> None
              | Some (Inl s') \<Rightarrow> Some (s', 1)
              | Some (Inr s2) \<Rightarrow>
                  (case step3 w s2 of
                     Inl s' \<Rightarrow> Some (s', 1)
                   | Inr s3 \<Rightarrow>
                       (case step4 w appDir (moveStray installDir s3) of
                          Inl s' \<Rightarrow> Some (s', 1)
                        | Inr s4 \<Rightarrow> Some (finish w s4, 0)))))"


section \<open>Inputs for the examples\<close>

text \<open>
  A world for the worked examples: a linux/amd64 machine, started in \<^verbatim>\<open>/w\<close> as
  \<^verbatim>\<open>./xmlui-bundler\<close> with no token, whose every request is answered with the given
  status and the two bytes \<^verbatim>\<open>PK\<close>, in which every zip archive holds the given entries
  and every tar archive is empty.
\<close>

definition sampleWorld :: "nat \<Rightarrow> string \<Rightarrow> zipFile list \<Rightarrow> world" where
  "sampleWorld code st zs =
     \<lparr>GOOS = ''linux'', GOARCH = ''amd64'', cwd = [''w''], arg0 = ''./xmlui-bundler'',
      githubToken = [], httpNewRequest = (\<lambda>u. None),
      httpDo = (\<lambda>u a. Inr \<lparr>statusCode = code, status = st, body = Inr ''PK''\<rparr>),
      zipNewReader = (\<lambda>d. Inr zs), gzipTarReader = (\<lambda>d. Inr ([], None))\<rparr>"


text \<open>
  Two archives and a starting state for the examples: a tool archive with one expected
  file and one other file; the top of a component library archive; and an install
  directory \<^verbatim>\<open>/w\<close> that holds a directory \<^verbatim>\<open>mcp\<close> and a file \<^verbatim>\<open>notes.txt\<close>.
\<close>
definition sampleToolZip :: "zipFile list" where
  "sampleToolZip =
     [ZipFile ''xmlui-mcp'' False (Inr (''ELF'', None)),
      ZipFile ''README.md'' False (Inr (''hi'', None))]"

definition sampleLibraryZip :: "zipFile list" where
  "sampleLibraryZip =
     [ZipFile ''xmlui-main/'' True (Inr ([], None)),
      ZipFile ''xmlui-main/docs/pages/components/Button.md'' False (Inr (''# Button'', None))]"

definition sampleState :: state where
  "sampleState =
     \<lparr>files = [([''w''], Dir), ([''w'', ''mcp''], Dir), ([''w'', ''notes.txt''], File ''n'' False)],
      stdout = []\<rparr>"


text \<open>
  Three install directories \<^verbatim>\<open>/w\<close> as step 1 may find them after extracting the
  application archive: a fresh one; one in which an earlier run has left the application
  directory \<^verbatim>\<open>xmlui-invoice\<close>; and one that also holds a plain file whose name starts
  with \<^verbatim>\<open>xmlui-invoice-\<close>.
\<close>

definition freshInstallDir :: fs where
  "freshInstallDir =
     [([''w''], Dir),
      ([''w'', ''xmlui-invoice-main''], Dir),
      ([''w'', ''xmlui-invoice-main'', ''Main.xmlui''], File ''<App/>'' False)]"

definition secondRunInstallDir :: fs where
  "secondRunInstallDir =
     [([''w''], Dir),
      ([''w'', ''xmlui-invoice''], Dir),
      ([''w'', ''xmlui-invoice'', ''Main.xmlui''], File ''<Old/>'' False),
      ([''w'', ''xmlui-invoice-main''], Dir),
      ([''w'', ''xmlui-invoice-main'', ''Main.xmlui''], File ''<App/>'' False)]"

definition twoMatchesInstallDir :: fs where
  "twoMatchesInstallDir =
     [([''w''], Dir),
      ([''w'', ''xmlui-invoice-main''], Dir),
      ([''w'', ''xmlui-invoice-main'', ''Main.xmlui''], File ''<App/>'' False),
      ([''w'', ''xmlui-invoice-backup''], File ''tar'' False)]"


text \<open>
  Two states as the relocation loop of step 3 may find them on linux: one where the
  staged \<^verbatim>\<open>xmlui-mcp\<close> meets a directory of that name under \<^verbatim>\<open>mcp\<close>, and one where
  two of the four expected files were in the archive.
\<close>

definition blockedToolState :: state where
  "blockedToolState =
     \<lparr>files = [([''w''], Dir), ([''w'', ''mcp''], Dir), ([''w'', ''mcp'', ''xmlui-mcp''], Dir),
               ([''w'', ''mcpTmp''], Dir), ([''w'', ''mcpTmp'', ''xmlui-mcp''], File ''ELF'' False)],
      stdout = []\<rparr>"

definition partialToolState :: state where
  "partialToolState =
     \<lparr>files = [([''w''], Dir), ([''w'', ''mcp''], Dir),
               ([''w'', ''mcpTmp''], Dir), ([''w'', ''mcpTmp'', ''xmlui-mcp''], File ''ELF'' False),
               ([''w'', ''mcpTmp'', ''run-mcp-client.sh''], File ''#!/bin/sh'' False)],
      stdout = []\<rparr>"



text \<open>
  For the extractor: a world whose tar archives hold the given stream, a server archive
  with a binary, a script and a text file, a zip archive with one script, and a
  directory \<^verbatim>\<open>/w/app\<close> to extract into.
\<close>

definition sampleTarWorld :: "tarEntry list \<Rightarrow> error option \<Rightarrow> world" where
  "sampleTarWorld ts fin = (sampleWorld 200 ''200 OK'' [])\<lparr>gzipTarReader := (\<lambda>d. Inr (ts, fin))\<rparr>"

definition sampleServerTar :: "tarEntry list" where
  "sampleServerTar =
     [TarEntry ''bin/'' True [] None,
      TarEntry ''bin/xmlui-test-server'' False ''ELF'' None,
      TarEntry ''start.sh'' False ''#!/bin/sh'' None,
      TarEntry ''README.md'' False ''hi'' None]"

definition sampleScriptZip :: "zipFile list" where
  "sampleScriptZip = [ZipFile ''start.sh'' False (Inr (''#!/bin/sh'', None))]"

definition sampleAppDir :: fs where
  "sampleAppDir = [([''w''], Dir), ([''w'', ''app''], Dir)]"




text \<open>
  For failing extractions: a world whose archive readers reject every archive, and a
  directory \<^verbatim>\<open>/w/app\<close> in which the name \<^verbatim>\<open>data\<close> is taken by a file.
\<close>

definition brokenArchiveWorld :: world where
  "brokenArchiveWorld =
     (sampleWorld 200 ''200 OK'' [])
       \<lparr>zipNewReader := (\<lambda>d. Inl (LibError ''zip: not a valid zip file'')),
        gzipTarReader := (\<lambda>d. Inl (LibError ''gzip: invalid header''))\<rparr>"

definition occupiedAppDir :: fs where
  "occupiedAppDir =
     [([''w''], Dir), ([''w'', ''app''], Dir), ([''w'', ''app'', ''data''], File ''x'' False)]"


text \<open>
  An install directory that holds a \<^verbatim>\<open>docs\<close> and a \<^verbatim>\<open>src\<close> directory of its own.
\<close>

definition strayDocsInstallDir :: fs where
  "strayDocsInstallDir =
     [([''w''], Dir),
      ([''w'', ''docs''], Dir), ([''w'', ''docs'', ''guide.md''], File ''# Guide'' False),
      ([''w'', ''src''], Dir), ([''w'', ''src'', ''Button.tsx''], File ''export'' False)]"


text \<open>
  An install directory of a second run that also holds a plain file whose name starts
  with \<^verbatim>\<open>xmlui-invoice-\<close>.
\<close>

definition twoMatchesSecondRunDir :: fs where
  "twoMatchesSecondRunDir =
     [([''w''], Dir),
      ([''w'', ''xmlui-invoice''], Dir),
      ([''w'', ''xmlui-invoice'', ''Main.xmlui''], File ''<Old/>'' False),
      ([''w'', ''xmlui-invoice-main''], Dir),
      ([''w'', ''xmlui-invoice-main'', ''Main.xmlui''], File ''<App/>'' False),
      ([''w'', ''xmlui-invoice-backup''], File ''tar'' False)]"

section \<open>Facts about the file system operations\<close>

lemma map_of_filter_neq:
  "map_of (filter (\<lambda>e. fst e \<noteq> p) f) q = (if q = p then None else map_of f q)"
  by (induction f) auto

lemma map_of_filter_not_prefix:
  "map_of (filter (\<lambda>e. \<not> prefix p (fst e)) f) q = (if prefix p q then None else map_of f q)"
  by (induction f) auto

lemma map_of_new_dirs:
  "map_of (map (\<lambda>q. (q, Dir)) qs @ f) q = (if q \<in> set qs then Some Dir else map_of f q)"
  by (induction qs) auto

lemma nodeAt_root [simp]: "nodeAt f [] = Some Dir"
  by (simp add: nodeAt_def)

lemma nodeAt_put:
  "nodeAt (put p n f) q = (if q = [] then Some Dir else if q = p then Some n else nodeAt f q)"
  by (simp add: nodeAt_def put_def map_of_filter_neq)

lemma find_None_iff_set:
  "find P xs = None \<longleftrightarrow> (\<forall>x \<in> set xs. \<not> P x)"
  by (induction xs) auto

lemma find_SomeD:
  "find P xs = Some x \<Longrightarrow> P x \<and> x \<in> set xs"
  by (induction xs) (auto split: if_splits)

lemma mkdirAll_ok_iff:
  "fst (mkdirAll p f) = None \<longleftrightarrow> (\<forall>q. prefix q p \<longrightarrow> \<not> isFile f q)"
proof (cases "find (isFile f) (prefixes p)")
  case None
  then have "fst (mkdirAll p f) = None"
    by (simp add: mkdirAll_def)
  moreover from None have "\<forall>q. prefix q p \<longrightarrow> \<not> isFile f q"
    by (simp add: find_None_iff_set)
  ultimately show ?thesis by simp
next
  case (Some q)
  then have "isFile f q \<and> prefix q p"
    using find_SomeD [of "isFile f" "prefixes p" q] by simp
  with Some show ?thesis by (auto simp: mkdirAll_def)
qed

lemma nodeAt_mkdirAll:
  "nodeAt (snd (mkdirAll p f)) q =
     (if fst (mkdirAll p f) = None \<and> prefix q p \<and> nodeAt f q = None then Some Dir else nodeAt f q)"
proof (cases "find (isFile f) (prefixes p)")
  case None
  then have "snd (mkdirAll p f) =
      map (\<lambda>q. (q, Dir)) (filter (\<lambda>q. nodeAt f q = None) (prefixes p)) @ f"
    and "fst (mkdirAll p f) = None"
    by (simp_all add: mkdirAll_def)
  then show ?thesis
    by (simp only: nodeAt_def map_of_new_dirs) auto
next
  case (Some q)
  then show ?thesis by (simp add: mkdirAll_def)
qed

lemma createFile_ok_iff:
  "fst (createFile p f) = None \<longleftrightarrow> parentErr f p = None \<and> \<not> isDir f p"
  by (auto simp: createFile_def isDir_def split: option.splits node.splits)

lemma nodeAt_createFile:
  "nodeAt (snd (createFile p f)) q =
     (if q = p \<and> fst (createFile p f) = None then Some (File [] (isExec f p)) else nodeAt f q)"
  by (auto simp: createFile_def nodeAt_put isExec_def split: option.splits node.splits)

lemma nodeAt_writeTo:
  "nodeAt (writeTo p d f) q =
     (if q = p then (case nodeAt f p of Some (File c x) \<Rightarrow> Some (File (c @ d) x) | n \<Rightarrow> n)
      else nodeAt f q)"
  by (auto simp: writeTo_def nodeAt_put split: option.splits node.splits)

lemma nodeAt_chmodExec:
  "nodeAt (snd (chmodExec p f)) q =
     (if q = p \<and> statErr f p = None
      then (case nodeAt f p of Some (File c x) \<Rightarrow> Some (File c True) | n \<Rightarrow> n)
      else nodeAt f q)"
  by (auto simp: chmodExec_def nodeAt_put split: option.splits node.splits)

lemma nodeAt_removeAll:
  "nodeAt (snd (removeAll p f)) q = (if q \<noteq> [] \<and> prefix p q then None else nodeAt f q)"
  by (simp add: removeAll_def nodeAt_def map_of_filter_not_prefix)


lemma map_of_map_key:
  "inj_on g (insert k (fst ` set xs)) \<Longrightarrow>
     map_of (map (\<lambda>e. (g (fst e), snd e)) xs) (g k) = map_of xs k"
proof (induction xs)
  case Nil
  then show ?case by simp
next
  case (Cons e xs)
  from Cons.prems have inj: "inj_on g (insert k (fst ` set xs))"
    by (auto simp: inj_on_def)
  from Cons.prems have "g (fst e) = g k \<longleftrightarrow> fst e = k"
    by (auto simp: inj_on_def)
  with Cons.IH [OF inj] show ?case
    by (cases e) auto
qed

lemma map_of_map_key_out:
  "q \<notin> g ` fst ` set xs \<Longrightarrow> map_of (map (\<lambda>e. (g (fst e), snd e)) xs) q = None"
  by (induction xs) auto


lemma rekey_inj:
  assumes "\<not> prefix new k1" "\<not> prefix new k2" "rekey old new k1 = rekey old new k2"
  shows "k1 = k2"
proof (cases "prefix old k1")
  case True
  then obtain r1 where r1: "k1 = old @ r1" by (auto simp: prefix_def)
  show ?thesis
  proof (cases "prefix old k2")
    case True
    then obtain r2 where "k2 = old @ r2" by (auto simp: prefix_def)
    with r1 assms(3) show ?thesis by (simp add: rekey_def)
  next
    case False
    with r1 assms(3) have "k2 = new @ r1" by (simp add: rekey_def)
    with assms(2) show ?thesis by simp
  qed
next
  case False
  show ?thesis
  proof (cases "prefix old k2")
    case True
    then obtain r2 where "k2 = old @ r2" by (auto simp: prefix_def)
    with False assms(3) have "k1 = new @ r2" by (simp add: rekey_def)
    with assms(1) show ?thesis by simp
  next
    case F2: False
    with False assms(3) show ?thesis by (simp add: rekey_def)
  qed
qed

lemma map_of_moveTree:
  assumes on: "\<not> prefix old new" and no: "\<not> prefix new old"
  shows "map_of (moveTree old new f) q =
     (if prefix new q then map_of f (old @ drop (length new) q)
      else if prefix old q then None else map_of f q)"
proof -
  let ?xs = "filter (\<lambda>e. \<not> prefix new (fst e)) f"
  have mt: "moveTree old new f = map (\<lambda>e. (rekey old new (fst e), snd e)) ?xs"
    by (simp add: moveTree_def)
  have keys: "\<And>k. k \<in> fst ` set ?xs \<Longrightarrow> \<not> prefix new k"
    by auto
  have inj: "\<And>k. \<not> prefix new k \<Longrightarrow> inj_on (rekey old new) (insert k (fst ` set ?xs))"
    unfolding inj_on_def using keys rekey_inj by blast
  consider (a) "prefix new q" | (b) "\<not> prefix new q" "prefix old q"
    | (c) "\<not> prefix new q" "\<not> prefix old q" by blast
  then show ?thesis
  proof cases
    case a
    then obtain r where r: "q = new @ r" by (auto simp: prefix_def)
    have nk: "\<not> prefix new (old @ r)"
      using on no by (metis prefix_append prefix_same_cases prefixI)
    have "rekey old new (old @ r) = q"
      by (simp add: rekey_def r)
    with map_of_map_key [OF inj [OF nk]] have "map_of (moveTree old new f) q = map_of ?xs (old @ r)"
      by (simp add: mt)
    with nk a r show ?thesis
      by (simp add: map_of_filter_not_prefix)
  next
    case b
    have "q \<notin> rekey old new ` fst ` set ?xs"
    proof
      assume "q \<in> rekey old new ` fst ` set ?xs"
      then obtain k where k: "k \<in> fst ` set ?xs" "q = rekey old new k" by blast
      with keys have "\<not> prefix new k" by blast
      with k b show False
        by (cases "prefix old k") (auto simp: rekey_def)
    qed
    with b show ?thesis
      by (simp add: mt map_of_map_key_out)
  next
    case c
    then have "rekey old new q = q" by (simp add: rekey_def)
    with map_of_map_key [OF inj [OF c(1)]] have "map_of (moveTree old new f) q = map_of ?xs q"
      by (simp add: mt)
    with c show ?thesis
      by (simp add: map_of_filter_not_prefix)
  qed
qed


lemma joinPath_simple [simp]:
  "joinPath d ''xmlui-source'' = d @ [''xmlui-source'']"
  "joinPath d ''mcpTmp'' = d @ [''mcpTmp'']"
  "joinPath d ''mcp'' = d @ [''mcp'']"
  "joinPath d ''docs'' = d @ [''docs'']"
  "joinPath d ''src'' = d @ [''src'']"
  by (simp_all add: joinPath_def cleanStep_def)

lemma cleanUp_effect:
  assumes "dir \<noteq> []"
  shows "stdout (cleanUp dir s) = stdout s \<and>
         (\<forall>q. prefix dir q \<longrightarrow> nodeAt (files (cleanUp dir s)) q = None) \<and>
         (\<forall>q. \<not> prefix dir q \<longrightarrow> nodeAt (files (cleanUp dir s)) q = nodeAt (files s) q)"
  using assms by (auto simp: cleanUp_def nodeAt_removeAll)


lemma splitSlash_no_slash:
  "CHR ''/'' \<notin> set n \<Longrightarrow> splitSlash acc n = [acc @ n]"
  by (induction n arbitrary: acc) auto

lemma joinPath_validName:
  "validName n \<Longrightarrow> joinPath d n = d @ [n]"
  by (simp add: joinPath_def validName_def splitSlash_no_slash cleanStep_def)

lemma rename_error_unchanged:
  "fst (rename old new f) \<noteq> None \<Longrightarrow> snd (rename old new f) = f"
  by (auto simp: rename_def split: option.splits if_splits)

lemma rename_ok_moveTree:
  "fst (rename old new f) = None \<Longrightarrow> old \<noteq> new \<Longrightarrow> snd (rename old new f) = moveTree old new f"
  by (auto simp: rename_def split: option.splits if_splits)

lemma nodeAt_moveTree:
  assumes "\<not> prefix old new" "\<not> prefix new old"
  shows "nodeAt (moveTree old new f) q =
     (if prefix new q then nodeAt f (old @ drop (length new) q)
      else if prefix old q then None else nodeAt f q)"
proof -
  from assms have "old \<noteq> []" "new \<noteq> []" by auto
  then show ?thesis
    using map_of_moveTree [OF assms, of f q]
    by (auto simp: nodeAt_def)
qed

lemma rename_missing_fails:
  "statErr f old \<noteq> None \<Longrightarrow> fst (rename old new f) \<noteq> None"
  by (auto simp: rename_def split: option.splits)

lemma rename_onto_directory_fails:
  "statErr f new = None \<Longrightarrow> isDir f new \<Longrightarrow> fst (rename old new f) \<noteq> None"
  by (auto simp: rename_def split: option.splits)

lemma rename_to_absent_ok:
  assumes "statErr f old = None" "parentErr f new = None" "nodeAt f new = None"
    "\<not> prefix old new"
  shows "fst (rename old new f) = None"
  using assms
  by (auto simp: rename_def statErr_def isDir_def isFile_def split: option.splits)

lemma childNames_iff:
  "n \<in> set (childNames f d) \<longleftrightarrow> map_of f (d @ [n]) \<noteq> None"
proof -
  have k: "\<And>k. k \<noteq> [] \<and> butlast k = d \<and> last k = n \<longleftrightarrow> k = d @ [n]"
    by (metis append_butlast_last_id butlast_snoc last_snoc snoc_eq_iff_butlast)
  have "n \<in> set (childNames f d) \<longleftrightarrow>
      (\<exists>e \<in> set f. fst e \<noteq> [] \<and> butlast (fst e) = d \<and> last (fst e) = n)"
    by (auto simp: childNames_def)
  also have "\<dots> \<longleftrightarrow> (\<exists>e \<in> set f. fst e = d @ [n])"
    using k by simp
  also have "\<dots> \<longleftrightarrow> d @ [n] \<in> fst ` set f"
    by force
  also have "\<dots> \<longleftrightarrow> map_of f (d @ [n]) \<noteq> None"
    by (simp add: map_of_eq_None_iff)
  finally show ?thesis .
qed

lemma childNames_distinct: "distinct (childNames f d)"
  by (simp add: childNames_def)

lemma childNames_valid:
  "wfNames f \<Longrightarrow> n \<in> set (childNames f d) \<Longrightarrow> validName n"
proof -
  assume wf: "wfNames f" and n: "n \<in> set (childNames f d)"
  from n have "d @ [n] \<in> fst ` set f"
    by (simp add: childNames_iff map_of_eq_None_iff)
  then obtain e where "e \<in> set f" "fst e = d @ [n]" by auto
  with wf show ?thesis
    by (auto simp: wfNames_def list_all_iff)
qed

lemma readDir_Inr:
  "readDir d f = Inr es \<Longrightarrow>
     isDir f d \<and> es = map (\<lambda>n. (n, isDir f (d @ [n]))) (childNames f d)"
  by (auto simp: readDir_def split: option.splits if_splits)

lemma readDir_entry:
  assumes "readDir d f = Inr es" "e \<in> set es"
  shows "fst e \<in> set (childNames f d)" "nodeAt f (d @ [fst e]) \<noteq> None" "statErr f (d @ [fst e]) = None"
proof -
  from readDir_Inr [OF assms(1)] have dir: "isDir f d"
    and es: "es = map (\<lambda>n. (n, isDir f (d @ [n]))) (childNames f d)" by simp_all
  from es assms(2) show n: "fst e \<in> set (childNames f d)" by auto
  then show x: "nodeAt f (d @ [fst e]) \<noteq> None"
    by (simp add: childNames_iff nodeAt_def)
  with dir show "statErr f (d @ [fst e]) = None"
    by (simp add: statErr_def parentErr_def)
qed

lemma moveLoop_find:
  "moveLoop sp repo d es f =
     (case find (\<lambda>e. hasPrefix (fst e) (repo @ ''-'')) es of
        None \<Rightarrow> (f, Inl RepoDirNotFound)
      | Some e \<Rightarrow>
          (case rename (joinPath sp (fst e)) (joinPath d repo) f of
             (Some err, f') \<Rightarrow> (f', Inl err)
           | (None, f') \<Rightarrow> (f', Inr (joinPath d repo))))"
  by (induction es) (simp_all add: Let_def)


text \<open>What the error of a rename depends on.\<close>

lemma isFile_cong: "nodeAt f p = nodeAt g p \<Longrightarrow> isFile f p = isFile g p"
  by (simp add: isFile_def)

lemma parentErr_cong:
  assumes "\<forall>p. prefix p q \<longrightarrow> nodeAt f p = nodeAt g p"
  shows "parentErr f q = parentErr g q"
proof -
  have "prefix (butlast q) q" by (simp add: prefixeq_butlast)
  with assms have b: "nodeAt f (butlast q) = nodeAt g (butlast q)" by simp
  have "\<And>p. prefix p (butlast q) \<Longrightarrow> nodeAt f p = nodeAt g p"
    using assms by (meson prefix_order.trans prefixeq_butlast)
  then have "\<And>p. prefix p (butlast q) \<Longrightarrow> isFile f p = isFile g p"
    by (simp add: isFile_def)
  then have "list_ex (isFile f) (prefixes (butlast q)) = list_ex (isFile g) (prefixes (butlast q))"
    by (simp add: list_ex_iff)
  with b show ?thesis by (simp add: parentErr_def isDir_def)
qed

lemma statErr_cong:
  assumes "\<forall>p. prefix p q \<longrightarrow> nodeAt f p = nodeAt g p"
  shows "statErr f q = statErr g q"
proof -
  from assms have "nodeAt f q = nodeAt g q" by simp
  with parentErr_cong [OF assms] show ?thesis by (auto simp: statErr_def)
qed

lemma rename_error_cong:
  assumes "\<forall>p. prefix p old \<or> prefix p new \<longrightarrow> nodeAt f p = nodeAt g p"
  shows "fst (rename old new f) = fst (rename old new g)"
proof -
  from assms have o: "\<forall>p. prefix p old \<longrightarrow> nodeAt f p = nodeAt g p"
    and n: "\<forall>p. prefix p new \<longrightarrow> nodeAt f p = nodeAt g p" by simp_all
  from o n have "nodeAt f old = nodeAt g old" "nodeAt f new = nodeAt g new" by simp_all
  then have "isDir f old = isDir g old" "isDir f new = isDir g new" "isFile f new = isFile g new"
    by (simp_all add: isDir_def isFile_def)
  with statErr_cong [OF o] statErr_cong [OF n] parentErr_cong [OF n] show ?thesis
    by (auto simp: rename_def split: option.splits)
qed


section \<open>Properties of the platform resolver\<close>

lemma hasSuffix_append:
  "length x \<le> length t \<Longrightarrow> hasSuffix (s @ t) x = hasSuffix t x"
  by (simp add: hasSuffix_def)

lemma mcp_asset_suffixes:
  "hasSuffix (mcpBaseURL @ ''xmlui-mcp-mac-arm.tar.gz'') ''.tar.gz''"
  "hasSuffix (mcpBaseURL @ ''xmlui-mcp-mac-amd.tar.gz'') ''.tar.gz''"
  "\<not> hasSuffix (mcpBaseURL @ ''xmlui-mcp-mac-arm.tar.gz'') ''.zip''"
  "\<not> hasSuffix (mcpBaseURL @ ''xmlui-mcp-mac-amd.tar.gz'') ''.zip''"
  "hasSuffix (mcpBaseURL @ ''xmlui-mcp-linux-amd64.zip'') ''.zip''"
  "hasSuffix (mcpBaseURL @ ''xmlui-mcp-windows-amd64.zip'') ''.zip''"
  "\<not> hasSuffix (mcpBaseURL @ ''xmlui-mcp-linux-amd64.zip'') ''.tar.gz''"
  "\<not> hasSuffix (mcpBaseURL @ ''xmlui-mcp-windows-amd64.zip'') ''.tar.gz''"
  by (simp_all add: hasSuffix_append) (simp_all add: hasSuffix_def)

text \<open>
  Claim C1 as stated: the tool-archive resolver returns a \<^verbatim>\<open>.zip\<close> URL exactly when the
  operating system is Windows and a \<^verbatim>\<open>.tar.gz\<close> URL for every other one. The
  \<^verbatim>\<open>case "linux"\<close> branch of \<^verbatim>\<open>getPlatformSpecificMCPURL\<close> returns
  \<^verbatim>\<open>xmlui-mcp-linux-amd64.zip\<close>: on linux the URL ends in \<^verbatim>\<open>.zip\<close>, not in
  \<^verbatim>\<open>.tar.gz\<close>, although the operating system is not Windows.
\<close>

theorem mcp_linux_zip_counterexample:
  "hasSuffix (getPlatformSpecificMCPURL ''linux'' ''amd64'') ''.zip'' \<and>
   \<not> hasSuffix (getPlatformSpecificMCPURL ''linux'' ''amd64'') ''.tar.gz'' \<and>
   ''linux'' \<noteq> ''windows''"
  by (simp add: getPlatformSpecificMCPURL_def mcp_asset_suffixes)

text \<open>
  Claim C1, amended: for every (operating system, architecture) pair the tool-archive
  resolver returns a URL ending in \<^verbatim>\<open>.zip\<close> exactly when the operating system is
  Windows or Linux, and a URL ending in \<^verbatim>\<open>.tar.gz\<close> for every other operating system
  (the orchestrator picks the extractor from that extension); for every operating system
  other than darwin, linux and windows it returns the default URL, the macOS ARM64 asset,
  whatever the architecture.
\<close>

theorem mcp_url_extension:
  "(hasSuffix (getPlatformSpecificMCPURL goos arch) ''.zip'' \<longleftrightarrow>
      goos = ''windows'' \<or> goos = ''linux'') \<and>
   (hasSuffix (getPlatformSpecificMCPURL goos arch) ''.tar.gz'' \<longleftrightarrow>
      \<not> (goos = ''windows'' \<or> goos = ''linux'')) \<and>
   (goos \<noteq> ''darwin'' \<and> goos \<noteq> ''linux'' \<and> goos \<noteq> ''windows'' \<longrightarrow>
      getPlatformSpecificMCPURL goos arch = mcpBaseURL @ ''xmlui-mcp-mac-arm.tar.gz'')"
  by (simp add: getPlatformSpecificMCPURL_def mcp_asset_suffixes)

theorem mcp_url_extension_witness:
  "hasSuffix (getPlatformSpecificMCPURL ''freebsd'' ''riscv64'') ''.tar.gz'' \<and>
   \<not> hasSuffix (getPlatformSpecificMCPURL ''freebsd'' ''riscv64'') ''.zip'' \<and>
   getPlatformSpecificMCPURL ''freebsd'' ''riscv64'' = mcpBaseURL @ ''xmlui-mcp-mac-arm.tar.gz''"
proof -
  have os: "''freebsd'' \<noteq> ''darwin'' \<and> ''freebsd'' \<noteq> ''linux'' \<and> ''freebsd'' \<noteq> ''windows''"
    by simp
  note t = mcp_url_extension [of "''freebsd''" "''riscv64''"]
  have a: "hasSuffix (getPlatformSpecificMCPURL ''freebsd'' ''riscv64'') ''.tar.gz''"
    using t [THEN conjunct2, THEN conjunct1] by simp
  have b: "\<not> hasSuffix (getPlatformSpecificMCPURL ''freebsd'' ''riscv64'') ''.zip''"
    using t [THEN conjunct1] by simp
  have c: "getPlatformSpecificMCPURL ''freebsd'' ''riscv64'' = mcpBaseURL @ ''xmlui-mcp-mac-arm.tar.gz''"
    using t [THEN conjunct2, THEN conjunct2] os by simp
  show ?thesis by (rule conjI [OF a conjI [OF b c]])
qed

text \<open>
  Claim C9: unless the operating system is darwin, both resolvers ignore the CPU
  architecture: for any two architecture values the tool URL is the same and the server
  URL is the same. So linux/arm64 receives the linux amd64 assets.
\<close>

theorem resolvers_ignore_arch:
  "goos \<noteq> ''darwin'' \<Longrightarrow>
     getPlatformSpecificMCPURL goos arch = getPlatformSpecificMCPURL goos arch' \<and>
     getPlatformSpecificServerURL goos arch = getPlatformSpecificServerURL goos arch'"
  by (simp add: getPlatformSpecificMCPURL_def getPlatformSpecificServerURL_def)

theorem resolvers_ignore_arch_witness:
  "''linux'' \<noteq> ''darwin'' \<and>
   getPlatformSpecificMCPURL ''linux'' ''arm64'' = getPlatformSpecificMCPURL ''linux'' ''amd64'' \<and>
   getPlatformSpecificServerURL ''linux'' ''arm64'' = getPlatformSpecificServerURL ''linux'' ''amd64'' \<and>
   getPlatformSpecificMCPURL ''linux'' ''arm64'' = mcpBaseURL @ ''xmlui-mcp-linux-amd64.zip'' \<and>
   getPlatformSpecificServerURL ''linux'' ''arm64'' =
     serverBaseURL @ ''xmlui-test-server-linux-amd64.tar.gz''"
proof -
  have h: "''linux'' \<noteq> ''darwin''" by simp
  from resolvers_ignore_arch [OF h, of "''arm64''" "''amd64''"] h show ?thesis
    by (simp add: getPlatformSpecificMCPURL_def getPlatformSpecificServerURL_def)
qed


section \<open>Properties of the fetcher\<close>

lemma privateRepo_xmluiRepoZip: "containsStr xmluiRepoZip privateRepo"
  by (simp add: xmluiRepoZip_def privateRepo_def hasPrefix_def)

lemma privateRepo_appZipURL: "\<not> containsStr appZipURL privateRepo"
  by (simp add: appZipURL_def repoName_def branchName_def privateRepo_def hasPrefix_def)

lemma hasSuffix_Cons:
  "length x \<le> length t \<Longrightarrow> hasSuffix (c # t) x = hasSuffix t x"
  using hasSuffix_append [of x t "[c]"] by simp

lemma auth_error_names_credential:
  "hasSuffix (errorString (AuthenticationFailed url st)) ''check PAT_TOKEN''"
  by (simp add: hasSuffix_append hasSuffix_Cons) (simp add: hasSuffix_def)

text \<open>
  Claim C5: when the request is sent and answered, a status other than 200 is a failure:
  status 401 on a URL of the private repository gives the authentication error, whose
  message names the credential (\<^verbatim>\<open>check PAT_TOKEN\<close>); every other status other than 200,
  on any URL, gives the generic request-failed error, whose message carries the status and
  the URL; a 200 response returns the bytes read from its body.
\<close>

theorem download_status_handling:
  assumes "httpNewRequest w url = None"
    and "httpDo w url (requestAuth w url) = Inr resp"
  shows "(statusCode resp = 401 \<and> containsStr url privateRepo \<longrightarrow>
            snd (downloadWithProgress w url filename s) =
              Inl (AuthenticationFailed url (status resp))) \<and>
         (statusCode resp \<noteq> 200 \<and> \<not> (statusCode resp = 401 \<and> containsStr url privateRepo) \<longrightarrow>
            snd (downloadWithProgress w url filename s) =
              Inl (RequestFailed (status resp) url)) \<and>
         (statusCode resp = 200 \<longrightarrow>
            (\<forall>data. body resp = Inr data \<longrightarrow>
               snd (downloadWithProgress w url filename s) = Inr data)) \<and>
         hasSuffix (errorString (AuthenticationFailed url (status resp))) ''check PAT_TOKEN'' \<and>
         errorString (RequestFailed (status resp) url) =
           ''request failed: '' @ status resp @ '' for URL: '' @ url"
  using assms
  by (simp add: downloadWithProgress_def Let_def auth_error_names_credential
      del: errorString.simps(4) split: sum.splits)


section \<open>Properties of the archive extractor\<close>

text \<open>The executable bit of a path under the single operations.\<close>

lemma isExec_mkdirAll: "isExec (snd (mkdirAll p f)) q = isExec f q"
  by (auto simp: isExec_def nodeAt_mkdirAll)

lemma isExec_createFile: "isExec (snd (createFile p f)) q = isExec f q"
  by (auto simp: isExec_def nodeAt_createFile split: option.splits node.splits)

lemma isExec_writeTo: "isExec (writeTo p d f) q = isExec f q"
  by (auto simp: isExec_def nodeAt_writeTo split: option.splits node.splits)

lemma isExec_chmodExec_mono: "isExec f q \<Longrightarrow> isExec (snd (chmodExec p f)) q"
  by (auto simp: isExec_def nodeAt_chmodExec split: option.splits node.splits)

lemma isExec_unzipEntry: "isExec (snd (unzipEntry dest z f)) q = isExec f q"
proof -
  let ?p = "joinPath dest (zfName z)"
  let ?f1 = "snd (mkdirAll (pathDir ?p) f)"
  obtain c f2 where cf: "createFile ?p ?f1 = (c, f2)" by (cases "createFile ?p ?f1")
  then have "f2 = snd (createFile ?p ?f1)" by simp
  then have "isExec f2 q = isExec f q"
    by (simp add: isExec_createFile isExec_mkdirAll)
  with cf show ?thesis
    by (cases c) (auto simp: unzipEntry_def Let_def isExec_mkdirAll isExec_writeTo split: sum.splits)
qed

lemma isExec_unzipLoop: "isExec (snd (unzipLoop dest zs f)) q = isExec f q"
proof (induction zs arbitrary: f)
  case Nil
  then show ?case by simp
next
  case (Cons z zs)
  obtain r f1 where e: "unzipEntry dest z f = (r, f1)" by (cases "unzipEntry dest z f")
  with isExec_unzipEntry [of dest z f q] have "isExec f1 q = isExec f q" by simp
  with Cons.IH [of f1] e show ?case by (cases r) simp_all
qed

lemma isExec_unzipTo: "isExec (snd (unzipTo w data dest f)) q = isExec f q"
  by (simp add: unzipTo_def isExec_unzipLoop split: sum.splits)

lemma isExec_untarEntry_mono: "isExec f q \<Longrightarrow> isExec (snd (untarEntry dest t f)) q"
proof -
  assume x: "isExec f q"
  let ?p = "joinPath dest (teName t)"
  let ?f1 = "snd (mkdirAll (pathDir ?p) f)"
  obtain c f2 where cf: "createFile ?p ?f1 = (c, f2)" by (cases "createFile ?p ?f1")
  then have "f2 = snd (createFile ?p ?f1)" by simp
  with x have "isExec f2 q"
    by (simp add: isExec_createFile isExec_mkdirAll)
  with cf x show ?thesis
    by (cases c)
      (auto simp: untarEntry_def Let_def isExec_mkdirAll isExec_writeTo isExec_chmodExec_mono
        split: option.splits)
qed

lemma isExec_untarLoop_mono: "isExec f q \<Longrightarrow> isExec (snd (untarLoop dest ts fin f)) q"
proof (induction ts arbitrary: f)
  case Nil
  then show ?case by simp
next
  case (Cons t ts)
  obtain r f1 where e: "untarEntry dest t f = (r, f1)" by (cases "untarEntry dest t f")
  with isExec_untarEntry_mono [OF Cons.prems, of dest t] have "isExec f1 q" by simp
  with Cons.IH [of f1] e show ?case by (cases r) simp_all
qed

text \<open>A file entry of a tar archive that is extracted and passes the test is executable.\<close>

lemma untarEntry_sets_exec:
  assumes ok: "untarEntry dest t f = (None, f')" and reg: "\<not> teIsDir t"
    and ex: "execName (joinPath dest (teName t))"
  shows "isExec f' (joinPath dest (teName t))"
proof -
  let ?p = "joinPath dest (teName t)"
  let ?f1 = "snd (mkdirAll (pathDir ?p) f)"
  let ?f2 = "snd (createFile ?p ?f1)"
  let ?f3 = "writeTo ?p (teData t) ?f2"
  from ok reg have cr: "fst (createFile ?p ?f1) = None"
    by (auto simp: untarEntry_def Let_def split: prod.splits option.splits)
  from ok reg ex cr have f': "f' = snd (chmodExec ?p ?f3)"
    by (auto simp: untarEntry_def Let_def split: prod.splits option.splits)
  from cr have pe: "parentErr ?f1 ?p = None" and nd: "\<not> isDir ?f1 ?p"
    by (simp_all add: createFile_ok_iff)
  from nd have ne: "?p \<noteq> []" by (auto simp: isDir_def)
  then have bl: "butlast ?p \<noteq> ?p"
    by (metis append_butlast_last_id append_self_conv not_Cons_self2)
  from cr have n2: "nodeAt ?f2 ?p = Some (File [] (isExec ?f1 ?p))"
    by (simp add: nodeAt_createFile)
  then have n3: "nodeAt ?f3 ?p = Some (File (teData t) (isExec ?f1 ?p))"
    by (simp add: nodeAt_writeTo)
  from pe have "isDir ?f1 (butlast ?p)"
    by (simp add: parentErr_def split: if_splits)
  with bl have "isDir ?f3 (butlast ?p)"
    by (simp add: isDir_def nodeAt_writeTo nodeAt_createFile)
  then have "parentErr ?f3 ?p = None" by (simp add: parentErr_def)
  with n3 have "statErr ?f3 ?p = None" by (simp add: statErr_def)
  with n3 f' show ?thesis
    by (simp add: isExec_def nodeAt_chmodExec)
qed

lemma untarLoop_append:
  "untarLoop dest (xs @ ys) fin f =
     (case untarLoop dest xs None f of
        (Some e, f1) \<Rightarrow> (Some e, f1)
      | (None, f1) \<Rightarrow> untarLoop dest ys fin f1)"
proof (induction xs arbitrary: f)
  case Nil
  then show ?case by simp
next
  case (Cons x xs)
  obtain r f1 where e: "untarEntry dest x f = (r, f1)" by (cases "untarEntry dest x f")
  with Cons.IH [of f1] show ?case by (cases r) simp_all
qed

lemma unzipLoop_append:
  "unzipLoop dest (xs @ ys) f =
     (case unzipLoop dest xs f of
        (Some e, f1) \<Rightarrow> (Some e, f1)
      | (None, f1) \<Rightarrow> unzipLoop dest ys f1)"
proof (induction xs arbitrary: f)
  case Nil
  then show ?case by simp
next
  case (Cons x xs)
  obtain r f1 where e: "unzipEntry dest x f = (r, f1)" by (cases "unzipEntry dest x f")
  with Cons.IH [of f1] show ?case by (cases r) simp_all
qed

lemma untarLoop_sets_exec:
  assumes upto: "untarLoop dest (ts1 @ [t]) None f = (None, f1)" and reg: "\<not> teIsDir t"
    and ex: "execName (joinPath dest (teName t))"
  shows "isExec (snd (untarLoop dest (ts1 @ t # ts2) fin f)) (joinPath dest (teName t))"
proof -
  obtain r0 f0 where p: "untarLoop dest ts1 None f = (r0, f0)"
    by (cases "untarLoop dest ts1 None f")
  with upto have r0: "r0 = None" and last: "untarLoop dest [t] None f0 = (None, f1)"
    by (cases r0; simp add: untarLoop_append)+
  from last have "untarEntry dest t f0 = (None, f1)"
    by (cases "untarEntry dest t f0") (auto split: option.splits)
  from untarEntry_sets_exec [OF this reg ex] have x: "isExec f1 (joinPath dest (teName t))" .
  have "untarLoop dest (ts1 @ t # ts2) fin f = untarLoop dest ((ts1 @ [t]) @ ts2) fin f" by simp
  also have "\<dots> = untarLoop dest ts2 fin f1"
    by (simp only: untarLoop_append [of dest "ts1 @ [t]"] upto) simp
  finally show ?thesis
    using isExec_untarLoop_mono [OF x] by simp
qed


text \<open>
  Claim C2, amended: in gzip-tar extraction every entry that is a file, is extracted
  without error, and whose path ends in \<^verbatim>\<open>.sh\<close> or whose base name is
  \<^verbatim>\<open>xmlui-mcp\<close>, \<^verbatim>\<open>xmlui-mcp-client\<close> or \<^verbatim>\<open>xmlui-test-server\<close> is executable when
  \<^verbatim>\<open>untarGzTo\<close> returns, whatever happens to the entries after it. Zip extraction sets
  no permission: after \<^verbatim>\<open>unzipTo\<close> a path is executable exactly if it was before, so a
  file that \<^verbatim>\<open>unzipTo\<close> creates is not executable.
\<close>

theorem executable_bit_after_extraction:
  "(gzipTarReader w data = Inr (ts1 @ t # ts2, fin) \<and>
    untarLoop dest (ts1 @ [t]) None f = (None, f1) \<and>
    \<not> teIsDir t \<and> execName (joinPath dest (teName t)) \<longrightarrow>
      isExec (snd (untarGzTo w data dest f)) (joinPath dest (teName t))) \<and>
   (isExec (snd (unzipTo w data dest f)) q \<longleftrightarrow> isExec f q)"
proof (intro conjI impI)
  assume a: "gzipTarReader w data = Inr (ts1 @ t # ts2, fin) \<and>
    untarLoop dest (ts1 @ [t]) None f = (None, f1) \<and>
    \<not> teIsDir t \<and> execName (joinPath dest (teName t))"
  then have "untarGzTo w data dest f = untarLoop dest (ts1 @ t # ts2) fin f"
    by (simp add: untarGzTo_def)
  with a untarLoop_sets_exec [of dest ts1 t f f1 ts2 fin]
  show "isExec (snd (untarGzTo w data dest f)) (joinPath dest (teName t))"
    by simp
next
  show "isExec (snd (unzipTo w data dest f)) q \<longleftrightarrow> isExec f q"
    by (rule isExec_unzipTo)
qed



lemma createFile_error_unchanged:
  "fst (createFile p f) \<noteq> None \<Longrightarrow> snd (createFile p f) = f"
  by (auto simp: createFile_def split: option.splits node.splits)

lemma mkdirAll_keeps: "nodeAt f p \<noteq> None \<Longrightarrow> nodeAt (snd (mkdirAll q f)) p = nodeAt f p"
  by (simp add: nodeAt_mkdirAll)

lemma unzipEntry_dir: "zfIsDir z \<Longrightarrow> fst (unzipEntry dest z f) = None"
  by (simp add: unzipEntry_def Let_def)

lemma untarEntry_dir: "teIsDir t \<Longrightarrow> fst (untarEntry dest t f) = None"
  by (simp add: untarEntry_def Let_def)

lemma unzipEntry_open_error:
  "\<not> zfIsDir z \<Longrightarrow> zfOpen z = Inl e \<Longrightarrow> fst (unzipEntry dest z f) = Some e"
  by (simp add: unzipEntry_def Let_def)

lemma unzipEntry_create_error:
  assumes "\<not> zfIsDir z" "zfOpen z = Inr dc"
    and "fst (createFile (joinPath dest (zfName z))
                (snd (mkdirAll (pathDir (joinPath dest (zfName z))) f))) = Some e"
  shows "fst (unzipEntry dest z f) = Some e"
  using assms
  by (cases "createFile (joinPath dest (zfName z))
                (snd (mkdirAll (pathDir (joinPath dest (zfName z))) f))"; cases dc)
    (simp add: unzipEntry_def Let_def)

lemma untarEntry_create_error:
  assumes "\<not> teIsDir t"
    and "fst (createFile (joinPath dest (teName t))
                (snd (mkdirAll (pathDir (joinPath dest (teName t))) f))) = Some e"
  shows "fst (untarEntry dest t f) = Some e"
  using assms
  by (cases "createFile (joinPath dest (teName t))
                (snd (mkdirAll (pathDir (joinPath dest (teName t))) f))")
    (simp add: untarEntry_def Let_def)

lemma untarEntry_copy_error:
  assumes "\<not> teIsDir t"
    and "fst (createFile (joinPath dest (teName t))
                (snd (mkdirAll (pathDir (joinPath dest (teName t))) f))) = None"
    and "teCopyErr t = Some e"
  shows "fst (untarEntry dest t f) = Some e"
  using assms
  by (cases "createFile (joinPath dest (teName t))
                (snd (mkdirAll (pathDir (joinPath dest (teName t))) f))")
    (simp add: untarEntry_def Let_def)

lemma unzipLoop_abort:
  assumes "unzipLoop dest zs f = (None, f1)" "unzipEntry dest z f1 = (Some e, f2)"
  shows "unzipLoop dest (zs @ z # rest) f = (Some e, f2)"
  using assms by (simp add: unzipLoop_append)

lemma untarLoop_abort:
  assumes "untarLoop dest ts None f = (None, f1)" "untarEntry dest t f1 = (Some e, f2)"
  shows "untarLoop dest (ts @ t # rest) fin f = (Some e, f2)"
  using assms by (simp add: untarLoop_append)

lemma untarLoop_header_error:
  assumes "untarLoop dest ts None f = (None, f1)"
  shows "untarLoop dest ts (Some e) f = (Some e, f1)"
  using assms untarLoop_append [of dest ts "[]" "Some e" f] by simp

lemma unzipEntry_failure_keeps:
  assumes "unzipEntry dest z f1 = (Some e, f2)" "nodeAt f1 p \<noteq> None"
  shows "nodeAt f2 p = nodeAt f1 p"
proof -
  let ?p = "joinPath dest (zfName z)"
  let ?g = "snd (mkdirAll (pathDir ?p) f1)"
  from assms(1) have nd: "\<not> zfIsDir z"
    using unzipEntry_dir [of z dest f1] by auto
  have g: "nodeAt ?g p = nodeAt f1 p"
    using assms(2) by (rule mkdirAll_keeps)
  show ?thesis
  proof (cases "zfOpen z")
    case (Inl e')
    with nd assms(1) have "f2 = ?g" by (simp add: unzipEntry_def Let_def)
    with g show ?thesis by simp
  next
    case (Inr dc)
    obtain c h where cf: "createFile ?p ?g = (c, h)" by (cases "createFile ?p ?g")
    with nd Inr assms(1) have c: "c \<noteq> None" and f2: "f2 = h"
      by (cases dc; cases c; simp add: unzipEntry_def Let_def)+
    from cf c createFile_error_unchanged [of ?p ?g] have "h = ?g" by simp
    with f2 g show ?thesis by simp
  qed
qed

lemma untarEntry_failure_keeps:
  assumes "untarEntry dest t f1 = (Some e, f2)" "nodeAt f1 p \<noteq> None"
    and "p \<noteq> joinPath dest (teName t)"
  shows "nodeAt f2 p = nodeAt f1 p"
proof -
  let ?p = "joinPath dest (teName t)"
  let ?g = "snd (mkdirAll (pathDir ?p) f1)"
  from assms(1) have nd: "\<not> teIsDir t"
    using untarEntry_dir [of t dest f1] by auto
  have g: "nodeAt ?g p = nodeAt f1 p"
    using assms(2) by (rule mkdirAll_keeps)
  obtain c h where cf: "createFile ?p ?g = (c, h)" by (cases "createFile ?p ?g")
  then have h: "h = snd (createFile ?p ?g)" by simp
  from assms(3) h g have hp: "nodeAt h p = nodeAt f1 p"
    by (simp add: nodeAt_createFile)
  show ?thesis
  proof (cases c)
    case (Some e')
    with nd cf assms(1) have "f2 = h" by (simp add: untarEntry_def Let_def)
    with hp show ?thesis by simp
  next
    case None
    with nd cf assms(1) have "f2 = writeTo ?p (teData t) h"
      by (auto simp: untarEntry_def Let_def split: option.splits)
    with hp assms(3) show ?thesis by (simp add: nodeAt_writeTo)
  qed
qed

lemma untarEntry_failure_keeps_files:
  assumes "untarEntry dest t f1 = (Some e, f2)" "isFile f1 p"
  shows "isFile f2 p"
proof (cases "p = joinPath dest (teName t)")
  case False
  from assms(2) have "nodeAt f1 p \<noteq> None" by (auto simp: isFile_def split: option.splits)
  from untarEntry_failure_keeps [OF assms(1) this False] assms(2) show ?thesis
    by (simp add: isFile_def)
next
  case True
  let ?p = "joinPath dest (teName t)"
  let ?g = "snd (mkdirAll (pathDir ?p) f1)"
  from assms(1) have nd: "\<not> teIsDir t"
    using untarEntry_dir [of t dest f1] by auto
  from assms(2) True have gp: "isFile ?g ?p"
    by (auto simp: isFile_def nodeAt_mkdirAll split: option.splits)
  obtain c h where cf: "createFile ?p ?g = (c, h)" by (cases "createFile ?p ?g")
  then have h: "h = snd (createFile ?p ?g)" by simp
  with gp have hp: "isFile h ?p"
    by (auto simp: isFile_def nodeAt_createFile split: option.splits node.splits)
  show ?thesis
  proof (cases c)
    case (Some e')
    with nd cf assms(1) have "f2 = h" by (simp add: untarEntry_def Let_def)
    with hp True show ?thesis by simp
  next
    case None
    with nd cf assms(1) have "f2 = writeTo ?p (teData t) h"
      by (auto simp: untarEntry_def Let_def split: option.splits)
    with hp True show ?thesis
      by (auto simp: isFile_def nodeAt_writeTo split: option.splits node.splits)
  qed
qed




text \<open>
  Claim C3, amended: extraction stops at the first of these failures and returns it to
  the caller: the archive cannot be opened (\<^verbatim>\<open>zip.NewReader\<close>, \<^verbatim>\<open>gzip.NewReader\<close>), a tar
  header cannot be read, a zip entry cannot be opened, the file of an entry cannot be
  created, or (gzip-tar only) the content of an entry cannot be copied. The entries
  after the failing one are not looked at. Nothing is rolled back: every path that
  existed before the failing entry still exists with the same content afterwards (for
  gzip-tar, the file being written apart), and files stay files. A directory that cannot
  be created is not an error: the result of \<^verbatim>\<open>os.MkdirAll\<close> is dropped, so a directory
  entry never fails.
\<close>

theorem extraction_failure_aborts:
  "(zipNewReader w data = Inl e \<longrightarrow> unzipTo w data dest f = (Some e, f)) \<and>
   (gzipTarReader w data = Inl e \<longrightarrow> untarGzTo w data dest f = (Some e, f)) \<and>
   (\<not> zfIsDir z \<and> zfOpen z = Inl e \<longrightarrow> fst (unzipEntry dest z f) = Some e) \<and>
   (\<not> zfIsDir z \<and> zfOpen z = Inr dc \<and>
    fst (createFile (joinPath dest (zfName z))
           (snd (mkdirAll (pathDir (joinPath dest (zfName z))) f))) = Some e \<longrightarrow>
      fst (unzipEntry dest z f) = Some e) \<and>
   (\<not> teIsDir t \<and>
    fst (createFile (joinPath dest (teName t))
           (snd (mkdirAll (pathDir (joinPath dest (teName t))) f))) = Some e \<longrightarrow>
      fst (untarEntry dest t f) = Some e) \<and>
   (\<not> teIsDir t \<and>
    fst (createFile (joinPath dest (teName t))
           (snd (mkdirAll (pathDir (joinPath dest (teName t))) f))) = None \<and>
    teCopyErr t = Some e \<longrightarrow>
      fst (untarEntry dest t f) = Some e) \<and>
   (unzipLoop dest zs f = (None, f1) \<and> unzipEntry dest z f1 = (Some e, f2) \<longrightarrow>
      unzipLoop dest (zs @ z # zs') f = (Some e, f2)) \<and>
   (untarLoop dest ts None f = (None, f1) \<and> untarEntry dest t f1 = (Some e, f2) \<longrightarrow>
      untarLoop dest (ts @ t # ts') fin f = (Some e, f2)) \<and>
   (untarLoop dest ts None f = (None, f1) \<longrightarrow>
      untarLoop dest ts (Some e) f = (Some e, f1)) \<and>
   (unzipEntry dest z f1 = (Some e, f2) \<and> nodeAt f1 p \<noteq> None \<longrightarrow>
      nodeAt f2 p = nodeAt f1 p) \<and>
   (untarEntry dest t f1 = (Some e, f2) \<and> nodeAt f1 p \<noteq> None \<and>
    p \<noteq> joinPath dest (teName t) \<longrightarrow>
      nodeAt f2 p = nodeAt f1 p) \<and>
   (untarEntry dest t f1 = (Some e, f2) \<and> isFile f1 p \<longrightarrow> isFile f2 p) \<and>
   (zfIsDir z \<longrightarrow> fst (unzipEntry dest z f) = None) \<and>
   (teIsDir t \<longrightarrow> fst (untarEntry dest t f) = None)"
proof (intro conjI impI; (elim conjE)?)
  show "zipNewReader w data = Inl e \<Longrightarrow> unzipTo w data dest f = (Some e, f)"
    by (simp add: unzipTo_def)
  show "gzipTarReader w data = Inl e \<Longrightarrow> untarGzTo w data dest f = (Some e, f)"
    by (simp add: untarGzTo_def)
  show "\<not> zfIsDir z \<Longrightarrow> zfOpen z = Inl e \<Longrightarrow> fst (unzipEntry dest z f) = Some e"
    by (rule unzipEntry_open_error)
  show "\<not> zfIsDir z \<Longrightarrow> zfOpen z = Inr dc \<Longrightarrow>
    fst (createFile (joinPath dest (zfName z))
           (snd (mkdirAll (pathDir (joinPath dest (zfName z))) f))) = Some e \<Longrightarrow>
      fst (unzipEntry dest z f) = Some e"
    by (rule unzipEntry_create_error)
  show "\<not> teIsDir t \<Longrightarrow>
    fst (createFile (joinPath dest (teName t))
           (snd (mkdirAll (pathDir (joinPath dest (teName t))) f))) = Some e \<Longrightarrow>
      fst (untarEntry dest t f) = Some e"
    by (rule untarEntry_create_error)
  show "\<not> teIsDir t \<Longrightarrow>
    fst (createFile (joinPath dest (teName t))
           (snd (mkdirAll (pathDir (joinPath dest (teName t))) f))) = None \<Longrightarrow>
    teCopyErr t = Some e \<Longrightarrow> fst (untarEntry dest t f) = Some e"
    by (rule untarEntry_copy_error)
  show "unzipLoop dest zs f = (None, f1) \<Longrightarrow> unzipEntry dest z f1 = (Some e, f2) \<Longrightarrow>
      unzipLoop dest (zs @ z # zs') f = (Some e, f2)"
    by (rule unzipLoop_abort)
  show "untarLoop dest ts None f = (None, f1) \<Longrightarrow> untarEntry dest t f1 = (Some e, f2) \<Longrightarrow>
      untarLoop dest (ts @ t # ts') fin f = (Some e, f2)"
    by (rule untarLoop_abort)
  show "untarLoop dest ts None f = (None, f1) \<Longrightarrow> untarLoop dest ts (Some e) f = (Some e, f1)"
    by (rule untarLoop_header_error)
  show "unzipEntry dest z f1 = (Some e, f2) \<Longrightarrow> nodeAt f1 p \<noteq> None \<Longrightarrow>
      nodeAt f2 p = nodeAt f1 p"
    by (rule unzipEntry_failure_keeps)
  show "untarEntry dest t f1 = (Some e, f2) \<Longrightarrow> nodeAt f1 p \<noteq> None \<Longrightarrow>
    p \<noteq> joinPath dest (teName t) \<Longrightarrow> nodeAt f2 p = nodeAt f1 p"
    by (rule untarEntry_failure_keeps)
  show "untarEntry dest t f1 = (Some e, f2) \<Longrightarrow> isFile f1 p \<Longrightarrow> isFile f2 p"
    by (rule untarEntry_failure_keeps_files)
  show "zfIsDir z \<Longrightarrow> fst (unzipEntry dest z f) = None"
    by (rule unzipEntry_dir)
  show "teIsDir t \<Longrightarrow> fst (untarEntry dest t f) = None"
    by (rule untarEntry_dir)
qed

section \<open>Properties of layout assembly\<close>

lemma hasPrefix_dash_neq:
  "hasPrefix n (repo @ ''-'') \<Longrightarrow> n \<noteq> repo"
  by (auto simp: hasPrefix_def)

lemma moveIntoPlace_first_match:
  assumes rd: "readDir d f = Inr es" and wf: "wfNames f" and vr: "validName repo"
    and fm: "find (\<lambda>e. hasPrefix (fst e) (repo @ ''-'')) es = Some e"
  shows "moveIntoPlace d repo d f =
     (case rename (d @ [fst e]) (d @ [repo]) f of
        (Some err, g) \<Rightarrow> (g, Inl err)
      | (None, g) \<Rightarrow> (g, Inr (d @ [repo])))"
proof -
  from find_SomeD [OF fm] have "e \<in> set es" by simp
  with readDir_entry(1) [OF rd] have "fst e \<in> set (childNames f d)" by simp
  with wf have "validName (fst e)" by (rule childNames_valid)
  with vr rd fm show ?thesis
    by (simp add: moveIntoPlace_def moveLoop_find joinPath_validName
        split: prod.splits option.splits)
qed

lemma rename_sibling_effect:
  assumes ok: "fst (rename (d @ [n]) (d @ [m]) f) = None" and ne: "n \<noteq> m"
  shows "nodeAt (snd (rename (d @ [n]) (d @ [m]) f)) q =
     (if prefix (d @ [m]) q then nodeAt f (d @ [n] @ drop (Suc (length d)) q)
      else if prefix (d @ [n]) q then None else nodeAt f q)"
proof -
  from ne have np: "\<not> prefix (d @ [n]) (d @ [m])" "\<not> prefix (d @ [m]) (d @ [n])"
    by simp_all
  from ok ne have "snd (rename (d @ [n]) (d @ [m]) f) = moveTree (d @ [n]) (d @ [m]) f"
    by (simp add: rename_ok_moveTree)
  with nodeAt_moveTree [OF np, of f q] show ?thesis by simp
qed

text \<open>
  Claim C4, amended: in an install directory whose entry list holds an entry with a name
  that begins with \<^verbatim>\<open><repoName>-\<close>, layout assembly tries to rename the first such
  entry to \<^verbatim>\<open><repoName>\<close>. The rename succeeds whenever the install directory has no
  entry \<^verbatim>\<open><repoName>\<close> yet; when it succeeds, the path of \<^verbatim>\<open><repoName>\<close> is returned,
  the old name is gone and everything the entry held is found under the new name. When
  the rename is refused, its error is returned and the file system is unchanged. In an
  install directory with no matching entry the layout error is returned and nothing
  changes. As in \<^verbatim>\<open>main\<close>, the directory that is listed and the directory that receives
  the entry are both the install directory.
\<close>

theorem moveIntoPlace_layout:
  assumes rd: "readDir d f = Inr es" and wf: "wfNames f" and vr: "validName repo"
  shows "((\<forall>e \<in> set es. \<not> hasPrefix (fst e) (repo @ ''-'')) \<longrightarrow>
            moveIntoPlace d repo d f = (f, Inl RepoDirNotFound)) \<and>
         (\<forall>e. find (\<lambda>e. hasPrefix (fst e) (repo @ ''-'')) es = Some e \<longrightarrow>
            (nodeAt f (d @ [repo]) = None \<longrightarrow>
               fst (rename (d @ [fst e]) (d @ [repo]) f) = None) \<and>
            (fst (rename (d @ [fst e]) (d @ [repo]) f) = None \<longrightarrow>
               snd (moveIntoPlace d repo d f) = Inr (d @ [repo]) \<and>
               nodeAt (fst (moveIntoPlace d repo d f)) (d @ [fst e]) = None \<and>
               (\<forall>q. nodeAt (fst (moveIntoPlace d repo d f)) (d @ repo # q) =
                    nodeAt f (d @ fst e # q))) \<and>
            (\<forall>err. fst (rename (d @ [fst e]) (d @ [repo]) f) = Some err \<longrightarrow>
               moveIntoPlace d repo d f = (f, Inl err)))"
proof (intro conjI allI impI)
  assume "\<forall>e \<in> set es. \<not> hasPrefix (fst e) (repo @ ''-'')"
  then have "find (\<lambda>e. hasPrefix (fst e) (repo @ ''-'')) es = None"
    by (simp add: find_None_iff_set)
  with rd show "moveIntoPlace d repo d f = (f, Inl RepoDirNotFound)"
    by (simp add: moveIntoPlace_def moveLoop_find)
next
  fix e
  assume fm: "find (\<lambda>e. hasPrefix (fst e) (repo @ ''-'')) es = Some e"
  note mip = moveIntoPlace_first_match [OF rd wf vr fm]
  from find_SomeD [OF fm] have e: "e \<in> set es" and pre: "hasPrefix (fst e) (repo @ ''-'')"
    by simp_all
  from pre have ne: "fst e \<noteq> repo" by (rule hasPrefix_dash_neq)
  {
    assume absent: "nodeAt f (d @ [repo]) = None"
    from readDir_Inr [OF rd] have "parentErr f (d @ [repo]) = None"
      by (simp add: parentErr_def)
    with readDir_entry(3) [OF rd e] absent ne
    show "fst (rename (d @ [fst e]) (d @ [repo]) f) = None"
      by (intro rename_to_absent_ok) simp_all
  }
  {
    assume ok: "fst (rename (d @ [fst e]) (d @ [repo]) f) = None"
    then have r: "moveIntoPlace d repo d f =
        (snd (rename (d @ [fst e]) (d @ [repo]) f), Inr (d @ [repo]))"
      by (cases "rename (d @ [fst e]) (d @ [repo]) f") (simp add: mip)
    then show "snd (moveIntoPlace d repo d f) = Inr (d @ [repo])" by simp
    from r rename_sibling_effect [OF ok ne, of "d @ [fst e]"] ne
    show "nodeAt (fst (moveIntoPlace d repo d f)) (d @ [fst e]) = None" by simp
    fix q
    from r rename_sibling_effect [OF ok ne, of "d @ repo # q"]
    show "nodeAt (fst (moveIntoPlace d repo d f)) (d @ repo # q) = nodeAt f (d @ fst e # q)"
      by simp
  }
  {
    fix err
    assume bad: "fst (rename (d @ [fst e]) (d @ [repo]) f) = Some err"
    then have "snd (rename (d @ [fst e]) (d @ [repo]) f) = f"
      by (intro rename_error_unchanged) simp
    with bad show "moveIntoPlace d repo d f = (f, Inl err)"
      by (cases "rename (d @ [fst e]) (d @ [repo]) f") (simp add: mip)
  }
qed


lemma validName_repoName: "validName repoName"
  by (simp add: validName_def repoName_def)

text \<open>
  Claim C10, amended: \<open>e\<close> being the first entry, in the order of the directory
  listing, whose name begins with \<^verbatim>\<open><repoName>-\<close>, the one rename that layout assembly
  attempts is that of \<open>e\<close> to \<^verbatim>\<open><repoName>\<close>; every other matching entry keeps its
  name and all it holds, whether the rename succeeds or is refused. The rename succeeds
  whenever the install directory has no entry \<^verbatim>\<open><repoName>\<close> yet; when it succeeds, what
  was at the old name, a directory or a plain file alike, is at \<^verbatim>\<open><repoName>\<close> and the
  old name is gone. When the rename is refused, its error is returned and nothing is
  renamed: the file system is unchanged. As in \<^verbatim>\<open>main\<close>, both directories of the call
  are the install directory.
\<close>

theorem moveIntoPlace_first_only:
  assumes rd: "readDir d f = Inr es" and wf: "wfNames f" and vr: "validName repo"
    and fm: "find (\<lambda>e. hasPrefix (fst e) (repo @ ''-'')) es = Some e"
  shows "moveIntoPlace d repo d f =
           (case rename (d @ [fst e]) (d @ [repo]) f of
              (Some err, g) \<Rightarrow> (g, Inl err)
            | (None, g) \<Rightarrow> (g, Inr (d @ [repo]))) \<and>
         (\<forall>e' \<in> set es. e' \<noteq> e \<and> hasPrefix (fst e') (repo @ ''-'') \<longrightarrow>
            (\<forall>q. nodeAt (fst (moveIntoPlace d repo d f)) (d @ fst e' # q) =
                 nodeAt f (d @ fst e' # q))) \<and>
         (snd (moveIntoPlace d repo d f) = Inr (d @ [repo]) \<longrightarrow>
            nodeAt (fst (moveIntoPlace d repo d f)) (d @ [repo]) = nodeAt f (d @ [fst e]) \<and>
            nodeAt (fst (moveIntoPlace d repo d f)) (d @ [fst e]) = None) \<and>
         (nodeAt f (d @ [repo]) = None \<longrightarrow>
            snd (moveIntoPlace d repo d f) = Inr (d @ [repo])) \<and>
         (\<forall>err. fst (rename (d @ [fst e]) (d @ [repo]) f) = Some err \<longrightarrow>
            moveIntoPlace d repo d f = (f, Inl err))"
proof (intro conjI ballI impI allI)
  note mip = moveIntoPlace_first_match [OF rd wf vr fm]
  show "moveIntoPlace d repo d f =
           (case rename (d @ [fst e]) (d @ [repo]) f of
              (Some err, g) \<Rightarrow> (g, Inl err)
            | (None, g) \<Rightarrow> (g, Inr (d @ [repo])))"
    by (rule mip)
  from find_SomeD [OF fm] have e: "e \<in> set es" and pre: "hasPrefix (fst e) (repo @ ''-'')"
    by simp_all
  from pre have ne: "fst e \<noteq> repo" by (rule hasPrefix_dash_neq)
  obtain r g where rn: "rename (d @ [fst e]) (d @ [repo]) f = (r, g)"
    by (cases "rename (d @ [fst e]) (d @ [repo]) f")
  {
    fix e' q
    assume e': "e' \<in> set es" and o: "e' \<noteq> e \<and> hasPrefix (fst e') (repo @ ''-'')"
    from o have ne': "fst e' \<noteq> repo" by (simp add: hasPrefix_dash_neq)
    from readDir_Inr [OF rd] e e' o have nee: "fst e' \<noteq> fst e" by auto
    show "nodeAt (fst (moveIntoPlace d repo d f)) (d @ fst e' # q) = nodeAt f (d @ fst e' # q)"
    proof (cases r)
      case None
      with rn have ok: "fst (rename (d @ [fst e]) (d @ [repo]) f) = None" by simp
      from rename_sibling_effect [OF ok ne, of "d @ fst e' # q"] ne' nee rn None
      show ?thesis by (simp add: mip)
    next
      case (Some err)
      with rn rename_error_unchanged [of "d @ [fst e]" "d @ [repo]" f]
      show ?thesis by (simp add: mip)
    qed
  }
  {
    assume "snd (moveIntoPlace d repo d f) = Inr (d @ [repo])"
    with rn have r: "r = None" by (cases r) (simp_all add: mip)
    with rn have ok: "fst (rename (d @ [fst e]) (d @ [repo]) f) = None" by simp
    from rename_sibling_effect [OF ok ne, of "d @ [repo]"] rn r
    show "nodeAt (fst (moveIntoPlace d repo d f)) (d @ [repo]) = nodeAt f (d @ [fst e])"
      by (simp add: mip)
    from rename_sibling_effect [OF ok ne, of "d @ [fst e]"] rn r ne
    show "nodeAt (fst (moveIntoPlace d repo d f)) (d @ [fst e]) = None"
      by (simp add: mip)
  }
  {
    assume absent: "nodeAt f (d @ [repo]) = None"
    from readDir_Inr [OF rd] have "parentErr f (d @ [repo]) = None"
      by (simp add: parentErr_def)
    with readDir_entry(3) [OF rd e] absent ne
    have "fst (rename (d @ [fst e]) (d @ [repo]) f) = None"
      by (intro rename_to_absent_ok) simp_all
    with rn show "snd (moveIntoPlace d repo d f) = Inr (d @ [repo])"
      by (simp add: mip)
  }
  {
    fix err
    assume bad: "fst (rename (d @ [fst e]) (d @ [repo]) f) = Some err"
    then have "snd (rename (d @ [fst e]) (d @ [repo]) f) = f"
      by (intro rename_error_unchanged) simp
    with bad show "moveIntoPlace d repo d f = (f, Inl err)"
      by (cases "rename (d @ [fst e]) (d @ [repo]) f") (simp add: mip)
  }
qed

section \<open>Properties of the relocation loop\<close>

lemma rename_ok_D:
  "fst (rename old new f) = None \<Longrightarrow> statErr f old = None \<and> parentErr f new = None"
  by (auto simp: rename_def statErr_def split: option.splits if_splits)

lemma prefix_same_length:
  "prefix xs ys \<Longrightarrow> length xs = length ys \<Longrightarrow> xs = ys"
  by (auto simp: prefix_def)

lemma snoc_not_prefix:
  assumes "length a = length b" "a \<noteq> b"
  shows "\<not> prefix (a @ [x]) (b @ [y])"
proof
  assume "prefix (a @ [x]) (b @ [y])"
  with assms(1) have "a @ [x] = b @ [y]"
    by (intro prefix_same_length) simp_all
  with assms(2) show False by simp
qed

lemma staging_paths_apart:
  assumes "length t = length m" "t \<noteq> m"
  shows "\<not> prefix (t @ [n]) (m @ [n'])" "\<not> prefix (m @ [n]) (t @ [n'])"
  using assms snoc_not_prefix [of t m n n'] snoc_not_prefix [of m t n n'] by simp_all

lemma snoc_prefix_of_snoc:
  assumes "prefix (t @ [n]) p" "prefix p (u @ [n'])" "length t = length u"
  shows "p = u @ [n'] \<and> t = u \<and> n = n'"
proof -
  from assms(1) have "Suc (length t) \<le> length p"
    by (metis length_append_singleton prefix_length_le)
  moreover from assms(2) have "length p \<le> Suc (length u)"
    by (metis length_append_singleton prefix_length_le)
  ultimately have "length p = length (u @ [n'])" using assms(3) by simp
  with assms(2) have p: "p = u @ [n']" by (simp add: prefix_same_length)
  with assms(1,3) have "t @ [n] = u @ [n']"
    by (intro prefix_same_length) simp_all
  with p show ?thesis by simp
qed

lemma relocateFile_stdout:
  assumes "validName n"
  shows "stdout (relocateFile os t m n s) =
     stdout s @ [case fst (rename (t @ [n]) (m @ [n]) (files s)) of
                   Some err \<Rightarrow> skipMessage n err
                 | None \<Rightarrow> movedMessage n (m @ [n])]"
  using assms
  by (cases "rename (t @ [n]) (m @ [n]) (files s)")
    (auto simp: relocateFile_def joinPath_validName Let_def printf_def split: option.splits)

lemma relocateFile_failed:
  assumes "validName n" "fst (rename (t @ [n]) (m @ [n]) (files s)) \<noteq> None"
  shows "files (relocateFile os t m n s) = files s"
  using assms rename_error_unchanged [of "t @ [n]" "m @ [n]" "files s"]
  by (cases "rename (t @ [n]) (m @ [n]) (files s)")
    (auto simp: relocateFile_def joinPath_validName Let_def printf_def split: option.splits)

lemma relocateFile_files_ok:
  assumes "validName n" "fst (rename (t @ [n]) (m @ [n]) (files s)) = None" "t \<noteq> m"
  shows "files (relocateFile os t m n s) =
     (if chmodWanted os n then snd (chmodExec (m @ [n]) (moveTree (t @ [n]) (m @ [n]) (files s)))
      else moveTree (t @ [n]) (m @ [n]) (files s))"
  using assms rename_ok_moveTree [of "t @ [n]" "m @ [n]" "files s"]
  by (cases "rename (t @ [n]) (m @ [n]) (files s)")
    (auto simp: relocateFile_def joinPath_validName Let_def printf_def split: option.splits)

lemma relocateFile_frame:
  assumes v: "validName n" and l: "length t = length m" and ne: "t \<noteq> m"
    and p: "\<not> prefix (t @ [n]) p" "\<not> prefix (m @ [n]) p"
  shows "nodeAt (files (relocateFile os t m n s)) p = nodeAt (files s) p"
proof (cases "fst (rename (t @ [n]) (m @ [n]) (files s))")
  case (Some err)
  with v show ?thesis by (simp add: relocateFile_failed)
next
  case None
  from p(2) have "p \<noteq> m @ [n]" by auto
  have ap1: "\<not> prefix (t @ [n]) (m @ [n])" and ap2: "\<not> prefix (m @ [n]) (t @ [n])"
    by (rule staging_paths_apart [OF l ne])+
  with nodeAt_moveTree [OF ap1 ap2, of "files s" p] p \<open>p \<noteq> m @ [n]\<close>
    relocateFile_files_ok [OF v None ne, of os]
  show ?thesis by (simp add: nodeAt_chmodExec)
qed

lemma relocateFile_moved:
  assumes v: "validName n" and l: "length t = length m" and ne: "t \<noteq> m"
    and ok: "fst (rename (t @ [n]) (m @ [n]) (files s)) = None"
  shows "nodeAt (files (relocateFile os t m n s)) (t @ n # q) = None"
    and "q \<noteq> [] \<Longrightarrow>
      nodeAt (files (relocateFile os t m n s)) (m @ n # q) = nodeAt (files s) (t @ n # q)"
    and "nodeAt (files (relocateFile os t m n s)) (m @ [n]) =
      (case nodeAt (files s) (t @ [n]) of
         Some (File c x) \<Rightarrow> Some (File c (x \<or> chmodWanted os n))
       | v \<Rightarrow> v)"
proof -
  let ?g = "moveTree (t @ [n]) (m @ [n]) (files s)"
  have ap1: "\<not> prefix (t @ [n]) (m @ [n])" and ap2: "\<not> prefix (m @ [n]) (t @ [n])"
    by (rule staging_paths_apart [OF l ne])+
  note mt = nodeAt_moveTree [OF ap1 ap2, of "files s"]
  note fl = relocateFile_files_ok [OF v ok ne, of os]
  have a: "\<not> prefix (m @ [n]) (t @ n # q)"
  proof
    assume "prefix (m @ [n]) (t @ n # q)"
    moreover have "prefix (t @ [n]) (t @ n # q)" by simp
    ultimately have "prefix (m @ [n]) (t @ [n])"
      using l prefix_length_prefix [of "m @ [n]" "t @ n # q" "t @ [n]"] by simp
    with ap2 show False by simp
  qed
  have neq: "t @ n # q \<noteq> m @ [n]"
  proof
    assume "t @ n # q = m @ [n]"
    then have "prefix (m @ [n]) (t @ n # q)" by (simp only: prefix_order.refl)
    with a show False ..
  qed
  show "nodeAt (files (relocateFile os t m n s)) (t @ n # q) = None"
    using mt [of "t @ n # q"] a fl neq by (simp add: nodeAt_chmodExec)
  have top: "nodeAt ?g (m @ [n]) = nodeAt (files s) (t @ [n])"
    using mt [of "m @ [n]"] by simp
  { assume "q \<noteq> []"
    then show "nodeAt (files (relocateFile os t m n s)) (m @ n # q) = nodeAt (files s) (t @ n # q)"
      using mt [of "m @ n # q"] fl by (simp add: nodeAt_chmodExec) }
  from rename_ok_D [OF ok] have so: "statErr (files s) (t @ [n]) = None"
    and pn: "parentErr (files s) (m @ [n]) = None" by simp_all
  from pn have "isDir (files s) m"
    by (simp add: parentErr_def split: if_splits)
  moreover have "\<not> prefix (t @ [n]) m"
    using l prefix_length_le [of "t @ [n]" m] by auto
  then have "nodeAt ?g m = nodeAt (files s) m"
    using mt [of m] by simp
  ultimately have "parentErr ?g (m @ [n]) = None"
    by (simp add: parentErr_def isDir_def)
  moreover from so have "nodeAt (files s) (t @ [n]) \<noteq> None"
    by (auto simp: statErr_def split: option.splits if_splits)
  ultimately have "statErr ?g (m @ [n]) = None"
    using top by (simp add: statErr_def)
  then show "nodeAt (files (relocateFile os t m n s)) (m @ [n]) =
      (case nodeAt (files s) (t @ [n]) of
         Some (File c x) \<Rightarrow> Some (File c (x \<or> chmodWanted os n))
       | v \<Rightarrow> v)"
    using top fl by (auto simp: nodeAt_chmodExec split: option.splits node.splits)
qed


lemma relocate_frame:
  assumes "\<forall>n \<in> set names. validName n" "length t = length m" "t \<noteq> m"
    and "\<forall>n \<in> set names. \<not> prefix (t @ [n]) p \<and> \<not> prefix (m @ [n]) p"
  shows "nodeAt (files (relocate os t m names s)) p = nodeAt (files s) p"
  using assms
proof (induction names arbitrary: s)
  case Nil
  then show ?case by simp
next
  case (Cons n names)
  then have "nodeAt (files (relocate os t m names (relocateFile os t m n s))) p =
      nodeAt (files (relocateFile os t m n s)) p"
    by simp
  also from Cons.prems have "\<dots> = nodeAt (files s) p"
    by (intro relocateFile_frame) simp_all
  finally show ?case by simp
qed

text \<open>Another file's pass leaves the outcome of a rename as it was.\<close>

lemma relocateFile_other_rename:
  assumes v: "validName n" and l: "length t = length m" and ne: "t \<noteq> m" and d: "n' \<noteq> n"
  shows "fst (rename (t @ [n']) (m @ [n']) (files (relocateFile os t m n s))) =
         fst (rename (t @ [n']) (m @ [n']) (files s))"
proof (rule rename_error_cong, intro allI impI)
  fix p
  assume p: "prefix p (t @ [n']) \<or> prefix p (m @ [n'])"
  have "\<not> prefix (t @ [n]) p"
  proof
    assume a: "prefix (t @ [n]) p"
    from p show False
    proof
      assume "prefix p (t @ [n'])"
      with a snoc_prefix_of_snoc [of t n p t n'] d show False by simp
    next
      assume "prefix p (m @ [n'])"
      with a snoc_prefix_of_snoc [of t n p m n'] l ne show False by simp
    qed
  qed
  moreover have "\<not> prefix (m @ [n]) p"
  proof
    assume a: "prefix (m @ [n]) p"
    from p show False
    proof
      assume "prefix p (t @ [n'])"
      with a snoc_prefix_of_snoc [of m n p t n'] l ne show False by simp
    next
      assume "prefix p (m @ [n'])"
      with a snoc_prefix_of_snoc [of m n p m n'] d show False by simp
    qed
  qed
  ultimately show "nodeAt (files (relocateFile os t m n s)) p = nodeAt (files s) p"
    using v l ne by (intro relocateFile_frame)
qed

lemma relocate_stdout:
  assumes "\<forall>n \<in> set names. validName n" "distinct names" "length t = length m" "t \<noteq> m"
  shows "stdout (relocate os t m names s) =
     stdout s @ map (\<lambda>n. case fst (rename (t @ [n]) (m @ [n]) (files s)) of
                            Some err \<Rightarrow> skipMessage n err
                          | None \<Rightarrow> movedMessage n (m @ [n])) names"
  using assms
proof (induction names arbitrary: s)
  case Nil
  then show ?case by simp
next
  case (Cons n names)
  let ?s1 = "relocateFile os t m n s"
  from Cons.prems have v: "validName n" and l: "length t = length m" and ne: "t \<noteq> m" by simp_all
  have same: "\<And>n'. n' \<in> set names \<Longrightarrow>
      fst (rename (t @ [n']) (m @ [n']) (files ?s1)) = fst (rename (t @ [n']) (m @ [n']) (files s))"
    using Cons.prems(2) by (intro relocateFile_other_rename [OF v l ne]) auto
  from Cons have "stdout (relocate os t m names ?s1) =
     stdout ?s1 @ map (\<lambda>n. case fst (rename (t @ [n]) (m @ [n]) (files ?s1)) of
                            Some err \<Rightarrow> skipMessage n err
                          | None \<Rightarrow> movedMessage n (m @ [n])) names"
    by simp
  also have "map (\<lambda>n. case fst (rename (t @ [n]) (m @ [n]) (files ?s1)) of
                            Some err \<Rightarrow> skipMessage n err
                          | None \<Rightarrow> movedMessage n (m @ [n])) names =
             map (\<lambda>n. case fst (rename (t @ [n]) (m @ [n]) (files s)) of
                            Some err \<Rightarrow> skipMessage n err
                          | None \<Rightarrow> movedMessage n (m @ [n])) names"
    using same by (intro map_cong) simp_all
  finally show ?case
    by (simp add: relocateFile_stdout [OF v])
qed


lemma snoc_prefix_below:
  assumes "length t = length m"
  shows "prefix (m @ [k]) (t @ n # q) \<longleftrightarrow> m = t \<and> k = n"
proof
  assume a: "prefix (m @ [k]) (t @ n # q)"
  have "prefix (t @ [n]) (t @ n # q)" by simp
  with a assms have "prefix (m @ [k]) (t @ [n])"
    using prefix_length_prefix [of "m @ [k]" "t @ n # q" "t @ [n]"] by simp
  with assms have "m @ [k] = t @ [n]"
    by (intro prefix_same_length) simp_all
  then show "m = t \<and> k = n" by simp
next
  assume "m = t \<and> k = n"
  then show "prefix (m @ [k]) (t @ n # q)" by simp
qed

lemma relocate_frame_below:
  assumes v: "\<forall>k \<in> set names. validName k" and l: "length t = length m" and ne: "t \<noteq> m"
    and n: "n \<notin> set names"
  shows "nodeAt (files (relocate os t m names s)) (t @ n # q) = nodeAt (files s) (t @ n # q)"
    and "nodeAt (files (relocate os t m names s)) (m @ n # q) = nodeAt (files s) (m @ n # q)"
proof -
  from n l ne have "\<forall>k \<in> set names. \<not> prefix (t @ [k]) (t @ n # q) \<and> \<not> prefix (m @ [k]) (t @ n # q)"
    by (auto simp: snoc_prefix_below)
  with v l ne show "nodeAt (files (relocate os t m names s)) (t @ n # q) = nodeAt (files s) (t @ n # q)"
    by (intro relocate_frame) simp_all
  from n l ne have "\<forall>k \<in> set names. \<not> prefix (t @ [k]) (m @ n # q) \<and> \<not> prefix (m @ [k]) (m @ n # q)"
    by (auto simp: snoc_prefix_below)
  with v l ne show "nodeAt (files (relocate os t m names s)) (m @ n # q) = nodeAt (files s) (m @ n # q)"
    by (intro relocate_frame) simp_all
qed

lemma relocateFile_frame_below:
  assumes v: "validName k" and l: "length t = length m" and ne: "t \<noteq> m" and n: "n \<noteq> k"
  shows "nodeAt (files (relocateFile os t m k s)) (t @ n # q) = nodeAt (files s) (t @ n # q)"
    and "nodeAt (files (relocateFile os t m k s)) (m @ n # q) = nodeAt (files s) (m @ n # q)"
  using relocate_frame_below [where names = "[k]" and t = t and m = m and n = n and os = os
      and s = s and q = q] assms by simp_all

lemma relocate_skipped:
  assumes "\<forall>k \<in> set names. validName k" "distinct names" "length t = length m" "t \<noteq> m"
    and "n \<in> set names" "fst (rename (t @ [n]) (m @ [n]) (files s)) \<noteq> None"
  shows "nodeAt (files (relocate os t m names s)) (t @ n # q) = nodeAt (files s) (t @ n # q) \<and>
         nodeAt (files (relocate os t m names s)) (m @ n # q) = nodeAt (files s) (m @ n # q)"
  using assms
proof (induction names arbitrary: s)
  case Nil
  then show ?case by simp
next
  case (Cons k ks)
  from Cons.prems have v: "validName k" and vs: "\<forall>k \<in> set ks. validName k"
    and l: "length t = length m" and ne: "t \<noteq> m" by simp_all
  let ?s1 = "relocateFile os t m k s"
  show ?case
  proof (cases "n = k")
    case True
    with Cons.prems have "n \<notin> set ks" by simp
    from relocate_frame_below [OF vs l ne this, where os = os and s = ?s1 and q = q]
      relocateFile_failed [OF v, where t = t and m = m and s = s and os = os] Cons.prems(6) True
    show ?thesis by simp
  next
    case False
    with Cons.prems have n: "n \<in> set ks" by simp
    from relocateFile_other_rename [OF v l ne False, where os = os and s = s] Cons.prems(6)
    have "fst (rename (t @ [n]) (m @ [n]) (files ?s1)) \<noteq> None" by simp
    with Cons.IH [of ?s1] Cons.prems vs n
    have "nodeAt (files (relocate os t m ks ?s1)) (t @ n # q) = nodeAt (files ?s1) (t @ n # q) \<and>
          nodeAt (files (relocate os t m ks ?s1)) (m @ n # q) = nodeAt (files ?s1) (m @ n # q)"
      by simp
    with relocateFile_frame_below [OF v l ne False, where os = os and s = s and q = q]
    show ?thesis by simp
  qed
qed

lemma relocate_moved:
  assumes "\<forall>k \<in> set names. validName k" "distinct names" "length t = length m" "t \<noteq> m"
    and "n \<in> set names" "fst (rename (t @ [n]) (m @ [n]) (files s)) = None"
  shows "nodeAt (files (relocate os t m names s)) (t @ n # q) = None \<and>
         (q \<noteq> [] \<longrightarrow>
            nodeAt (files (relocate os t m names s)) (m @ n # q) = nodeAt (files s) (t @ n # q)) \<and>
         nodeAt (files (relocate os t m names s)) (m @ [n]) =
           (case nodeAt (files s) (t @ [n]) of
              Some (File c x) \<Rightarrow> Some (File c (x \<or> chmodWanted os n))
            | v \<Rightarrow> v)"
  using assms
proof (induction names arbitrary: s)
  case Nil
  then show ?case by simp
next
  case (Cons k ks)
  from Cons.prems have v: "validName k" and vs: "\<forall>k \<in> set ks. validName k"
    and l: "length t = length m" and ne: "t \<noteq> m" by simp_all
  let ?s1 = "relocateFile os t m k s"
  show ?case
  proof (cases "n = k")
    case True
    with Cons.prems have nk: "n \<notin> set ks" by simp
    from Cons.prems(6) True have ok: "fst (rename (t @ [k]) (m @ [k]) (files s)) = None" by simp
    from nk True have kk: "k \<notin> set ks" by simp
    show ?thesis
      unfolding True
      using relocate_frame_below [OF vs l ne kk, where os = os and s = ?s1]
        relocateFile_moved [OF v l ne ok, where os = os]
      by simp
  next
    case False
    with Cons.prems have n: "n \<in> set ks" by simp
    from relocateFile_other_rename [OF v l ne False, where os = os and s = s] Cons.prems(6)
    have "fst (rename (t @ [n]) (m @ [n]) (files ?s1)) = None" by simp
    with Cons.IH [of ?s1] Cons.prems vs n
    have "nodeAt (files (relocate os t m ks ?s1)) (t @ n # q) = None \<and>
         (q \<noteq> [] \<longrightarrow>
            nodeAt (files (relocate os t m ks ?s1)) (m @ n # q) = nodeAt (files ?s1) (t @ n # q)) \<and>
         nodeAt (files (relocate os t m ks ?s1)) (m @ [n]) =
           (case nodeAt (files ?s1) (t @ [n]) of
              Some (File c x) \<Rightarrow> Some (File c (x \<or> chmodWanted os n))
            | v \<Rightarrow> v)"
      by simp
    with relocateFile_frame_below(1) [OF v l ne False, where os = os and s = s and q = q]
      relocateFile_frame_below(1) [OF v l ne False, where os = os and s = s and q = "[]"]
    show ?thesis by simp
  qed
qed


lemma relocate_general:
  assumes v: "\<forall>k \<in> set names. validName k" and d: "distinct names"
    and l: "length t = length m" and ne: "t \<noteq> m"
  shows "stdout (relocate os t m names s) =
           stdout s @ map (\<lambda>n. case fst (rename (t @ [n]) (m @ [n]) (files s)) of
                                  Some err \<Rightarrow> skipMessage n err
                                | None \<Rightarrow> movedMessage n (m @ [n])) names \<and>
         (\<forall>n \<in> set names. statErr (files s) (t @ [n]) \<noteq> None \<longrightarrow>
            fst (rename (t @ [n]) (m @ [n]) (files s)) \<noteq> None) \<and>
         (\<forall>n \<in> set names. fst (rename (t @ [n]) (m @ [n]) (files s)) \<noteq> None \<longrightarrow>
            (\<forall>q. nodeAt (files (relocate os t m names s)) (t @ n # q) = nodeAt (files s) (t @ n # q) \<and>
                 nodeAt (files (relocate os t m names s)) (m @ n # q) = nodeAt (files s) (m @ n # q))) \<and>
         (\<forall>n \<in> set names. fst (rename (t @ [n]) (m @ [n]) (files s)) = None \<longrightarrow>
            (\<forall>q. nodeAt (files (relocate os t m names s)) (t @ n # q) = None \<and>
                 (q \<noteq> [] \<longrightarrow>
                    nodeAt (files (relocate os t m names s)) (m @ n # q) =
                      nodeAt (files s) (t @ n # q))) \<and>
            nodeAt (files (relocate os t m names s)) (m @ [n]) =
              (case nodeAt (files s) (t @ [n]) of
                 Some (File c x) \<Rightarrow> Some (File c (x \<or> chmodWanted os n))
               | v \<Rightarrow> v))"
proof (intro conjI ballI impI allI)
  show "stdout (relocate os t m names s) =
           stdout s @ map (\<lambda>n. case fst (rename (t @ [n]) (m @ [n]) (files s)) of
                                  Some err \<Rightarrow> skipMessage n err
                                | None \<Rightarrow> movedMessage n (m @ [n])) names"
    by (rule relocate_stdout [OF v d l ne])
next
  fix n assume "statErr (files s) (t @ [n]) \<noteq> None"
  then show "fst (rename (t @ [n]) (m @ [n]) (files s)) \<noteq> None"
    by (rule rename_missing_fails)
next
  fix n q assume n: "n \<in> set names" and f: "fst (rename (t @ [n]) (m @ [n]) (files s)) \<noteq> None"
  from relocate_skipped [OF v d l ne n f, where os = os and q = q]
  show "nodeAt (files (relocate os t m names s)) (t @ n # q) = nodeAt (files s) (t @ n # q)"
    and "nodeAt (files (relocate os t m names s)) (m @ n # q) = nodeAt (files s) (m @ n # q)"
    by simp_all
next
  fix n q assume n: "n \<in> set names" and ok: "fst (rename (t @ [n]) (m @ [n]) (files s)) = None"
  from relocate_moved [OF v d l ne n ok, where os = os and q = q]
  show "nodeAt (files (relocate os t m names s)) (t @ n # q) = None" by simp
  { assume "q \<noteq> []"
    with relocate_moved [OF v d l ne n ok, where os = os and q = q]
    show "nodeAt (files (relocate os t m names s)) (m @ n # q) = nodeAt (files s) (t @ n # q)"
      by simp }
next
  fix n assume n: "n \<in> set names" and ok: "fst (rename (t @ [n]) (m @ [n]) (files s)) = None"
  from relocate_moved [OF v d l ne n ok, where os = os and q = "[]"]
  show "nodeAt (files (relocate os t m names s)) (m @ [n]) =
              (case nodeAt (files s) (t @ [n]) of
                 Some (File c x) \<Rightarrow> Some (File c (x \<or> chmodWanted os n))
               | v \<Rightarrow> v)"
    by simp
qed


lemma expectedFiles_valid: "\<forall>k \<in> set (expectedFiles os). validName k"
  by (simp add: expectedFiles_def validName_def)

lemma expectedFiles_distinct: "distinct (expectedFiles os)"
  by (simp add: expectedFiles_def)


lemma staging_paths:
  "tmpMCPOf d = d @ [''mcpTmp'']" "mcpDirOf d = d @ [''mcp'']"
  "length (tmpMCPOf d) = length (mcpDirOf d)" "tmpMCPOf d \<noteq> mcpDirOf d"
  by (simp_all add: tmpMCPOf_def mcpDirOf_def)

lemma step3_after_extraction:
  assumes "downloadWithProgress w (getPlatformSpecificMCPURL (GOOS w) (GOARCH w)) ''MCP tools''
             (println ''Step 3/5: Downloading MCP tools...'' s0) = (s1, Inr a)"
    and "extractByURL w (getPlatformSpecificMCPURL (GOOS w) (GOARCH w)) a (tmpMCPOf (cwd w))
             (snd (mkdirAll (tmpMCPOf (cwd w)) (files s1))) = (None, f2)"
  shows "step3 w s0 =
     Inr (cleanUp (tmpMCPOf (cwd w))
            (relocate (GOOS w) (tmpMCPOf (cwd w)) (mcpDirOf (cwd w)) (expectedFiles (GOOS w))
               (s1\<lparr>files := f2\<rparr>)))"
  using assms by (simp add: step3_def step3Body_def Let_def)

text \<open>
  Claim C6, amended: for the expected file list of every platform, the relocation loop
  from the staging directory \<^verbatim>\<open>mcpTmp\<close> into \<^verbatim>\<open>mcp\<close> prints exactly one message per
  listed file, in the order of the list: the skip message when the rename of that file
  fails, the moved message when it succeeds. The rename of a file that is absent from the
  staging directory fails, so a missing file is skipped. A file whose rename fails, absent
  or not, is left as it was on both sides; a file whose rename succeeds is gone from the
  staging directory and is found under \<^verbatim>\<open>mcp\<close> with all it held, made executable where
  the loop asks for it. The loop never ends the run: once the archive is downloaded and
  extracted, step 3 goes on to its cleanup with the state the loop returns.
\<close>

theorem relocate_expected_files:
  "stdout (relocate os (tmpMCPOf d) (mcpDirOf d) (expectedFiles os) s) =
     stdout s @ map (\<lambda>n. case fst (rename (tmpMCPOf d @ [n]) (mcpDirOf d @ [n]) (files s)) of
                            Some err \<Rightarrow> skipMessage n err
                          | None \<Rightarrow> movedMessage n (mcpDirOf d @ [n])) (expectedFiles os) \<and>
   (\<forall>n \<in> set (expectedFiles os). statErr (files s) (tmpMCPOf d @ [n]) \<noteq> None \<longrightarrow>
      fst (rename (tmpMCPOf d @ [n]) (mcpDirOf d @ [n]) (files s)) \<noteq> None) \<and>
   (\<forall>n \<in> set (expectedFiles os).
      fst (rename (tmpMCPOf d @ [n]) (mcpDirOf d @ [n]) (files s)) \<noteq> None \<longrightarrow>
      (\<forall>q. nodeAt (files (relocate os (tmpMCPOf d) (mcpDirOf d) (expectedFiles os) s))
             (tmpMCPOf d @ n # q) = nodeAt (files s) (tmpMCPOf d @ n # q) \<and>
           nodeAt (files (relocate os (tmpMCPOf d) (mcpDirOf d) (expectedFiles os) s))
             (mcpDirOf d @ n # q) = nodeAt (files s) (mcpDirOf d @ n # q))) \<and>
   (\<forall>n \<in> set (expectedFiles os).
      fst (rename (tmpMCPOf d @ [n]) (mcpDirOf d @ [n]) (files s)) = None \<longrightarrow>
      (\<forall>q. nodeAt (files (relocate os (tmpMCPOf d) (mcpDirOf d) (expectedFiles os) s))
             (tmpMCPOf d @ n # q) = None \<and>
           (q \<noteq> [] \<longrightarrow>
              nodeAt (files (relocate os (tmpMCPOf d) (mcpDirOf d) (expectedFiles os) s))
                (mcpDirOf d @ n # q) = nodeAt (files s) (tmpMCPOf d @ n # q))) \<and>
      nodeAt (files (relocate os (tmpMCPOf d) (mcpDirOf d) (expectedFiles os) s)) (mcpDirOf d @ [n]) =
        (case nodeAt (files s) (tmpMCPOf d @ [n]) of
           Some (File c x) \<Rightarrow> Some (File c (x \<or> chmodWanted os n))
         | v \<Rightarrow> v)) \<and>
   (\<forall>w s0 s1 a f2.
      downloadWithProgress w (getPlatformSpecificMCPURL (GOOS w) (GOARCH w)) ''MCP tools''
        (println ''Step 3/5: Downloading MCP tools...'' s0) = (s1, Inr a) \<and>
      extractByURL w (getPlatformSpecificMCPURL (GOOS w) (GOARCH w)) a (tmpMCPOf (cwd w))
        (snd (mkdirAll (tmpMCPOf (cwd w)) (files s1))) = (None, f2) \<longrightarrow>
      step3 w s0 =
        Inr (cleanUp (tmpMCPOf (cwd w))
               (relocate (GOOS w) (tmpMCPOf (cwd w)) (mcpDirOf (cwd w)) (expectedFiles (GOOS w))
                  (s1\<lparr>files := f2\<rparr>))))"
proof -
  note g = relocate_general [OF expectedFiles_valid [of os] expectedFiles_distinct [of os]
      staging_paths(3) [of d] staging_paths(4) [of d], where os = os and s = s]
  show ?thesis
    by (rule conjI [OF g [THEN conjunct1] conjI [OF g [THEN conjunct2, THEN conjunct1]
        conjI [OF g [THEN conjunct2, THEN conjunct2, THEN conjunct1]
        conjI [OF g [THEN conjunct2, THEN conjunct2, THEN conjunct2]]]]])
      (auto intro: step3_after_extraction)
qed


section \<open>Properties of the orchestrator\<close>

lemma step3Body_after_extraction:
  assumes "downloadWithProgress w (getPlatformSpecificMCPURL (GOOS w) (GOARCH w)) ''MCP tools''
             (println ''Step 3/5: Downloading MCP tools...'' s0) = (s1, Inr a)"
    and "extractByURL w (getPlatformSpecificMCPURL (GOOS w) (GOARCH w)) a (tmpMCPOf (cwd w))
             (snd (mkdirAll (tmpMCPOf (cwd w)) (files s1))) = (None, f2)"
  shows "step3Body w s0 =
     Inr (relocate (GOOS w) (tmpMCPOf (cwd w)) (mcpDirOf (cwd w)) (expectedFiles (GOOS w))
            (s1\<lparr>files := f2\<rparr>))"
  using assms by (simp add: step3Body_def Let_def)

lemma step2Body_after_extraction:
  assumes "downloadWithProgress w xmluiRepoZip ''XMLUI repo''
             (println ''Step 2/5: Downloading XMLUI components...'' s0) = (s1, Inr z)"
    and "unzipTo w z (tmpDirOf (cwd w)) (snd (mkdirAll (tmpDirOf (cwd w)) (files s1))) = (None, f2)"
    and "findSourceRoot (tmpDirOf (cwd w))
           (case readDir (tmpDirOf (cwd w)) f2 of Inl e \<Rightarrow> [] | Inr es \<Rightarrow> es) = Some root"
    and "copyComponents fuel root (docsDirOf (cwd w)) (srcDirOf (cwd w))
           (s1\<lparr>files := snd (mkdirAll (srcDirOf (cwd w))
                              (snd (mkdirAll (docsDirOf (cwd w))
                                 (snd (mkdirAll (mcpDirOf (cwd w)) f2)))))\<rparr>) = Some s3"
  shows "step2Body fuel w s0 = Some (Inr s3)"
  using assms by (simp add: step2Body_def Let_def)

text \<open>
  Claim C8: when step 2 (the component library) completes, nothing exists any more at or
  below the staging directory \<^verbatim>\<open>xmlui-source\<close> of the install directory, and when step 3
  (the tool archive) completes, nothing exists at or below \<^verbatim>\<open>mcpTmp\<close>. Each step ends
  with the removal of its staging directory, after the relocation: the state it returns is
  the state \<open>m\<close> reached before the removal, with the same output, and with every path
  outside the staging directory holding what it held in \<open>m\<close>.
\<close>

theorem staging_directories_removed:
  "(step2 fuel w s = Some (Inr s') \<longrightarrow>
      (\<exists>m. step2Body fuel w s = Some (Inr m) \<and> stdout s' = stdout m \<and>
         (\<forall>q. prefix (cwd w @ [''xmlui-source'']) q \<longrightarrow> nodeAt (files s') q = None) \<and>
         (\<forall>q. \<not> prefix (cwd w @ [''xmlui-source'']) q \<longrightarrow>
              nodeAt (files s') q = nodeAt (files m) q))) \<and>
   (step3 w s = Inr s' \<longrightarrow>
      (\<exists>m. step3Body w s = Inr m \<and> stdout s' = stdout m \<and>
         (\<forall>q. prefix (cwd w @ [''mcpTmp'']) q \<longrightarrow> nodeAt (files s') q = None) \<and>
         (\<forall>q. \<not> prefix (cwd w @ [''mcpTmp'']) q \<longrightarrow>
              nodeAt (files s') q = nodeAt (files m) q)))"
proof (intro conjI impI)
  assume r: "step2 fuel w s = Some (Inr s')"
  then obtain m where m: "step2Body fuel w s = Some (Inr m)"
    and s': "s' = cleanUp (cwd w @ [''xmlui-source'']) m"
    by (auto simp: step2_def tmpDirOf_def split: option.splits sum.splits)
  from cleanUp_effect [of "cwd w @ [''xmlui-source'']" m] m s'
  show "\<exists>m. step2Body fuel w s = Some (Inr m) \<and> stdout s' = stdout m \<and>
         (\<forall>q. prefix (cwd w @ [''xmlui-source'']) q \<longrightarrow> nodeAt (files s') q = None) \<and>
         (\<forall>q. \<not> prefix (cwd w @ [''xmlui-source'']) q \<longrightarrow>
              nodeAt (files s') q = nodeAt (files m) q)"
    by simp
next
  assume r: "step3 w s = Inr s'"
  then obtain m where m: "step3Body w s = Inr m"
    and s': "s' = cleanUp (cwd w @ [''mcpTmp'']) m"
    by (auto simp: step3_def tmpMCPOf_def split: sum.splits)
  from cleanUp_effect [of "cwd w @ [''mcpTmp'']" m] m s'
  show "\<exists>m. step3Body w s = Inr m \<and> stdout s' = stdout m \<and>
         (\<forall>q. prefix (cwd w @ [''mcpTmp'']) q \<longrightarrow> nodeAt (files s') q = None) \<and>
         (\<forall>q. \<not> prefix (cwd w @ [''mcpTmp'']) q \<longrightarrow>
              nodeAt (files s') q = nodeAt (files m) q)"
    by simp
qed





text \<open>
  The move of a root-level \<^verbatim>\<open>docs\<close> or \<^verbatim>\<open>src\<close>. A successful \<^verbatim>\<open>os.MkdirAll\<close> leaves a
  directory at its path, and \<^verbatim>\<open>os.Rename\<close> onto a directory fails: when the target
  directory exists, the block changes no file and prints its warning.
\<close>

lemma mkdirAll_prefix_isDir:
  assumes ok: "fst (mkdirAll p f) = None" and q: "prefix q p"
  shows "isDir (snd (mkdirAll p f)) q"
proof (cases "nodeAt f q")
  case None
  with ok q show ?thesis
    by (simp add: isDir_def nodeAt_mkdirAll)
next
  case (Some n)
  from ok q have "\<not> isFile f q"
    by (simp add: mkdirAll_ok_iff)
  with Some have "n = Dir"
    by (cases n) (simp_all add: isFile_def)
  with Some show ?thesis
    by (simp add: isDir_def nodeAt_mkdirAll)
qed

lemma mkdirAll_makes_directory:
  assumes ok: "fst (mkdirAll p f) = None"
  shows "statErr (snd (mkdirAll p f)) p = None \<and> isDir (snd (mkdirAll p f)) p"
proof -
  have "prefix (butlast p) p"
    by (simp add: prefixeq_butlast)
  with ok have "isDir (snd (mkdirAll p f)) (butlast p)"
    by (rule mkdirAll_prefix_isDir)
  moreover from ok have d: "isDir (snd (mkdirAll p f)) p"
    by (rule mkdirAll_prefix_isDir) simp
  ultimately show ?thesis
    by (simp add: statErr_def parentErr_def isDir_def)
qed

lemma moveStrayDir_onto_directory:
  assumes src: "statErr (files s) (joinPath d name) = None"
    and tgt: "statErr (files s) target = None" "isDir (files s) target"
  shows "moveStrayDir d name target s =
    printf (''Warning: Could not move '' @ name @ '' directory: '' @
            errorString (LinkError ''rename'' (render (joinPath d name)) (render target) EEXIST) @ nl) s"
proof -
  from src tgt have "rename (joinPath d name) target (files s) =
      (Some (LinkError ''rename'' (render (joinPath d name)) (render target) EEXIST), files s)"
    by (simp add: rename_def)
  with src show ?thesis
    by (simp add: moveStrayDir_def)
qed

section \<open>Fetcher: worked examples\<close>

theorem download_status_handling_witness:
  "snd (downloadWithProgress (sampleWorld 401 ''401 Unauthorized'' []) xmluiRepoZip ''XMLUI repo''
         \<lparr>files = [], stdout = []\<rparr>) =
     Inl (AuthenticationFailed xmluiRepoZip ''401 Unauthorized'') \<and>
   snd (downloadWithProgress (sampleWorld 401 ''401 Unauthorized'' []) appZipURL ''XMLUI invoice app''
         \<lparr>files = [], stdout = []\<rparr>) =
     Inl (RequestFailed ''401 Unauthorized'' appZipURL) \<and>
   snd (downloadWithProgress (sampleWorld 404 ''404 Not Found'' []) xmluiRepoZip ''XMLUI repo''
         \<lparr>files = [], stdout = []\<rparr>) =
     Inl (RequestFailed ''404 Not Found'' xmluiRepoZip) \<and>
   snd (downloadWithProgress (sampleWorld 200 ''200 OK'' []) xmluiRepoZip ''XMLUI repo''
         \<lparr>files = [], stdout = []\<rparr>) = Inr ''PK''"
proof -
  let ?s = "\<lparr>files = [], stdout = []\<rparr>"
  have a: "snd (downloadWithProgress (sampleWorld 401 ''401 Unauthorized'' []) xmluiRepoZip
              ''XMLUI repo'' ?s) = Inl (AuthenticationFailed xmluiRepoZip ''401 Unauthorized'')"
    using download_status_handling [of "sampleWorld 401 ''401 Unauthorized'' []" xmluiRepoZip
        "\<lparr>statusCode = 401, status = ''401 Unauthorized'', body = Inr ''PK''\<rparr>" "''XMLUI repo''" ?s]
      privateRepo_xmluiRepoZip
    by (simp add: sampleWorld_def)
  have b: "snd (downloadWithProgress (sampleWorld 401 ''401 Unauthorized'' []) appZipURL
              ''XMLUI invoice app'' ?s) = Inl (RequestFailed ''401 Unauthorized'' appZipURL)"
    using download_status_handling [of "sampleWorld 401 ''401 Unauthorized'' []" appZipURL
        "\<lparr>statusCode = 401, status = ''401 Unauthorized'', body = Inr ''PK''\<rparr>"
        "''XMLUI invoice app''" ?s]
      privateRepo_appZipURL
    by (simp add: sampleWorld_def)
  have c: "snd (downloadWithProgress (sampleWorld 404 ''404 Not Found'' []) xmluiRepoZip
              ''XMLUI repo'' ?s) = Inl (RequestFailed ''404 Not Found'' xmluiRepoZip)"
    using download_status_handling [of "sampleWorld 404 ''404 Not Found'' []" xmluiRepoZip
        "\<lparr>statusCode = 404, status = ''404 Not Found'', body = Inr ''PK''\<rparr>" "''XMLUI repo''" ?s]
    by (simp add: sampleWorld_def)
  have d: "snd (downloadWithProgress (sampleWorld 200 ''200 OK'' []) xmluiRepoZip
              ''XMLUI repo'' ?s) = Inr ''PK''"
    using download_status_handling [of "sampleWorld 200 ''200 OK'' []" xmluiRepoZip
        "\<lparr>statusCode = 200, status = ''200 OK'', body = Inr ''PK''\<rparr>" "''XMLUI repo''" ?s]
    by (simp add: sampleWorld_def)
  show ?thesis by (rule conjI [OF a conjI [OF b conjI [OF c d]]])
qed


section \<open>Archive extractor: worked examples\<close>

text \<open>
  Claim C2 as stated: both extraction operations make a script executable. Extracting a
  zip archive that holds \<^verbatim>\<open>start.sh\<close> leaves the file without the executable bit:
  \<^verbatim>\<open>unzipTo\<close> never calls \<^verbatim>\<open>os.Chmod\<close>.
\<close>

theorem unzipTo_script_counterexample:
  "execName [''w'', ''app'', ''start.sh''] \<and>
   unzipTo (sampleWorld 200 ''200 OK'' sampleScriptZip) ''PK'' [''w'', ''app''] sampleAppDir =
     (None,
      [([''w'', ''app'', ''start.sh''], File ''#!/bin/sh'' False),
       ([''w''], Dir), ([''w'', ''app''], Dir)]) \<and>
   \<not> isExec (snd (unzipTo (sampleWorld 200 ''200 OK'' sampleScriptZip) ''PK'' [''w'', ''app'']
                     sampleAppDir)) [''w'', ''app'', ''start.sh'']"
  by code_simp

theorem executable_bit_after_extraction_witness:
  "untarGzTo (sampleTarWorld sampleServerTar None) ''PK'' [''w'', ''app''] sampleAppDir =
     (None,
      [([''w'', ''app'', ''README.md''], File ''hi'' False),
       ([''w'', ''app'', ''start.sh''], File ''#!/bin/sh'' True),
       ([''w'', ''app'', ''bin'', ''xmlui-test-server''], File ''ELF'' True),
       ([''w'', ''app'', ''bin''], Dir), ([''w''], Dir), ([''w'', ''app''], Dir)]) \<and>
   execName [''w'', ''app'', ''bin'', ''xmlui-test-server''] \<and>
   isExec (snd (untarGzTo (sampleTarWorld sampleServerTar None) ''PK'' [''w'', ''app''] sampleAppDir))
     [''w'', ''app'', ''bin'', ''xmlui-test-server''] \<and>
   isExec (snd (unzipTo (sampleWorld 200 ''200 OK'' sampleScriptZip) ''PK'' [''w'', ''app'']
                  sampleAppDir)) [''w'', ''app'', ''start.sh''] =
     isExec sampleAppDir [''w'', ''app'', ''start.sh''] \<and>
   \<not> isExec sampleAppDir [''w'', ''app'', ''start.sh'']"
proof -
  let ?w = "sampleTarWorld sampleServerTar None"
  let ?t = "TarEntry ''bin/xmlui-test-server'' False ''ELF'' None"
  let ?ts1 = "[TarEntry ''bin/'' True [] None]"
  let ?ts2 = "[TarEntry ''start.sh'' False ''#!/bin/sh'' None, TarEntry ''README.md'' False ''hi'' None]"
  let ?f1 = "[([''w'', ''app'', ''bin'', ''xmlui-test-server''], File ''ELF'' True),
              ([''w'', ''app'', ''bin''], Dir), ([''w''], Dir), ([''w'', ''app''], Dir)]"
  have rd: "gzipTarReader ?w ''PK'' = Inr (?ts1 @ ?t # ?ts2, None)"
    by (simp add: sampleTarWorld_def sampleServerTar_def)
  have upto: "untarLoop [''w'', ''app''] (?ts1 @ [?t]) None sampleAppDir = (None, ?f1)"
    by code_simp
  have jp: "joinPath [''w'', ''app''] (teName ?t) = [''w'', ''app'', ''bin'', ''xmlui-test-server'']"
    by code_simp
  have ex: "execName [''w'', ''app'', ''bin'', ''xmlui-test-server'']"
    by code_simp
  have exj: "execName (joinPath [''w'', ''app''] (teName ?t))"
    by code_simp
  have nd: "\<not> teIsDir ?t" by simp
  note hyp = conjI [OF rd conjI [OF upto conjI [OF nd exj]]]
  note inst = executable_bit_after_extraction [where w = ?w and data = "''PK''" and ?ts1.0 = ?ts1
      and t = ?t and ?ts2.0 = ?ts2 and fin = None and dest = "[''w'', ''app'']" and f = sampleAppDir
      and ?f1.0 = ?f1]
  from inst [THEN conjunct1, THEN mp, OF hyp]
  have a: "isExec (snd (untarGzTo ?w ''PK'' [''w'', ''app''] sampleAppDir))
      [''w'', ''app'', ''bin'', ''xmlui-test-server'']"
    by (simp only: jp)
  have b: "untarGzTo ?w ''PK'' [''w'', ''app''] sampleAppDir =
     (None,
      [([''w'', ''app'', ''README.md''], File ''hi'' False),
       ([''w'', ''app'', ''start.sh''], File ''#!/bin/sh'' True),
       ([''w'', ''app'', ''bin'', ''xmlui-test-server''], File ''ELF'' True),
       ([''w'', ''app'', ''bin''], Dir), ([''w''], Dir), ([''w'', ''app''], Dir)])"
    by code_simp
  note c = executable_bit_after_extraction [where w = "sampleWorld 200 ''200 OK'' sampleScriptZip"
      and data = "''PK''" and dest = "[''w'', ''app'']" and f = sampleAppDir
      and q = "[''w'', ''app'', ''start.sh'']", THEN conjunct2]
  have d: "\<not> isExec sampleAppDir [''w'', ''app'', ''start.sh'']"
    by code_simp
  show ?thesis
    by (intro conjI b ex a c d)
qed



text \<open>
  Claim C3 as stated: every file-system write error aborts the extraction and is
  returned. An archive with the directory entry \<^verbatim>\<open>data/\<close>, extracted where \<^verbatim>\<open>data\<close> is
  a file: \<^verbatim>\<open>os.MkdirAll\<close> fails with ENOTDIR, and both extractors return no error.
\<close>

theorem extraction_mkdir_error_counterexample:
  "fst (mkdirAll [''w'', ''app'', ''data''] occupiedAppDir) =
     Some (PathError ''mkdir'' ''/w/app/data'' ENOTDIR) \<and>
   untarGzTo (sampleTarWorld [TarEntry ''data/'' True [] None] None) ''PK'' [''w'', ''app'']
     occupiedAppDir = (None, occupiedAppDir) \<and>
   unzipTo (sampleWorld 200 ''200 OK'' [ZipFile ''data/'' True (Inr ([], None))]) ''PK''
     [''w'', ''app''] occupiedAppDir = (None, occupiedAppDir)"
  by code_simp

theorem extraction_failure_aborts_witness:
  "unzipTo brokenArchiveWorld ''PK'' [''w'', ''app''] sampleAppDir =
     (Some (LibError ''zip: not a valid zip file''), sampleAppDir) \<and>
   untarGzTo brokenArchiveWorld ''PK'' [''w'', ''app''] sampleAppDir =
     (Some (LibError ''gzip: invalid header''), sampleAppDir) \<and>
   fst (unzipEntry [''w'', ''app'']
          (ZipFile ''b.txt'' False (Inl (LibError ''zip: unsupported compression algorithm'')))
          sampleAppDir) = Some (LibError ''zip: unsupported compression algorithm'') \<and>
   unzipLoop [''w'', ''app'']
     ([ZipFile ''a.txt'' False (Inr (''A'', None))] @
      ZipFile ''a.txt/b'' False (Inr (''B'', None)) # [ZipFile ''c.txt'' False (Inr (''C'', None))])
     sampleAppDir =
     (Some (PathError ''open'' ''/w/app/a.txt/b'' ENOTDIR),
      [([''w'', ''app'', ''a.txt''], File ''A'' False), ([''w''], Dir), ([''w'', ''app''], Dir)]) \<and>
   untarLoop [''w'', ''app'']
     ([TarEntry ''README.md'' False ''hi'' None] @
      TarEntry ''big.bin'' False ''EL'' (Some (LibError ''unexpected EOF'')) #
      [TarEntry ''start.sh'' False ''#!/bin/sh'' None]) None sampleAppDir =
     (Some (LibError ''unexpected EOF''),
      [([''w'', ''app'', ''big.bin''], File ''EL'' False),
       ([''w'', ''app'', ''README.md''], File ''hi'' False), ([''w''], Dir), ([''w'', ''app''], Dir)]) \<and>
   untarLoop [''w'', ''app''] [TarEntry ''README.md'' False ''hi'' None]
     (Some (LibError ''tar: invalid header'')) sampleAppDir =
     (Some (LibError ''tar: invalid header''),
      [([''w'', ''app'', ''README.md''], File ''hi'' False), ([''w''], Dir), ([''w'', ''app''], Dir)]) \<and>
   nodeAt [([''w'', ''app'', ''big.bin''], File ''EL'' False),
           ([''w'', ''app'', ''README.md''], File ''hi'' False), ([''w''], Dir), ([''w'', ''app''], Dir)]
     [''w'', ''app'', ''README.md''] = Some (File ''hi'' False) \<and>
   fst (untarEntry [''w'', ''app''] (TarEntry ''data/'' True [] None) occupiedAppDir) = None \<and>
   fst (unzipEntry [''w'', ''app''] (ZipFile ''data/'' True (Inr ([], None))) occupiedAppDir) = None"
proof -
  let ?d = "[''w'', ''app'']"
  \<comment> \<open>the archive cannot be opened\<close>
  have zr: "zipNewReader brokenArchiveWorld ''PK'' = Inl (LibError ''zip: not a valid zip file'')"
    and gr: "gzipTarReader brokenArchiveWorld ''PK'' = Inl (LibError ''gzip: invalid header'')"
    by (simp_all add: brokenArchiveWorld_def)
  have a: "unzipTo brokenArchiveWorld ''PK'' ?d sampleAppDir =
      (Some (LibError ''zip: not a valid zip file''), sampleAppDir)"
    using extraction_failure_aborts [where w = brokenArchiveWorld and data = "''PK''"
        and e = "LibError ''zip: not a valid zip file''" and dest = ?d and f = sampleAppDir,
        THEN conjunct1] zr
    by simp
  have b: "untarGzTo brokenArchiveWorld ''PK'' ?d sampleAppDir =
      (Some (LibError ''gzip: invalid header''), sampleAppDir)"
    using extraction_failure_aborts [where w = brokenArchiveWorld and data = "''PK''"
        and e = "LibError ''gzip: invalid header''" and dest = ?d and f = sampleAppDir,
        THEN conjunct2, THEN conjunct1] gr
    by simp
  \<comment> \<open>a zip entry cannot be opened\<close>
  let ?zb = "ZipFile ''b.txt'' False (Inl (LibError ''zip: unsupported compression algorithm''))"
  have c: "fst (unzipEntry ?d ?zb sampleAppDir) =
      Some (LibError ''zip: unsupported compression algorithm'')"
    using extraction_failure_aborts [where z = ?zb and dest = ?d and f = sampleAppDir
        and e = "LibError ''zip: unsupported compression algorithm''",
        THEN conjunct2, THEN conjunct2, THEN conjunct1]
    by simp
  \<comment> \<open>a file of a zip archive cannot be created\<close>
  let ?za = "ZipFile ''a.txt'' False (Inr (''A'', None))"
  let ?zab = "ZipFile ''a.txt/b'' False (Inr (''B'', None))"
  let ?zc = "ZipFile ''c.txt'' False (Inr (''C'', None))"
  let ?fa = "[([''w'', ''app'', ''a.txt''], File ''A'' False), ([''w''], Dir), ([''w'', ''app''], Dir)]"
  let ?ea = "PathError ''open'' ''/w/app/a.txt/b'' ENOTDIR"
  have z1: "unzipLoop ?d [?za] sampleAppDir = (None, ?fa)" by code_simp
  have z2: "unzipEntry ?d ?zab ?fa = (Some ?ea, ?fa)" by code_simp
  have d: "unzipLoop ?d ([?za] @ ?zab # [?zc]) sampleAppDir = (Some ?ea, ?fa)"
    using extraction_failure_aborts [where dest = ?d and zs = "[?za]" and f = sampleAppDir
        and ?f1.0 = ?fa and z = ?zab and e = ?ea and ?f2.0 = ?fa and zs' = "[?zc]",
        THEN conjunct2, THEN conjunct2, THEN conjunct2, THEN conjunct2, THEN conjunct2,
        THEN conjunct2, THEN conjunct1] z1 z2
    by simp
  \<comment> \<open>the content of a tar entry cannot be copied\<close>
  let ?tr = "TarEntry ''README.md'' False ''hi'' None"
  let ?tb = "TarEntry ''big.bin'' False ''EL'' (Some (LibError ''unexpected EOF''))"
  let ?ts = "TarEntry ''start.sh'' False ''#!/bin/sh'' None"
  let ?f1 = "[([''w'', ''app'', ''README.md''], File ''hi'' False), ([''w''], Dir), ([''w'', ''app''], Dir)]"
  let ?f2 = "[([''w'', ''app'', ''big.bin''], File ''EL'' False),
              ([''w'', ''app'', ''README.md''], File ''hi'' False), ([''w''], Dir), ([''w'', ''app''], Dir)]"
  have t1: "untarLoop ?d [?tr] None sampleAppDir = (None, ?f1)" by code_simp
  have t2: "untarEntry ?d ?tb ?f1 = (Some (LibError ''unexpected EOF''), ?f2)" by code_simp
  note tar = extraction_failure_aborts [where dest = ?d and ts = "[?tr]" and f = sampleAppDir
        and ?f1.0 = ?f1 and t = ?tb and e = "LibError ''unexpected EOF''" and ?f2.0 = ?f2
        and ts' = "[?ts]" and fin = None and p = "[''w'', ''app'', ''README.md'']"]
  have e: "untarLoop ?d ([?tr] @ ?tb # [?ts]) None sampleAppDir =
      (Some (LibError ''unexpected EOF''), ?f2)"
    using tar [THEN conjunct2, THEN conjunct2, THEN conjunct2, THEN conjunct2, THEN conjunct2,
        THEN conjunct2, THEN conjunct2, THEN conjunct1] t1 t2
    by simp
  \<comment> \<open>the next tar header cannot be read\<close>
  have g: "untarLoop ?d [?tr] (Some (LibError ''tar: invalid header'')) sampleAppDir =
      (Some (LibError ''tar: invalid header''), ?f1)"
    using extraction_failure_aborts [where dest = ?d and ts = "[?tr]" and f = sampleAppDir
        and ?f1.0 = ?f1 and e = "LibError ''tar: invalid header''",
        THEN conjunct2, THEN conjunct2, THEN conjunct2, THEN conjunct2, THEN conjunct2,
        THEN conjunct2, THEN conjunct2, THEN conjunct2, THEN conjunct1] t1
    by simp
  \<comment> \<open>what was extracted before the failure stays\<close>
  have k1: "nodeAt ?f1 [''w'', ''app'', ''README.md''] = Some (File ''hi'' False)" by code_simp
  have k2: "[''w'', ''app'', ''README.md''] \<noteq> joinPath ?d (teName ?tb)" by code_simp
  have h: "nodeAt ?f2 [''w'', ''app'', ''README.md''] = Some (File ''hi'' False)"
    using tar [THEN conjunct2, THEN conjunct2, THEN conjunct2, THEN conjunct2, THEN conjunct2,
        THEN conjunct2, THEN conjunct2, THEN conjunct2, THEN conjunct2, THEN conjunct2,
        THEN conjunct1] t2 k1 k2
    by simp
  \<comment> \<open>a directory that cannot be created is no error\<close>
  have i: "fst (untarEntry ?d (TarEntry ''data/'' True [] None) occupiedAppDir) = None"
    using extraction_failure_aborts [where t = "TarEntry ''data/'' True [] None" and dest = ?d
        and f = occupiedAppDir, THEN conjunct2, THEN conjunct2, THEN conjunct2, THEN conjunct2,
        THEN conjunct2, THEN conjunct2, THEN conjunct2, THEN conjunct2, THEN conjunct2,
        THEN conjunct2, THEN conjunct2, THEN conjunct2, THEN conjunct2]
    by simp
  have j: "fst (unzipEntry ?d (ZipFile ''data/'' True (Inr ([], None))) occupiedAppDir) = None"
    using extraction_failure_aborts [where z = "ZipFile ''data/'' True (Inr ([], None))" and dest = ?d
        and f = occupiedAppDir, THEN conjunct2, THEN conjunct2, THEN conjunct2, THEN conjunct2,
        THEN conjunct2, THEN conjunct2, THEN conjunct2, THEN conjunct2, THEN conjunct2,
        THEN conjunct2, THEN conjunct2, THEN conjunct2, THEN conjunct1]
    by simp
  show ?thesis
    by (intro conjI a b c d e g h i j)
qed

section \<open>Layout assembly: worked examples\<close>

text \<open>
  Claim C4 as stated: whenever the entry list has a matching entry, layout assembly
  renames it and returns the path. In an install directory where an earlier run has left
  a directory \<^verbatim>\<open>xmlui-invoice\<close>, the entry \<^verbatim>\<open>xmlui-invoice-main\<close> matches, but
  \<^verbatim>\<open>os.Rename\<close> refuses to replace a directory: \<^verbatim>\<open>moveIntoPlace\<close> returns that error, no
  path, and renames nothing.
\<close>

theorem moveIntoPlace_existing_target_counterexample:
  "readDir [''w''] secondRunInstallDir =
     Inr [(''xmlui-invoice'', True), (''xmlui-invoice-main'', True)] \<and>
   hasPrefix ''xmlui-invoice-main'' (repoName @ ''-'') \<and>
   moveIntoPlace [''w''] repoName [''w''] secondRunInstallDir =
     (secondRunInstallDir,
      Inl (LinkError ''rename'' ''/w/xmlui-invoice-main'' ''/w/xmlui-invoice'' EEXIST))"
  by code_simp

theorem moveIntoPlace_layout_witness:
  "snd (moveIntoPlace [''w''] repoName [''w''] freshInstallDir) = Inr [''w'', ''xmlui-invoice''] \<and>
   nodeAt (fst (moveIntoPlace [''w''] repoName [''w''] freshInstallDir))
     [''w'', ''xmlui-invoice-main''] = None \<and>
   nodeAt (fst (moveIntoPlace [''w''] repoName [''w''] freshInstallDir))
     [''w'', ''xmlui-invoice'', ''Main.xmlui''] = Some (File ''<App/>'' False) \<and>
   moveIntoPlace [''w''] repoName [''w''] secondRunInstallDir =
     (secondRunInstallDir,
      Inl (LinkError ''rename'' ''/w/xmlui-invoice-main'' ''/w/xmlui-invoice'' EEXIST)) \<and>
   moveIntoPlace [''w''] repoName [''w''] [([''w''], Dir), ([''w'', ''notes.txt''], File ''n'' False)] =
     ([([''w''], Dir), ([''w'', ''notes.txt''], File ''n'' False)], Inl RepoDirNotFound)"
proof -
  let ?m = "(''xmlui-invoice-main'', True)"
  have rd1: "readDir [''w''] freshInstallDir = Inr [?m]" by code_simp
  have wf1: "wfNames freshInstallDir" by code_simp
  have fm1: "find (\<lambda>e. hasPrefix (fst e) (repoName @ ''-'')) [?m] = Some ?m" by code_simp
  have ab1: "nodeAt freshInstallDir ([''w''] @ [repoName]) = None" by code_simp
  note t1 = moveIntoPlace_layout [OF rd1 wf1 validName_repoName, THEN conjunct2, rule_format, OF fm1]
  from t1 [THEN conjunct1] ab1
  have ok1: "fst (rename ([''w''] @ [fst ?m]) ([''w''] @ [repoName]) freshInstallDir) = None"
    by simp
  from t1 [THEN conjunct2, THEN conjunct1] ok1
  have a: "snd (moveIntoPlace [''w''] repoName [''w''] freshInstallDir) = Inr [''w'', ''xmlui-invoice'']"
    and b: "nodeAt (fst (moveIntoPlace [''w''] repoName [''w''] freshInstallDir))
       [''w'', ''xmlui-invoice-main''] = None"
    and c: "\<forall>q. nodeAt (fst (moveIntoPlace [''w''] repoName [''w''] freshInstallDir))
       ([''w''] @ repoName # q) = nodeAt freshInstallDir ([''w''] @ fst ?m # q)"
    by (simp_all add: repoName_def)
  have "nodeAt freshInstallDir [''w'', ''xmlui-invoice-main'', ''Main.xmlui''] =
      Some (File ''<App/>'' False)" by code_simp
  with c [rule_format, of "[''Main.xmlui'']"]
  have c': "nodeAt (fst (moveIntoPlace [''w''] repoName [''w''] freshInstallDir))
     [''w'', ''xmlui-invoice'', ''Main.xmlui''] = Some (File ''<App/>'' False)"
    by (simp add: repoName_def)
  let ?es2 = "[(''xmlui-invoice'', True), ?m]"
  have rd2: "readDir [''w''] secondRunInstallDir = Inr ?es2" by code_simp
  have wf2: "wfNames secondRunInstallDir" by code_simp
  have fm2: "find (\<lambda>e. hasPrefix (fst e) (repoName @ ''-'')) ?es2 = Some ?m" by code_simp
  have bad2: "fst (rename ([''w''] @ [fst ?m]) ([''w''] @ [repoName]) secondRunInstallDir) =
      Some (LinkError ''rename'' ''/w/xmlui-invoice-main'' ''/w/xmlui-invoice'' EEXIST)"
    by code_simp
  from moveIntoPlace_layout [OF rd2 wf2 validName_repoName, THEN conjunct2, rule_format, OF fm2,
      THEN conjunct2, THEN conjunct2, rule_format, OF bad2]
  have d: "moveIntoPlace [''w''] repoName [''w''] secondRunInstallDir =
     (secondRunInstallDir,
      Inl (LinkError ''rename'' ''/w/xmlui-invoice-main'' ''/w/xmlui-invoice'' EEXIST))" .
  let ?f3 = "[([''w''], Dir), ([''w'', ''notes.txt''], File ''n'' False)]"
  have rd3: "readDir [''w''] ?f3 = Inr [(''notes.txt'', False)]" by code_simp
  have wf3: "wfNames ?f3" by code_simp
  have nm3: "\<forall>e \<in> set [(''notes.txt'', False)]. \<not> hasPrefix (fst e) (repoName @ ''-'')"
    by (simp add: hasPrefix_def repoName_def)
  from moveIntoPlace_layout [OF rd3 wf3 validName_repoName, THEN conjunct1, THEN mp, OF nm3]
  have e: "moveIntoPlace [''w''] repoName [''w''] ?f3 = (?f3, Inl RepoDirNotFound)" .
  show ?thesis
    by (intro conjI a b c' d e)
qed


text \<open>
  Claim C10 as stated: with more than one matching entry, the first in listing order is
  renamed. In an install directory where an earlier run has left a directory
  \<^verbatim>\<open>xmlui-invoice\<close> and that holds the matching entries \<^verbatim>\<open>xmlui-invoice-backup\<close> and
  \<^verbatim>\<open>xmlui-invoice-main\<close>, the rename of the first is refused: \<^verbatim>\<open>moveIntoPlace\<close> returns
  that error and no entry is renamed.
\<close>

theorem moveIntoPlace_two_matches_counterexample:
  "readDir [''w''] twoMatchesSecondRunDir =
     Inr [(''xmlui-invoice'', True), (''xmlui-invoice-backup'', False),
          (''xmlui-invoice-main'', True)] \<and>
   hasPrefix ''xmlui-invoice-backup'' (repoName @ ''-'') \<and>
   hasPrefix ''xmlui-invoice-main'' (repoName @ ''-'') \<and>
   \<not> hasPrefix ''xmlui-invoice'' (repoName @ ''-'') \<and>
   moveIntoPlace [''w''] repoName [''w''] twoMatchesSecondRunDir =
     (twoMatchesSecondRunDir,
      Inl (LinkError ''rename'' ''/w/xmlui-invoice-backup'' ''/w/xmlui-invoice'' EEXIST)) \<and>
   nodeAt (fst (moveIntoPlace [''w''] repoName [''w''] twoMatchesSecondRunDir))
     [''w'', ''xmlui-invoice-backup''] = Some (File ''tar'' False) \<and>
   nodeAt (fst (moveIntoPlace [''w''] repoName [''w''] twoMatchesSecondRunDir))
     [''w'', ''xmlui-invoice'', ''Main.xmlui''] = Some (File ''<Old/>'' False)"
  by code_simp

theorem moveIntoPlace_first_only_witness:
  "readDir [''w''] twoMatchesInstallDir =
     Inr [(''xmlui-invoice-backup'', False), (''xmlui-invoice-main'', True)] \<and>
   snd (moveIntoPlace [''w''] repoName [''w''] twoMatchesInstallDir) =
     Inr [''w'', ''xmlui-invoice''] \<and>
   nodeAt (fst (moveIntoPlace [''w''] repoName [''w''] twoMatchesInstallDir))
     [''w'', ''xmlui-invoice''] = Some (File ''tar'' False) \<and>
   nodeAt (fst (moveIntoPlace [''w''] repoName [''w''] twoMatchesInstallDir))
     [''w'', ''xmlui-invoice-backup''] = None \<and>
   nodeAt (fst (moveIntoPlace [''w''] repoName [''w''] twoMatchesInstallDir))
     [''w'', ''xmlui-invoice-main''] = Some Dir \<and>
   nodeAt (fst (moveIntoPlace [''w''] repoName [''w''] twoMatchesInstallDir))
     [''w'', ''xmlui-invoice-main'', ''Main.xmlui''] = Some (File ''<App/>'' False) \<and>
   moveIntoPlace [''w''] repoName [''w''] twoMatchesSecondRunDir =
     (twoMatchesSecondRunDir,
      Inl (LinkError ''rename'' ''/w/xmlui-invoice-backup'' ''/w/xmlui-invoice'' EEXIST)) \<and>
   nodeAt (fst (moveIntoPlace [''w''] repoName [''w''] twoMatchesSecondRunDir))
     [''w'', ''xmlui-invoice-main'', ''Main.xmlui''] = Some (File ''<App/>'' False)"
proof -
  let ?b = "(''xmlui-invoice-backup'', False)"
  let ?m = "(''xmlui-invoice-main'', True)"
  let ?r = "moveIntoPlace [''w''] repoName [''w''] twoMatchesInstallDir"
  have rd: "readDir [''w''] twoMatchesInstallDir = Inr [?b, ?m]" by code_simp
  have wf: "wfNames twoMatchesInstallDir" by code_simp
  have fm: "find (\<lambda>e. hasPrefix (fst e) (repoName @ ''-'')) [?b, ?m] = Some ?b" by code_simp
  note t = moveIntoPlace_first_only [OF rd wf validName_repoName fm]
  \<comment> \<open>no \<^verbatim>\<open>xmlui-invoice\<close> yet: the rename succeeds\<close>
  have ab: "nodeAt twoMatchesInstallDir ([''w''] @ [repoName]) = None" by code_simp
  from t [THEN conjunct2, THEN conjunct2, THEN conjunct2, THEN conjunct1, THEN mp, OF ab]
  have a: "snd ?r = Inr [''w'', ''xmlui-invoice'']"
    by (simp add: repoName_def)
  have old: "nodeAt twoMatchesInstallDir [''w'', ''xmlui-invoice-backup''] = Some (File ''tar'' False)"
    "nodeAt twoMatchesInstallDir [''w'', ''xmlui-invoice-main''] = Some Dir"
    "nodeAt twoMatchesInstallDir [''w'', ''xmlui-invoice-main'', ''Main.xmlui''] =
       Some (File ''<App/>'' False)"
    by code_simp+
  from t [THEN conjunct2, THEN conjunct2, THEN conjunct1] a old(1)
  have b: "nodeAt (fst ?r) [''w'', ''xmlui-invoice''] = Some (File ''tar'' False)"
    and c: "nodeAt (fst ?r) [''w'', ''xmlui-invoice-backup''] = None"
    by (simp_all add: repoName_def)
  have other: "?m \<in> set [?b, ?m]" "?m \<noteq> ?b \<and> hasPrefix (fst ?m) (repoName @ ''-'')"
    by (simp_all add: hasPrefix_def repoName_def)
  note keep = t [THEN conjunct2, THEN conjunct1, THEN bspec, OF other(1), THEN mp, OF other(2)]
  from keep [rule_format, of "[]"] old(2)
  have d: "nodeAt (fst ?r) [''w'', ''xmlui-invoice-main''] = Some Dir" by simp
  from keep [rule_format, of "[''Main.xmlui'']"] old(3)
  have e: "nodeAt (fst ?r) [''w'', ''xmlui-invoice-main'', ''Main.xmlui''] =
      Some (File ''<App/>'' False)" by simp
  \<comment> \<open>a directory \<^verbatim>\<open>xmlui-invoice\<close> is there: the rename is refused\<close>
  let ?i = "(''xmlui-invoice'', True)"
  let ?r2 = "moveIntoPlace [''w''] repoName [''w''] twoMatchesSecondRunDir"
  have rd2: "readDir [''w''] twoMatchesSecondRunDir = Inr [?i, ?b, ?m]" by code_simp
  have wf2: "wfNames twoMatchesSecondRunDir" by code_simp
  have fm2: "find (\<lambda>e. hasPrefix (fst e) (repoName @ ''-'')) [?i, ?b, ?m] = Some ?b" by code_simp
  note t2 = moveIntoPlace_first_only [OF rd2 wf2 validName_repoName fm2]
  have bad2: "fst (rename ([''w''] @ [fst ?b]) ([''w''] @ [repoName]) twoMatchesSecondRunDir) =
      Some (LinkError ''rename'' ''/w/xmlui-invoice-backup'' ''/w/xmlui-invoice'' EEXIST)"
    by code_simp
  from t2 [THEN conjunct2, THEN conjunct2, THEN conjunct2, THEN conjunct2, rule_format, OF bad2]
  have g: "?r2 = (twoMatchesSecondRunDir,
      Inl (LinkError ''rename'' ''/w/xmlui-invoice-backup'' ''/w/xmlui-invoice'' EEXIST))" .
  have other2: "?m \<in> set [?i, ?b, ?m]" by simp
  have old2: "nodeAt twoMatchesSecondRunDir [''w'', ''xmlui-invoice-main'', ''Main.xmlui''] =
       Some (File ''<App/>'' False)"
    by code_simp
  from t2 [THEN conjunct2, THEN conjunct1, THEN bspec, OF other2, THEN mp, OF other(2),
      rule_format, of "[''Main.xmlui'']"] old2
  have h: "nodeAt (fst ?r2) [''w'', ''xmlui-invoice-main'', ''Main.xmlui''] =
      Some (File ''<App/>'' False)" by simp
  show ?thesis
    by (intro conjI rd a b c d e g h)
qed

section \<open>Relocation loop: worked examples\<close>

text \<open>
  Claim C6 as stated: each present file is moved to the \<^verbatim>\<open>mcp\<close> directory. Here
  \<^verbatim>\<open>xmlui-mcp\<close> is present in the staging directory, but a directory of that name
  exists under \<^verbatim>\<open>mcp\<close>: \<^verbatim>\<open>os.Rename\<close> fails, the file is reported as skipped and stays
  where it was.
\<close>

theorem relocate_blocked_counterexample:
  "nodeAt (files blockedToolState) [''w'', ''mcpTmp'', ''xmlui-mcp''] = Some (File ''ELF'' False) \<and>
   expectedFiles ''linux'' =
     [''xmlui-mcp'', ''xmlui-mcp-client'', ''prepare-binaries.sh'', ''run-mcp-client.sh''] \<and>
   nodeAt (files (relocate ''linux'' [''w'', ''mcpTmp''] [''w'', ''mcp''] (expectedFiles ''linux'')
                    blockedToolState)) [''w'', ''mcpTmp'', ''xmlui-mcp''] =
     Some (File ''ELF'' False) \<and>
   nodeAt (files (relocate ''linux'' [''w'', ''mcpTmp''] [''w'', ''mcp''] (expectedFiles ''linux'')
                    blockedToolState)) [''w'', ''mcp'', ''xmlui-mcp''] = Some Dir \<and>
   hd (stdout (relocate ''linux'' [''w'', ''mcpTmp''] [''w'', ''mcp''] (expectedFiles ''linux'')
                 blockedToolState)) =
     skipMessage ''xmlui-mcp''
       (LinkError ''rename'' ''/w/mcpTmp/xmlui-mcp'' ''/w/mcp/xmlui-mcp'' EEXIST)"
  by code_simp

theorem relocate_expected_files_witness:
  "stdout (relocate ''linux'' (tmpMCPOf [''w'']) (mcpDirOf [''w'']) (expectedFiles ''linux'')
             partialToolState) =
     [movedMessage ''xmlui-mcp'' [''w'', ''mcp'', ''xmlui-mcp''],
      skipMessage ''xmlui-mcp-client''
        (LinkError ''rename'' ''/w/mcpTmp/xmlui-mcp-client'' ''/w/mcp/xmlui-mcp-client'' ENOENT),
      skipMessage ''prepare-binaries.sh''
        (LinkError ''rename'' ''/w/mcpTmp/prepare-binaries.sh'' ''/w/mcp/prepare-binaries.sh'' ENOENT),
      movedMessage ''run-mcp-client.sh'' [''w'', ''mcp'', ''run-mcp-client.sh'']] \<and>
   statErr (files partialToolState) [''w'', ''mcpTmp'', ''xmlui-mcp-client''] = Some ENOENT \<and>
   fst (rename [''w'', ''mcpTmp'', ''xmlui-mcp-client''] [''w'', ''mcp'', ''xmlui-mcp-client'']
          (files partialToolState)) \<noteq> None \<and>
   nodeAt (files (relocate ''linux'' (tmpMCPOf [''w'']) (mcpDirOf [''w'']) (expectedFiles ''linux'')
                    partialToolState)) [''w'', ''mcp'', ''xmlui-mcp-client''] = None \<and>
   nodeAt (files (relocate ''linux'' (tmpMCPOf [''w'']) (mcpDirOf [''w'']) (expectedFiles ''linux'')
                    partialToolState)) [''w'', ''mcpTmp'', ''xmlui-mcp''] = None \<and>
   nodeAt (files (relocate ''linux'' (tmpMCPOf [''w'']) (mcpDirOf [''w'']) (expectedFiles ''linux'')
                    partialToolState)) [''w'', ''mcp'', ''xmlui-mcp''] = Some (File ''ELF'' True) \<and>
   step3 (sampleWorld 200 ''200 OK'' sampleToolZip) sampleState =
     Inr (cleanUp [''w'', ''mcpTmp'']
            (relocate ''linux'' [''w'', ''mcpTmp''] [''w'', ''mcp''] (expectedFiles ''linux'')
               (fst (downloadWithProgress (sampleWorld 200 ''200 OK'' sampleToolZip)
                       (getPlatformSpecificMCPURL ''linux'' ''amd64'') ''MCP tools''
                       (println ''Step 3/5: Downloading MCP tools...'' sampleState))
                \<lparr>files := [([''w'', ''mcpTmp'', ''README.md''], File ''hi'' False),
                            ([''w'', ''mcpTmp'', ''xmlui-mcp''], File ''ELF'' False),
                            ([''w'', ''mcpTmp''], Dir), ([''w''], Dir), ([''w'', ''mcp''], Dir),
                            ([''w'', ''notes.txt''], File ''n'' False)]\<rparr>)))"
proof -
  let ?t = "tmpMCPOf [''w'']" and ?m = "mcpDirOf [''w'']"
  let ?r = "relocate ''linux'' ?t ?m (expectedFiles ''linux'') partialToolState"
  have tm: "?t = [''w'', ''mcpTmp'']" "?m = [''w'', ''mcp'']"
    by (simp_all add: staging_paths)
  note t = relocate_expected_files [where os = "''linux''" and d = "[''w'']" and s = partialToolState]
  have msgs: "map (\<lambda>n. case fst (rename (?t @ [n]) (?m @ [n]) (files partialToolState)) of
                          Some err \<Rightarrow> skipMessage n err
                        | None \<Rightarrow> movedMessage n (?m @ [n])) (expectedFiles ''linux'') =
     [movedMessage ''xmlui-mcp'' [''w'', ''mcp'', ''xmlui-mcp''],
      skipMessage ''xmlui-mcp-client''
        (LinkError ''rename'' ''/w/mcpTmp/xmlui-mcp-client'' ''/w/mcp/xmlui-mcp-client'' ENOENT),
      skipMessage ''prepare-binaries.sh''
        (LinkError ''rename'' ''/w/mcpTmp/prepare-binaries.sh'' ''/w/mcp/prepare-binaries.sh'' ENOENT),
      movedMessage ''run-mcp-client.sh'' [''w'', ''mcp'', ''run-mcp-client.sh'']]"
    by code_simp
  have out0: "stdout partialToolState = []" by (simp add: partialToolState_def)
  from t [THEN conjunct1] have "stdout ?r = stdout partialToolState @
      map (\<lambda>n. case fst (rename (?t @ [n]) (?m @ [n]) (files partialToolState)) of
                          Some err \<Rightarrow> skipMessage n err
                        | None \<Rightarrow> movedMessage n (?m @ [n])) (expectedFiles ''linux'')" .
  then have a: "stdout ?r =
     [movedMessage ''xmlui-mcp'' [''w'', ''mcp'', ''xmlui-mcp''],
      skipMessage ''xmlui-mcp-client''
        (LinkError ''rename'' ''/w/mcpTmp/xmlui-mcp-client'' ''/w/mcp/xmlui-mcp-client'' ENOENT),
      skipMessage ''prepare-binaries.sh''
        (LinkError ''rename'' ''/w/mcpTmp/prepare-binaries.sh'' ''/w/mcp/prepare-binaries.sh'' ENOENT),
      movedMessage ''run-mcp-client.sh'' [''w'', ''mcp'', ''run-mcp-client.sh'']]"
    by (simp only: msgs out0 append_Nil)
  have in1: "''xmlui-mcp-client'' \<in> set (expectedFiles ''linux'')"
    and in2: "''xmlui-mcp'' \<in> set (expectedFiles ''linux'')"
    by (simp_all add: expectedFiles_def)
  have b: "statErr (files partialToolState) [''w'', ''mcpTmp'', ''xmlui-mcp-client''] = Some ENOENT"
    by code_simp
  then have b': "statErr (files partialToolState) (?t @ [''xmlui-mcp-client'']) \<noteq> None"
    by (simp add: tm)
  from t [THEN conjunct2, THEN conjunct1, THEN bspec, OF in1, THEN mp, OF b']
  have c': "fst (rename (?t @ [''xmlui-mcp-client'']) (?m @ [''xmlui-mcp-client''])
               (files partialToolState)) \<noteq> None" .
  then have c: "fst (rename [''w'', ''mcpTmp'', ''xmlui-mcp-client'']
      [''w'', ''mcp'', ''xmlui-mcp-client''] (files partialToolState)) \<noteq> None"
    by (simp add: tm)
  have absent: "nodeAt (files partialToolState) [''w'', ''mcp'', ''xmlui-mcp-client''] = None"
    by code_simp
  from t [THEN conjunct2, THEN conjunct2, THEN conjunct1, THEN bspec, OF in1, THEN mp, OF c',
      THEN spec, of "[]"] absent
  have d: "nodeAt (files ?r) [''w'', ''mcp'', ''xmlui-mcp-client''] = None"
    by (simp add: tm)
  have ok: "fst (rename (?t @ [''xmlui-mcp'']) (?m @ [''xmlui-mcp'']) (files partialToolState)) = None"
    by code_simp
  have src: "nodeAt (files partialToolState) [''w'', ''mcpTmp'', ''xmlui-mcp''] =
      Some (File ''ELF'' False)" by code_simp
  have cw: "chmodWanted ''linux'' ''xmlui-mcp''"
    by (simp add: chmodWanted_def hasPrefix_def)
  note mv = t [THEN conjunct2, THEN conjunct2, THEN conjunct2, THEN conjunct1, THEN bspec, OF in2,
      THEN mp, OF ok]
  from mv [THEN conjunct1, THEN spec, of "[]"]
  have e: "nodeAt (files ?r) [''w'', ''mcpTmp'', ''xmlui-mcp''] = None"
    by (simp add: tm)
  from mv [THEN conjunct2] src cw
  have f: "nodeAt (files ?r) [''w'', ''mcp'', ''xmlui-mcp''] = Some (File ''ELF'' True)"
    by (simp add: tm)
  let ?w = "sampleWorld 200 ''200 OK'' sampleToolZip"
  let ?s1 = "fst (downloadWithProgress ?w (getPlatformSpecificMCPURL ''linux'' ''amd64'')
      ''MCP tools'' (println ''Step 3/5: Downloading MCP tools...'' sampleState))"
  let ?f2 = "[([''w'', ''mcpTmp'', ''README.md''], File ''hi'' False),
             ([''w'', ''mcpTmp'', ''xmlui-mcp''], File ''ELF'' False),
             ([''w'', ''mcpTmp''], Dir), ([''w''], Dir), ([''w'', ''mcp''], Dir),
             ([''w'', ''notes.txt''], File ''n'' False)]"
  have w: "GOOS ?w = ''linux''" "GOARCH ?w = ''amd64''" "cwd ?w = [''w'']"
    by (simp_all add: sampleWorld_def)
  have dl: "downloadWithProgress ?w (getPlatformSpecificMCPURL (GOOS ?w) (GOARCH ?w)) ''MCP tools''
      (println ''Step 3/5: Downloading MCP tools...'' sampleState) = (?s1, Inr ''PK'')"
    by code_simp
  have ex: "extractByURL ?w (getPlatformSpecificMCPURL (GOOS ?w) (GOARCH ?w)) ''PK''
      (tmpMCPOf (cwd ?w)) (snd (mkdirAll (tmpMCPOf (cwd ?w)) (files ?s1))) = (None, ?f2)"
    by code_simp
  from t [THEN conjunct2, THEN conjunct2, THEN conjunct2, THEN conjunct2, rule_format,
      OF conjI [OF dl ex]]
  have g: "step3 ?w sampleState =
     Inr (cleanUp [''w'', ''mcpTmp'']
            (relocate ''linux'' [''w'', ''mcpTmp''] [''w'', ''mcp''] (expectedFiles ''linux'')
               (?s1\<lparr>files := ?f2\<rparr>)))"
    by (simp only: w tm)
  show ?thesis
    by (intro conjI a b c d e f g)
qed


section \<open>Orchestrator: worked examples\<close>

theorem staging_directories_removed_witness:
  "step3 (sampleWorld 200 ''200 OK'' sampleToolZip) sampleState =
     Inr (projr (step3 (sampleWorld 200 ''200 OK'' sampleToolZip) sampleState)) \<and>
   nodeAt (files (projr (step3Body (sampleWorld 200 ''200 OK'' sampleToolZip) sampleState)))
     [''w'', ''mcpTmp'', ''README.md''] = Some (File ''hi'' False) \<and>
   nodeAt (files (projr (step3 (sampleWorld 200 ''200 OK'' sampleToolZip) sampleState)))
     [''w'', ''mcpTmp'', ''README.md''] = None \<and>
   nodeAt (files (projr (step3 (sampleWorld 200 ''200 OK'' sampleToolZip) sampleState)))
     [''w'', ''mcpTmp''] = None \<and>
   nodeAt (files (projr (step3 (sampleWorld 200 ''200 OK'' sampleToolZip) sampleState)))
     [''w'', ''mcp'', ''xmlui-mcp''] = Some (File ''ELF'' True) \<and>
   nodeAt (files (projr (step3 (sampleWorld 200 ''200 OK'' sampleToolZip) sampleState)))
     [''w'', ''notes.txt''] = Some (File ''n'' False) \<and>
   step2 3 (sampleWorld 200 ''200 OK'' sampleLibraryZip) sampleState =
     Some (Inr (projr (the (step2 3 (sampleWorld 200 ''200 OK'' sampleLibraryZip) sampleState)))) \<and>
   nodeAt (files (projr (the (step2Body 3 (sampleWorld 200 ''200 OK'' sampleLibraryZip) sampleState))))
     [''w'', ''xmlui-source'', ''xmlui-main''] = Some Dir \<and>
   nodeAt (files (projr (the (step2 3 (sampleWorld 200 ''200 OK'' sampleLibraryZip) sampleState))))
     [''w'', ''xmlui-source'', ''xmlui-main''] = None \<and>
   nodeAt (files (projr (the (step2 3 (sampleWorld 200 ''200 OK'' sampleLibraryZip) sampleState))))
     [''w'', ''xmlui-source''] = None \<and>
   nodeAt (files (projr (the (step2 3 (sampleWorld 200 ''200 OK'' sampleLibraryZip) sampleState))))
     [''w'', ''mcp'', ''docs'', ''pages'', ''components'', ''Button.md''] =
       Some (File ''# Button'' False)"
proof -
  let ?w3 = "sampleWorld 200 ''200 OK'' sampleToolZip"
  let ?w2 = "sampleWorld 200 ''200 OK'' sampleLibraryZip"
  have w3: "GOOS ?w3 = ''linux''" "GOARCH ?w3 = ''amd64''" "cwd ?w3 = [''w'']"
    and w2: "cwd ?w2 = [''w'']"
    by (simp_all add: sampleWorld_def)
  have dirs: "tmpMCPOf [''w''] = [''w'', ''mcpTmp'']" "mcpDirOf [''w''] = [''w'', ''mcp'']"
    "tmpDirOf [''w''] = [''w'', ''xmlui-source'']" "docsDirOf [''w''] = [''w'', ''mcp'', ''docs'']"
    "srcDirOf [''w''] = [''w'', ''mcp'', ''src'']"
    by (simp_all add: tmpMCPOf_def mcpDirOf_def tmpDirOf_def docsDirOf_def srcDirOf_def)
  \<comment> \<open>step 3\<close>
  let ?d3 = "fst (downloadWithProgress ?w3 (getPlatformSpecificMCPURL ''linux'' ''amd64'')
      ''MCP tools'' (println ''Step 3/5: Downloading MCP tools...'' sampleState))"
  let ?f3 = "[([''w'', ''mcpTmp'', ''README.md''], File ''hi'' False),
             ([''w'', ''mcpTmp'', ''xmlui-mcp''], File ''ELF'' False),
             ([''w'', ''mcpTmp''], Dir), ([''w''], Dir), ([''w'', ''mcp''], Dir),
             ([''w'', ''notes.txt''], File ''n'' False)]"
  let ?m3 = "relocate ''linux'' [''w'', ''mcpTmp''] [''w'', ''mcp''] (expectedFiles ''linux'')
      (?d3\<lparr>files := ?f3\<rparr>)"
  let ?s3 = "cleanUp [''w'', ''mcpTmp''] ?m3"
  have dl3: "downloadWithProgress ?w3 (getPlatformSpecificMCPURL (GOOS ?w3) (GOARCH ?w3))
      ''MCP tools'' (println ''Step 3/5: Downloading MCP tools...'' sampleState) = (?d3, Inr ''PK'')"
    by code_simp
  have ex3: "extractByURL ?w3 (getPlatformSpecificMCPURL (GOOS ?w3) (GOARCH ?w3)) ''PK''
      (tmpMCPOf (cwd ?w3)) (snd (mkdirAll (tmpMCPOf (cwd ?w3)) (files ?d3))) = (None, ?f3)"
    by code_simp
  have body3: "step3Body ?w3 sampleState = Inr ?m3"
    using step3Body_after_extraction [OF dl3 ex3] by (simp only: w3 dirs)
  have r3: "step3 ?w3 sampleState = Inr ?s3"
    using step3_after_extraction [OF dl3 ex3] by (simp only: w3 dirs)
  have m3: "nodeAt (files ?m3) [''w'', ''mcpTmp'', ''README.md''] = Some (File ''hi'' False)"
    "nodeAt (files ?m3) [''w'', ''mcp'', ''xmlui-mcp''] = Some (File ''ELF'' True)"
    "nodeAt (files ?m3) [''w'', ''notes.txt''] = Some (File ''n'' False)"
    by code_simp+
  from staging_directories_removed [of 0 ?w3 sampleState ?s3, THEN conjunct2] r3
  obtain x3 where x3: "step3Body ?w3 sampleState = Inr x3"
    and gone3: "\<forall>q. prefix ([''w''] @ [''mcpTmp'']) q \<longrightarrow> nodeAt (files ?s3) q = None"
    and kept3: "\<forall>q. \<not> prefix ([''w''] @ [''mcpTmp'']) q \<longrightarrow>
        nodeAt (files ?s3) q = nodeAt (files x3) q"
    by (auto simp only: w3)
  from x3 body3 have x3m: "x3 = ?m3" by simp
  have a: "step3 ?w3 sampleState = Inr (projr (step3 ?w3 sampleState))"
    by (simp only: r3 sum.sel)
  have b: "nodeAt (files (projr (step3Body ?w3 sampleState))) [''w'', ''mcpTmp'', ''README.md''] =
      Some (File ''hi'' False)"
    by (simp only: body3 sum.sel m3)
  have c: "nodeAt (files (projr (step3 ?w3 sampleState))) [''w'', ''mcpTmp'', ''README.md''] = None"
    using gone3 [rule_format, of "[''w'', ''mcpTmp'', ''README.md'']"]
    by (simp only: r3 sum.sel) simp
  have d: "nodeAt (files (projr (step3 ?w3 sampleState))) [''w'', ''mcpTmp''] = None"
    using gone3 [rule_format, of "[''w'', ''mcpTmp'']"]
    by (simp only: r3 sum.sel) simp
  have e: "nodeAt (files (projr (step3 ?w3 sampleState))) [''w'', ''mcp'', ''xmlui-mcp''] =
      Some (File ''ELF'' True)"
    using kept3 [rule_format, of "[''w'', ''mcp'', ''xmlui-mcp'']"] m3(2)
    by (simp only: r3 sum.sel x3m) simp
  have f: "nodeAt (files (projr (step3 ?w3 sampleState))) [''w'', ''notes.txt''] =
      Some (File ''n'' False)"
    using kept3 [rule_format, of "[''w'', ''notes.txt'']"] m3(3)
    by (simp only: r3 sum.sel x3m) simp
  \<comment> \<open>step 2\<close>
  let ?d2 = "fst (downloadWithProgress ?w2 xmluiRepoZip ''XMLUI repo''
      (println ''Step 2/5: Downloading XMLUI components...'' sampleState))"
  let ?f2 = "[([''w'', ''xmlui-source'', ''xmlui-main'', ''docs'', ''pages'', ''components'',
                ''Button.md''], File ''# Button'' False),
              ([''w'', ''xmlui-source'', ''xmlui-main'', ''docs''], Dir),
              ([''w'', ''xmlui-source'', ''xmlui-main'', ''docs'', ''pages''], Dir),
              ([''w'', ''xmlui-source'', ''xmlui-main'', ''docs'', ''pages'', ''components''], Dir),
              ([''w'', ''xmlui-source'', ''xmlui-main''], Dir),
              ([''w'', ''xmlui-source''], Dir), ([''w''], Dir), ([''w'', ''mcp''], Dir),
              ([''w'', ''notes.txt''], File ''n'' False)]"
  let ?root = "[''w'', ''xmlui-source'', ''xmlui-main'']"
  let ?pre = "?d2\<lparr>files := snd (mkdirAll (srcDirOf (cwd ?w2))
                              (snd (mkdirAll (docsDirOf (cwd ?w2))
                                 (snd (mkdirAll (mcpDirOf (cwd ?w2)) ?f2)))))\<rparr>"
  let ?m2 = "the (copyComponents 3 ?root (docsDirOf (cwd ?w2)) (srcDirOf (cwd ?w2)) ?pre)"
  let ?s2 = "cleanUp [''w'', ''xmlui-source''] ?m2"
  have dl2: "downloadWithProgress ?w2 xmluiRepoZip ''XMLUI repo''
      (println ''Step 2/5: Downloading XMLUI components...'' sampleState) = (?d2, Inr ''PK'')"
    by code_simp
  have ex2: "unzipTo ?w2 ''PK'' (tmpDirOf (cwd ?w2))
      (snd (mkdirAll (tmpDirOf (cwd ?w2)) (files ?d2))) = (None, ?f2)"
    by code_simp
  have sr2: "findSourceRoot (tmpDirOf (cwd ?w2))
      (case readDir (tmpDirOf (cwd ?w2)) ?f2 of Inl e \<Rightarrow> [] | Inr es \<Rightarrow> es) = Some ?root"
    by code_simp
  have cp2: "copyComponents 3 ?root (docsDirOf (cwd ?w2)) (srcDirOf (cwd ?w2)) ?pre = Some ?m2"
    by code_simp
  have body2: "step2Body 3 ?w2 sampleState = Some (Inr ?m2)"
    by (rule step2Body_after_extraction [OF dl2 ex2 sr2 cp2])
  then have r2: "step2 3 ?w2 sampleState = Some (Inr ?s2)"
    by (simp add: step2_def w2 dirs)
  have m2: "nodeAt (files ?m2) [''w'', ''xmlui-source'', ''xmlui-main''] = Some Dir"
    "nodeAt (files ?m2) [''w'', ''mcp'', ''docs'', ''pages'', ''components'', ''Button.md''] =
      Some (File ''# Button'' False)"
    by code_simp+
  from staging_directories_removed [of 3 ?w2 sampleState ?s2, THEN conjunct1] r2
  obtain x2 where x2: "step2Body 3 ?w2 sampleState = Some (Inr x2)"
    and gone2: "\<forall>q. prefix ([''w''] @ [''xmlui-source'']) q \<longrightarrow> nodeAt (files ?s2) q = None"
    and kept2: "\<forall>q. \<not> prefix ([''w''] @ [''xmlui-source'']) q \<longrightarrow>
        nodeAt (files ?s2) q = nodeAt (files x2) q"
    by (auto simp only: w2)
  from x2 body2 have x2m: "x2 = ?m2" by simp
  have g: "step2 3 ?w2 sampleState = Some (Inr (projr (the (step2 3 ?w2 sampleState))))"
    by (simp only: r2 sum.sel option.sel)
  have h: "nodeAt (files (projr (the (step2Body 3 ?w2 sampleState))))
      [''w'', ''xmlui-source'', ''xmlui-main''] = Some Dir"
    by (simp only: body2 sum.sel option.sel m2)
  have i: "nodeAt (files (projr (the (step2 3 ?w2 sampleState))))
      [''w'', ''xmlui-source'', ''xmlui-main''] = None"
    using gone2 [rule_format, of "[''w'', ''xmlui-source'', ''xmlui-main'']"]
    by (simp only: r2 sum.sel option.sel) simp
  have j: "nodeAt (files (projr (the (step2 3 ?w2 sampleState)))) [''w'', ''xmlui-source''] = None"
    using gone2 [rule_format, of "[''w'', ''xmlui-source'']"]
    by (simp only: r2 sum.sel option.sel) simp
  have k: "nodeAt (files (projr (the (step2 3 ?w2 sampleState))))
      [''w'', ''mcp'', ''docs'', ''pages'', ''components'', ''Button.md''] =
        Some (File ''# Button'' False)"
    using kept2 [rule_format, of "[''w'', ''mcp'', ''docs'', ''pages'', ''components'', ''Button.md'']"]
      m2(2)
    by (simp only: r2 sum.sel option.sel x2m) simp
  show ?thesis
    by (intro conjI a b c d e f g h i j k)
qed



text \<open>
  Claim C7: a \<^verbatim>\<open>docs\<close> or \<^verbatim>\<open>src\<close> directory at the root of the install directory is moved
  to \<^verbatim>\<open>mcp/docs\<close> or \<^verbatim>\<open>mcp/src\<close>. With the install directory \<^verbatim>\<open>/w\<close> holding
  \<^verbatim>\<open>docs/guide.md\<close> and \<^verbatim>\<open>src/Button.tsx\<close>, the three \<^verbatim>\<open>os.MkdirAll\<close> calls of step 2
  create \<^verbatim>\<open>mcp\<close>, \<^verbatim>\<open>mcp/docs\<close> and \<^verbatim>\<open>mcp/src\<close>; the two moves then fail with
  \<^verbatim>\<open>file exists\<close>, print their warnings, and both directories stay at the root.
\<close>

theorem moveStray_root_docs_stay:
  "snd (mkdirAll (srcDirOf [''w''])
     (snd (mkdirAll (docsDirOf [''w''])
        (snd (mkdirAll (mcpDirOf [''w'']) strayDocsInstallDir))))) =
     [([''w'', ''mcp'', ''src''], Dir), ([''w'', ''mcp'', ''docs''], Dir), ([''w'', ''mcp''], Dir),
      ([''w''], Dir),
      ([''w'', ''docs''], Dir), ([''w'', ''docs'', ''guide.md''], File ''# Guide'' False),
      ([''w'', ''src''], Dir), ([''w'', ''src'', ''Button.tsx''], File ''export'' False)] \<and>
   moveStray [''w'']
     \<lparr>files =
        [([''w'', ''mcp'', ''src''], Dir), ([''w'', ''mcp'', ''docs''], Dir), ([''w'', ''mcp''], Dir),
         ([''w''], Dir),
         ([''w'', ''docs''], Dir), ([''w'', ''docs'', ''guide.md''], File ''# Guide'' False),
         ([''w'', ''src''], Dir), ([''w'', ''src'', ''Button.tsx''], File ''export'' False)],
      stdout = []\<rparr> =
     \<lparr>files =
        [([''w'', ''mcp'', ''src''], Dir), ([''w'', ''mcp'', ''docs''], Dir), ([''w'', ''mcp''], Dir),
         ([''w''], Dir),
         ([''w'', ''docs''], Dir), ([''w'', ''docs'', ''guide.md''], File ''# Guide'' False),
         ([''w'', ''src''], Dir), ([''w'', ''src'', ''Button.tsx''], File ''export'' False)],
      stdout =
        [''Warning: Could not move docs directory: rename /w/docs /w/mcp/docs: file exists'' @ nl,
         ''Warning: Could not move src directory: rename /w/src /w/mcp/src: file exists'' @ nl]\<rparr>"
  by code_simp
end
